(* ===== verification/GoStrings.thy ===== *)
theory GoStrings
  imports Prelude
begin

text \<open>
  The part of Go's packages \<open>strings\<close> and \<open>strconv\<close> that the program uses, on byte strings.

  \<open>strings.TrimSpace\<close>, \<open>strings.Fields\<close> and \<open>unicode.IsControl\<close> work on decoded runes.  Each
  white-space rune and each control rune has one valid UTF-8 encoding, its first byte is never a
  continuation byte, and so a byte-wise scan for those encodings finds exactly the runes that Go's
  decoder finds; invalid UTF-8 decodes to U+FFFD, which is neither.
\<close>

section \<open>Searching and splitting\<close>

definition contains_any :: "string \<Rightarrow> string \<Rightarrow> bool" where
  "contains_any s cs = list_ex (\<lambda>c. c \<in> set cs) s"

lemma contains_any_iff: "contains_any s cs \<longleftrightarrow> (\<exists>c \<in> set s. c \<in> set cs)"
  by (simp add: contains_any_def list_ex_set)

fun split_on :: "char \<Rightarrow> string \<Rightarrow> string list" where
  "split_on c [] = [[]]"
| "split_on c (x # xs) =
     (if x = c then [] # split_on c xs
      else (case split_on c xs of [] \<Rightarrow> [[x]] | y # ys \<Rightarrow> (x # y) # ys))"

fun join :: "string \<Rightarrow> string list \<Rightarrow> string" where
  "join sep [] = []"
| "join sep [x] = x"
| "join sep (x # y # zs) = x @ sep @ join sep (y # zs)"

fun cut :: "char \<Rightarrow> string \<Rightarrow> string \<times> string \<times> bool" where
  "cut c [] = ([], [], False)"
| "cut c (x # xs) =
     (if x = c then ([], xs, True)
      else (case cut c xs of (b, a, f) \<Rightarrow> (x # b, a, f)))"

definition index_byte :: "char \<Rightarrow> string \<Rightarrow> nat option" where
  "index_byte c s = (case cut c s of (b, _, f) \<Rightarrow> if f then Some (length b) else None)"

lemma split_on_nonempty [simp]: "split_on c s \<noteq> []"
  by (induction s) (auto split: list.splits)

lemma join_split_on: "join [c] (split_on c s) = s"
proof (induction s)
  case (Cons x xs)
  obtain y ys where ys: "split_on c xs = y # ys"
    by (cases "split_on c xs") auto
  with Cons show ?case by (cases ys) auto
qed simp

lemma split_on_no_sep: "c \<notin> set s \<Longrightarrow> split_on c s = [s]"
  by (induction s) auto

lemma split_on_append_sep:
  "c \<notin> set x \<Longrightarrow> split_on c (x @ c # s) = x # split_on c s"
  by (induction x) auto

lemma split_on_append:
  "split_on c (x @ c # s) = split_on c x @ split_on c s"
proof (induction x)
  case (Cons a x)
  then show ?case
    by (cases "split_on c x") auto
qed simp

lemma split_on_join:
  "xs \<noteq> [] \<Longrightarrow> \<forall>x \<in> set xs. c \<notin> set x \<Longrightarrow> split_on c (join [c] xs) = xs"
  by (induction "[c]" xs rule: join.induct) (auto simp: split_on_no_sep split_on_append_sep)

lemma split_on_parts_no_sep: "p \<in> set (split_on c s) \<Longrightarrow> c \<notin> set p"
  by (induction s arbitrary: p) (auto split: list.splits if_splits)

lemma split_on_parts_subset: "p \<in> set (split_on c s) \<Longrightarrow> set p \<subseteq> set s"
  by (induction s arbitrary: p) (fastforce split: list.splits if_splits)+

lemma set_join_subset:
  "set (join sep xs) \<subseteq> set sep \<union> (\<Union>x \<in> set xs. set x)"
  by (induction sep xs rule: join.induct) auto

lemma join_append:
  "xs \<noteq> [] \<Longrightarrow> ys \<noteq> [] \<Longrightarrow> join sep (xs @ ys) = join sep xs @ sep @ join sep ys"
  by (induction sep xs rule: join.induct) (auto simp: neq_Nil_conv)

lemma cut_first: "c \<notin> set k \<Longrightarrow> cut c (k @ c # v) = (k, v, True)"
  by (induction k) auto

lemma cut_parts: "cut c s = (b, a, True) \<Longrightarrow> s = b @ c # a \<and> c \<notin> set b"
  by (induction s arbitrary: b) (auto split: if_splits prod.splits)

lemma cut_absent: "cut c s = (b, a, False) \<Longrightarrow> c \<notin> set s \<and> b = s \<and> a = []"
  by (induction s arbitrary: b) (auto split: if_splits prod.splits)

section \<open>Replacing\<close>

text \<open>
  \<open>strings.ReplaceAll\<close> with a non-empty old string: left to right, without overlap.  A
  \<open>strings.NewReplacer\<close> whose old strings are single bytes replaces byte by byte.
\<close>

fun replace_from :: "nat \<Rightarrow> string \<Rightarrow> string \<Rightarrow> string \<Rightarrow> string" where
  "replace_from k old new [] = []"
| "replace_from 0 old new (x # xs) =
     (if prefix old (x # xs) then new @ replace_from (length old - 1) old new xs
      else x # replace_from 0 old new xs)"
| "replace_from (Suc k) old new (x # xs) = replace_from k old new xs"

definition replace_all :: "string \<Rightarrow> string \<Rightarrow> string \<Rightarrow> string" where
  "replace_all old new s = replace_from 0 old new s"

definition replace_bytes :: "(char \<times> string) list \<Rightarrow> string \<Rightarrow> string" where
  "replace_bytes m s = concat (map (\<lambda>c. case map_of m c of None \<Rightarrow> [c] | Some r \<Rightarrow> r) s)"

lemma replace_from_absent: "\<not> sublist old s \<Longrightarrow> replace_from 0 old new s = s"
proof (induction s)
  case (Cons x xs)
  from Cons.prems have "\<not> prefix old (x # xs)" and "\<not> sublist old xs"
    by (auto simp: sublist_Cons_right)
  with Cons.IH show ?case by simp
qed simp

lemma replace_all_absent: "\<not> sublist old s \<Longrightarrow> replace_all old new s = s"
  by (simp add: replace_all_def replace_from_absent)

lemma replace_from_drop: "replace_from k old new xs = replace_from 0 old new (drop k xs)"
  by (induction k old new xs rule: replace_from.induct) auto

lemma replace_all_byte:
  "replace_all [c] new s = concat (map (\<lambda>x. if x = c then new else [x]) s)"
proof -
  have "replace_from 0 [c] new s = concat (map (\<lambda>x. if x = c then new else [x]) s)"
    by (induction s) auto
  then show ?thesis by (simp add: replace_all_def)
qed

lemma replace_bytes_Nil [simp]: "replace_bytes m [] = []"
  by (simp add: replace_bytes_def)

lemma replace_bytes_Cons [simp]:
  "replace_bytes m (c # s) = (case map_of m c of None \<Rightarrow> [c] | Some r \<Rightarrow> r) @ replace_bytes m s"
  by (simp add: replace_bytes_def)

section \<open>White space\<close>

text \<open>The UTF-8 encodings of the runes for which \<open>unicode.IsSpace\<close> holds.\<close>

definition space_seqs :: "string list" where
  "space_seqs =
     [[CHR 0x09], [CHR 0x0A], [CHR 0x0B], [CHR 0x0C], [CHR 0x0D], [CHR 0x20],
      [CHR 0xC2, CHR 0x85], [CHR 0xC2, CHR 0xA0], [CHR 0xE1, CHR 0x9A, CHR 0x80],
      [CHR 0xE2, CHR 0x80, CHR 0x80], [CHR 0xE2, CHR 0x80, CHR 0x81],
      [CHR 0xE2, CHR 0x80, CHR 0x82], [CHR 0xE2, CHR 0x80, CHR 0x83],
      [CHR 0xE2, CHR 0x80, CHR 0x84], [CHR 0xE2, CHR 0x80, CHR 0x85],
      [CHR 0xE2, CHR 0x80, CHR 0x86], [CHR 0xE2, CHR 0x80, CHR 0x87],
      [CHR 0xE2, CHR 0x80, CHR 0x88], [CHR 0xE2, CHR 0x80, CHR 0x89],
      [CHR 0xE2, CHR 0x80, CHR 0x8A], [CHR 0xE2, CHR 0x80, CHR 0xA8],
      [CHR 0xE2, CHR 0x80, CHR 0xA9], [CHR 0xE2, CHR 0x80, CHR 0xAF],
      [CHR 0xE2, CHR 0x81, CHR 0x9F], [CHR 0xE3, CHR 0x80, CHR 0x80]]"

definition space_width :: "string \<Rightarrow> nat" where
  "space_width s = (case find (\<lambda>w. prefix w s) space_seqs of None \<Rightarrow> 0 | Some w \<Rightarrow> length w)"

definition space_width_end :: "string \<Rightarrow> nat" where
  "space_width_end s = (case find (\<lambda>w. suffix w s) space_seqs of None \<Rightarrow> 0 | Some w \<Rightarrow> length w)"

fun trim_left_space :: "string \<Rightarrow> string" where
  "trim_left_space s =
     (case space_width s of 0 \<Rightarrow> s | Suc k \<Rightarrow> if s = [] then s else trim_left_space (drop (Suc k) s))"

fun trim_right_space :: "string \<Rightarrow> string" where
  "trim_right_space s =
     (case space_width_end s of
        0 \<Rightarrow> s
      | Suc k \<Rightarrow> if s = [] then s else trim_right_space (take (length s - Suc k) s))"

declare trim_left_space.simps [simp del] trim_right_space.simps [simp del]

definition trim_space :: "string \<Rightarrow> string" where
  "trim_space s = trim_right_space (trim_left_space s)"

text \<open>
  \<open>strings.Fields\<close>: \<open>cur\<close> is the field being read (reversed), \<open>skip\<close> the bytes of a
  multi-byte space still to be passed over.
\<close>

fun fields_from :: "nat \<Rightarrow> string \<Rightarrow> string \<Rightarrow> string list" where
  "fields_from skip cur [] = (if cur = [] then [] else [rev cur])"
| "fields_from (Suc k) cur (x # xs) = fields_from k cur xs"
| "fields_from 0 cur (x # xs) =
     (case space_width (x # xs) of
        0 \<Rightarrow> fields_from 0 (x # cur) xs
      | Suc k \<Rightarrow> (if cur = [] then [] else [rev cur]) @ fields_from k [] xs)"

definition split_fields :: "string \<Rightarrow> string list" where
  "split_fields s = fields_from 0 [] s"

definition ascii_space :: "char \<Rightarrow> bool" where
  "ascii_space c \<longleftrightarrow> c \<in> {CHR 0x09, CHR 0x0A, CHR 0x0B, CHR 0x0C, CHR 0x0D, CHR 0x20}"

definition is_ascii :: "char \<Rightarrow> bool" where
  "is_ascii c \<longleftrightarrow> byte c < 128"

lemma find_space_Some: "find P space_seqs = Some w \<Longrightarrow> w \<in> set space_seqs \<and> P w"
  by (auto simp: find_Some_iff)

lemma space_seqs_nonempty: "w \<in> set space_seqs \<Longrightarrow> w \<noteq> []"
  by (auto simp: space_seqs_def)

lemma space_width_Nil [simp]: "space_width [] = 0"
  by (simp add: space_width_def space_seqs_def)

lemma space_width_end_Nil [simp]: "space_width_end [] = 0"
  by (simp add: space_width_end_def space_seqs_def)

lemma ascii_not_lead:
  assumes "is_ascii x"
  shows "x \<noteq> CHR 0xC2" "x \<noteq> CHR 0xE1" "x \<noteq> CHR 0xE2" "x \<noteq> CHR 0xE3"
  using assms by (auto simp: is_ascii_def byte_def)

lemma ascii_not_cont:
  assumes "is_ascii x"
  shows "x \<noteq> CHR 0x80" "x \<noteq> CHR 0x81" "x \<noteq> CHR 0x82" "x \<noteq> CHR 0x83" "x \<noteq> CHR 0x84"
    "x \<noteq> CHR 0x85" "x \<noteq> CHR 0x86" "x \<noteq> CHR 0x87" "x \<noteq> CHR 0x88" "x \<noteq> CHR 0x89"
    "x \<noteq> CHR 0x8A" "x \<noteq> CHR 0xA8" "x \<noteq> CHR 0xA9" "x \<noteq> CHR 0xAF" "x \<noteq> CHR 0x9F"
    "x \<noteq> CHR 0xA0"
  using assms by (auto simp: is_ascii_def byte_def)

lemma space_width_ascii:
  assumes "is_ascii x"
  shows "space_width (x # xs) = (if ascii_space x then 1 else 0)"
  by (simp add: space_width_def space_seqs_def ascii_space_def ascii_not_lead [OF assms, symmetric]
      ascii_not_lead [OF assms])

lemma space_width_end_ascii:
  assumes "is_ascii x"
  shows "space_width_end (xs @ [x]) = (if ascii_space x then 1 else 0)"
  by (simp add: space_width_end_def space_seqs_def ascii_space_def suffix_to_prefix
      ascii_not_cont [OF assms, symmetric] ascii_not_cont [OF assms])

lemma ascii_space_is_ascii: "ascii_space c \<Longrightarrow> is_ascii c"
  by (auto simp: ascii_space_def is_ascii_def byte_def)

lemma trim_left_space_id: "space_width s = 0 \<Longrightarrow> trim_left_space s = s"
  by (simp add: trim_left_space.simps)

lemma trim_right_space_id: "space_width_end s = 0 \<Longrightarrow> trim_right_space s = s"
  by (simp add: trim_right_space.simps)

lemma trim_left_space_done: "trim_left_space s = [] \<or> space_width (trim_left_space s) = 0"
proof (induction s rule: trim_left_space.induct)
  case (1 s)
  show ?case
  proof (cases "space_width s")
    case (Suc k)
    with "1.IH" show ?thesis
      by (cases "s = []") (simp_all add: trim_left_space.simps [of s])
  qed (simp add: trim_left_space.simps [of s])
qed

lemma trim_right_space_done: "trim_right_space s = [] \<or> space_width_end (trim_right_space s) = 0"
proof (induction s rule: trim_right_space.induct)
  case (1 s)
  show ?case
  proof (cases "space_width_end s")
    case (Suc k)
    with "1.IH" show ?thesis
      by (cases "s = []") (simp_all add: trim_right_space.simps [of s])
  qed (simp add: trim_right_space.simps [of s])
qed

lemma trim_left_space_suffix: "suffix (trim_left_space s) s"
proof (induction s rule: trim_left_space.induct)
  case (1 s)
  show ?case
  proof (cases "space_width s")
    case (Suc k)
    with "1.IH" show ?thesis
      by (cases "s = []")
        (auto simp: trim_left_space.simps [of s] intro: suffix_order.trans suffix_drop)
  qed (simp add: trim_left_space.simps [of s])
qed

lemma trim_right_space_prefix: "prefix (trim_right_space s) s"
proof (induction s rule: trim_right_space.induct)
  case (1 s)
  show ?case
  proof (cases "space_width_end s")
    case (Suc k)
    with "1.IH" show ?thesis
      by (cases "s = []")
        (auto simp: trim_right_space.simps [of s] intro: prefix_order.trans take_is_prefix)
  qed (simp add: trim_right_space.simps [of s])
qed

lemma trim_space_sublist: "sublist (trim_space s) s"
  using prefix_imp_sublist [OF trim_right_space_prefix [of "trim_left_space s"]]
    suffix_imp_sublist [OF trim_left_space_suffix [of s]]
  unfolding trim_space_def by (rule sublist_order.order_trans)

lemma set_trim_space: "set (trim_space s) \<subseteq> set s"
  using trim_space_sublist [of s] by (rule set_mono_sublist)

lemma trim_space_Nil [simp]: "trim_space [] = []"
  by (simp add: trim_space_def trim_left_space.simps trim_right_space.simps split: nat.splits)

text \<open>A trimmed string starts with no white-space byte: trimming is done when it stops.\<close>

lemma trim_space_hd:
  assumes "trim_space s = c # cs"
  shows "\<not> ascii_space c"
proof -
  from assms have "prefix (c # cs) (trim_left_space s)"
    unfolding trim_space_def by (metis trim_right_space_prefix)
  then obtain zs where zs: "trim_left_space s = c # zs"
    by (auto simp: prefix_def)
  then have "space_width (c # zs) = 0"
    using trim_left_space_done [of s] by simp
  then show ?thesis
    using space_width_ascii [of c zs] ascii_space_is_ascii [of c] by (auto split: if_splits)
qed

lemma trim_space_last:
  assumes "trim_space s \<noteq> []"
  shows "\<not> ascii_space (last (trim_space s))"
proof -
  let ?t = "trim_space s"
  from assms have e: "?t = butlast ?t @ [last ?t]" by simp
  from assms have "space_width_end ?t = 0"
    using trim_right_space_done [of "trim_left_space s"] by (simp add: trim_space_def)
  with e have "space_width_end (butlast ?t @ [last ?t]) = 0" by simp
  then show ?thesis
    using space_width_end_ascii [of "last ?t" "butlast ?t"] ascii_space_is_ascii [of "last ?t"]
    by (auto split: if_splits)
qed

lemma trim_space_id:
  assumes "\<forall>c \<in> set s. is_ascii c"
    and "s \<noteq> [] \<Longrightarrow> \<not> ascii_space (hd s) \<and> \<not> ascii_space (last s)"
  shows "trim_space s = s"
proof (cases s rule: rev_cases)
  case (snoc ys y)
  then have "space_width_end s = 0"
    using assms by (auto simp: space_width_end_ascii)
  moreover have "space_width s = 0"
    using assms by (cases s) (auto simp: space_width_ascii)
  ultimately show ?thesis
    by (simp add: trim_space_def trim_left_space_id trim_right_space_id)
qed simp

lemma fields_from_no_space:
  assumes "p \<in> set (fields_from k cur s)" and "\<forall>c \<in> set cur. \<not> ascii_space c"
  shows "p \<noteq> [] \<and> (\<forall>c \<in> set p. \<not> ascii_space c)"
  using assms
proof (induction k cur s arbitrary: p rule: fields_from.induct)
  case (3 cur x xs)
  show ?case
  proof (cases "space_width (x # xs)")
    case 0
    then have "\<not> ascii_space x"
      using space_width_ascii [of x xs] ascii_space_is_ascii [of x] by auto
    with 0 "3.IH"(1) "3.prems" show ?thesis by simp
  next
    case (Suc k)
    with "3.IH"(2) "3.prems" show ?thesis by (auto split: if_splits)
  qed
qed (auto split: if_splits)

lemma fields_no_space: "p \<in> set (split_fields s) \<Longrightarrow> p \<noteq> [] \<and> (\<forall>c \<in> set p. \<not> ascii_space c)"
  unfolding split_fields_def by (rule fields_from_no_space) auto

lemma fields_from_subset:
  "p \<in> set (fields_from k cur s) \<Longrightarrow> set p \<subseteq> set cur \<union> set s"
proof (induction k cur s arbitrary: p rule: fields_from.induct)
  case (2 k cur x xs)
  then show ?case by auto
next
  case (3 cur x xs)
  show ?case
  proof (cases "space_width (x # xs)")
    case 0
    with "3.IH"(1) "3.prems" show ?thesis by fastforce
  next
    case (Suc k)
    with "3.IH"(2) "3.prems" show ?thesis by (fastforce split: if_splits)
  qed
qed (auto split: if_splits)

lemma fields_subset: "p \<in> set (split_fields s) \<Longrightarrow> set p \<subseteq> set s"
  using fields_from_subset [of p 0 "[]" s] by (simp add: split_fields_def)

lemma fields_from_word:
  assumes "\<forall>c \<in> set w. is_ascii c \<and> \<not> ascii_space c"
  shows "fields_from 0 cur (w @ s) = fields_from 0 (rev w @ cur) s"
  using assms by (induction w arbitrary: cur) (auto simp: space_width_ascii)

lemma fields_two:
  assumes "\<forall>c \<in> set a. is_ascii c \<and> \<not> ascii_space c" "a \<noteq> []"
    and "\<forall>c \<in> set b. is_ascii c \<and> \<not> ascii_space c" "b \<noteq> []"
  shows "split_fields (a @ CHR '' '' # b) = [a, b]"
proof -
  have sp: "space_width (CHR '' '' # b) = 1"
    by (simp add: space_width_ascii is_ascii_def ascii_space_def byte_def)
  have "fields_from 0 [] b = [b]"
    using fields_from_word [of b "[]" "[]"] assms by simp
  then show ?thesis
    using assms sp by (simp add: split_fields_def fields_from_word)
qed

section \<open>Control characters\<close>

text \<open>\<open>strings.IndexFunc(s, unicode.IsControl) >= 0\<close>.\<close>

fun has_control :: "string \<Rightarrow> bool" where
  "has_control [] = False"
| "has_control [x] = (byte x < 32 \<or> byte x = 127)"
| "has_control (x # y # zs) =
     (byte x < 32 \<or> byte x = 127 \<or> (byte x = 194 \<and> 128 \<le> byte y \<and> byte y < 160)
      \<or> has_control (y # zs))"

section \<open>Decimal numbers\<close>

definition digit_char :: "nat \<Rightarrow> char" where
  "digit_char d = ''0123456789'' ! d"

fun nat_str :: "nat \<Rightarrow> string" where
  "nat_str n = (if n < 10 then [digit_char n] else nat_str (n div 10) @ [digit_char (n mod 10)])"

declare nat_str.simps [simp del]

definition itoa :: "int \<Rightarrow> string" where
  "itoa i = (if i < 0 then CHR ''-'' # nat_str (nat (- i)) else nat_str (nat i))"

section \<open>Trimming one character\<close>

text \<open>\<open>strings.TrimRight(s, "c")\<close> for a one-byte cut set.\<close>

definition trim_right_char :: "char \<Rightarrow> string \<Rightarrow> string" where
  "trim_right_char c s = rev (dropWhile (\<lambda>x. x = c) (rev s))"

lemma trim_right_char_prefix: "prefix (trim_right_char c s) s"
  unfolding trim_right_char_def
  by (metis rev_rev_ident suffix_dropWhile suffix_to_prefix)

lemma trim_right_char_last: "trim_right_char c s \<noteq> [] \<Longrightarrow> last (trim_right_char c s) \<noteq> c"
  unfolding trim_right_char_def
  using hd_dropWhile [of "\<lambda>x. x = c" "rev s"] by (auto simp: last_rev)

lemma digit_char_digit [simp]: "d < 10 \<Longrightarrow> is_digit (digit_char d)"
  unfolding digit_char_def is_digit_def byte_def
  by (auto simp: less_Suc_eq numeral_eq_Suc)

lemma nat_str_digits: "c \<in> set (nat_str n) \<Longrightarrow> is_digit c"
  by (induction n rule: nat_str.induct) (subst (asm) (2) nat_str.simps, auto split: if_splits)

lemma nat_str_nonempty [simp]: "nat_str n \<noteq> []"
  by (subst nat_str.simps) simp

text \<open>The decimal rendering is injective: reading the digits back gives the number.\<close>

definition digit_val :: "char \<Rightarrow> nat" where
  "digit_val c = byte c - 48"

definition read_nat :: "string \<Rightarrow> nat" where
  "read_nat s = foldl (\<lambda>acc c. acc * 10 + digit_val c) 0 s"

lemma digit_val_char [simp]: "d < 10 \<Longrightarrow> digit_val (digit_char d) = d"
  unfolding digit_char_def digit_val_def byte_def
  by (auto simp: less_Suc_eq numeral_eq_Suc)

lemma read_nat_str [simp]: "read_nat (nat_str n) = n"
proof (induction n rule: nat_str.induct)
  case (1 n)
  then show ?case
    by (subst nat_str.simps) (auto simp: read_nat_def)
qed

lemma nat_str_inject [simp]: "nat_str m = nat_str n \<longleftrightarrow> m = n"
  by (metis read_nat_str)

end
