(* ===== verification/GoPath.thy ===== *)
theory GoPath
  imports GoStrings
begin

text \<open>
  Go's \<open>path/filepath\<close> on Unix: \<open>Clean\<close>, \<open>Join\<close>, \<open>Dir\<close>, \<open>Base\<close> and \<open>IsAbs\<close>, with the facts
  the state directory layout rests on.  \<open>Clean\<close> is purely lexical: it works on the elements
  between slashes with a stack, and never looks at the file system.
\<close>

section \<open>Elements\<close>

definition is_abs :: "string \<Rightarrow> bool" where
  "is_abs s \<longleftrightarrow> (case s of [] \<Rightarrow> False | c # _ \<Rightarrow> c = SLASH)"

lemma is_abs_simps [simp]:
  "\<not> is_abs []"
  "is_abs (c # s) \<longleftrightarrow> c = SLASH"
  by (simp_all add: is_abs_def)

text \<open>The non-empty elements of a path, \<open>.\<close> and \<open>..\<close> included.\<close>

definition elems :: "string \<Rightarrow> string list" where
  "elems s = filter (\<lambda>e. e \<noteq> []) (split_on SLASH s)"

definition plain :: "string \<Rightarrow> bool" where
  "plain e \<longleftrightarrow> e \<noteq> [] \<and> e \<noteq> ''.'' \<and> e \<noteq> ''..'' \<and> SLASH \<notin> set e"

text \<open>The stack of kept elements is held in reverse; \<open>r\<close> says whether the path is rooted.\<close>

fun clean_elems :: "bool \<Rightarrow> string list \<Rightarrow> string list \<Rightarrow> string list" where
  "clean_elems r st [] = rev st"
| "clean_elems r st (e # es) =
     (if e = [] \<or> e = ''.'' then clean_elems r st es
      else if e = ''..'' then
        (case st of
           [] \<Rightarrow> clean_elems r (if r then [] else [''..'']) es
         | t # ts \<Rightarrow> if t = ''..'' then clean_elems r (''..'' # st) es else clean_elems r ts es)
      else clean_elems r (e # st) es)"

definition render :: "bool \<Rightarrow> string list \<Rightarrow> string" where
  "render r es = (if r then [SLASH] @ join [SLASH] es
                  else if es = [] then ''.'' else join [SLASH] es)"

definition clean :: "string \<Rightarrow> string" where
  "clean s = (if s = [] then ''.'' else render (is_abs s) (clean_elems (is_abs s) [] (split_on SLASH s)))"

fun path_join :: "string list \<Rightarrow> string" where
  "path_join [] = []"
| "path_join (e # es) = (if e = [] then path_join es else clean (join [SLASH] (e # es)))"

text \<open>\<open>filepath.Dir\<close>: clean of everything up to and including the last slash.\<close>

definition upto_last_slash :: "string \<Rightarrow> string" where
  "upto_last_slash s = rev (dropWhile (\<lambda>c. c \<noteq> SLASH) (rev s))"

definition path_dir :: "string \<Rightarrow> string" where
  "path_dir s = clean (upto_last_slash s)"

definition path_base :: "string \<Rightarrow> string" where
  "path_base s =
     (if s = [] then ''.''
      else let t = trim_right_char SLASH s;
               b = rev (takeWhile (\<lambda>c. c \<noteq> SLASH) (rev t))
           in if b = [] then [SLASH] else b)"

section \<open>Elements of joined and cleaned paths\<close>

lemma elemsD: "e \<in> set (elems s) \<Longrightarrow> e \<noteq> [] \<and> SLASH \<notin> set e"
  by (auto simp: elems_def split_on_parts_no_sep)

lemma elems_Nil [simp]: "elems [] = []"
  by (simp add: elems_def)

lemma elems_slash [simp]: "elems (SLASH # s) = elems s"
  by (simp add: elems_def)

lemma elems_append_slash: "elems (x @ SLASH # s) = elems x @ elems s"
  by (simp add: elems_def split_on_append)

lemma elems_plain: "plain e \<Longrightarrow> elems e = [e]"
  by (simp add: elems_def plain_def split_on_no_sep)

lemma elems_no_slash: "SLASH \<notin> set e \<Longrightarrow> e \<noteq> [] \<Longrightarrow> elems e = [e]"
  by (simp add: elems_def split_on_no_sep)

lemma elems_join:
  "\<forall>e \<in> set es. e \<noteq> [] \<and> SLASH \<notin> set e \<Longrightarrow> elems (join [SLASH] es) = es"
  by (induction "[SLASH]" es rule: join.induct) (auto simp: elems_no_slash elems_append_slash)

lemma clean_elems_drop_empty:
  "clean_elems r st (filter (\<lambda>e. e \<noteq> []) es) = clean_elems r st es"
  by (induction r st es rule: clean_elems.induct) (auto split: list.splits)

lemma clean_eq_elems:
  "s \<noteq> [] \<Longrightarrow> clean s = render (is_abs s) (clean_elems (is_abs s) [] (elems s))"
  by (simp add: clean_def elems_def clean_elems_drop_empty)

lemma clean_elems_plain:
  "\<forall>e \<in> set es. plain e \<Longrightarrow> clean_elems r st es = rev st @ es"
  by (induction es arbitrary: st) (auto simp: plain_def)

lemma clean_elems_keeps:
  assumes "\<forall>e \<in> set st. Q e" "\<forall>e \<in> set es. e \<noteq> [] \<and> e \<noteq> ''.'' \<and> e \<noteq> ''..'' \<longrightarrow> Q e"
    and "r \<or> Q ''..''"
  shows "\<forall>e \<in> set (clean_elems r st es). Q e"
  using assms(1,2)
proof (induction es arbitrary: st)
  case (Cons e es)
  show ?case
  proof (cases "e = ''..''")
    case dots: True
    show ?thesis
    proof (cases st)
      case Nil
      have es: "\<forall>e \<in> set es. e \<noteq> [] \<and> e \<noteq> ''.'' \<and> e \<noteq> ''..'' \<longrightarrow> Q e"
        using Cons.prems(2) by auto
      have "\<forall>e \<in> set (if r then [] else [''..'']). Q e"
        using assms(3) by auto
      from Cons.IH [OF this es] dots Nil show ?thesis by simp
    next
      case st: (Cons t ts)
      show ?thesis
      proof (cases "t = ''..''")
        case True
        with st Cons.prems have "\<forall>x \<in> set (''..'' # st). Q x" by simp
        from Cons.IH [OF this] dots st True Cons.prems(2) show ?thesis by simp
      next
        case False
        with dots st Cons.IH [of ts] Cons.prems show ?thesis by simp
      qed
    qed
  next
    case False
    have es: "\<forall>e \<in> set es. e \<noteq> [] \<and> e \<noteq> ''.'' \<and> e \<noteq> ''..'' \<longrightarrow> Q e"
      using Cons.prems(2) by auto
    show ?thesis
    proof (cases "e = [] \<or> e = ''.''")
      case True
      with Cons.IH [OF Cons.prems(1) es] show ?thesis by simp
    next
      case keep: False
      with False Cons.prems have "\<forall>x \<in> set (e # st). Q x" by auto
      from Cons.IH [OF this es] keep False show ?thesis by simp
    qed
  qed
qed simp

lemma clean_elems_rooted:
  "\<forall>e \<in> set es. SLASH \<notin> set e \<Longrightarrow> \<forall>e \<in> set (clean_elems True [] es). plain e"
  by (rule clean_elems_keeps) (auto simp: plain_def)

lemma elems_render:
  "\<forall>e \<in> set es. plain e \<Longrightarrow> elems (render True es) = es"
  by (simp add: render_def plain_def elems_join)

lemma elems_clean_abs:
  assumes "is_abs s"
  shows "elems (clean s) = clean_elems True [] (elems s)"
proof -
  have "\<forall>e \<in> set (clean_elems True [] (elems s)). plain e"
    by (rule clean_elems_rooted) (auto dest: elemsD)
  with assms show ?thesis
    by (cases s) (auto simp: clean_eq_elems elems_render)
qed

lemma is_abs_clean [simp]: "is_abs (clean s) \<longleftrightarrow> is_abs s"
proof (cases "is_abs s")
  case True
  then show ?thesis by (cases s) (auto simp: clean_def render_def)
next
  case False
  have "\<not> is_abs (join [SLASH] es)" if "\<forall>e \<in> set es. e \<noteq> [] \<and> SLASH \<notin> set e" for es
    using that by (cases es rule: remdups_adj.cases) (auto simp: is_abs_def neq_Nil_conv)
  moreover have "\<forall>e \<in> set (clean_elems False [] (split_on SLASH s)). e \<noteq> [] \<and> SLASH \<notin> set e"
    by (rule clean_elems_keeps) (auto simp: split_on_parts_no_sep)
  ultimately show ?thesis
    using False by (auto simp: clean_def render_def split_on_parts_no_sep)
qed

text \<open>A cleaned absolute path has only plain elements, so cleaning it again changes nothing.\<close>

lemma clean_abs_plain: "is_abs s \<Longrightarrow> e \<in> set (elems (clean s)) \<Longrightarrow> plain e"
  using clean_elems_rooted [of "elems s"] by (auto simp: elems_clean_abs dest: elemsD)

definition canonical :: "string \<Rightarrow> bool" where
  "canonical s \<longleftrightarrow> is_abs s \<and> clean s = s"

lemma canonical_iff:
  "canonical s \<longleftrightarrow> (\<exists>es. (\<forall>e \<in> set es. plain e) \<and> s = render True es)"
proof
  assume "canonical s"
  then have "is_abs s" and c: "clean s = s" by (auto simp: canonical_def)
  then have "s = render True (clean_elems True [] (elems s))"
    by (cases s) (auto simp: clean_eq_elems)
  moreover have "\<forall>e \<in> set (clean_elems True [] (elems s)). plain e"
    by (rule clean_elems_rooted) (auto dest: elemsD)
  ultimately show "\<exists>es. (\<forall>e \<in> set es. plain e) \<and> s = render True es" by blast
next
  assume "\<exists>es. (\<forall>e \<in> set es. plain e) \<and> s = render True es"
  then obtain es where es: "\<forall>e \<in> set es. plain e" "s = render True es" by blast
  then have "is_abs s" "s \<noteq> []" by (auto simp: render_def)
  with es show "canonical s"
    by (auto simp: canonical_def clean_eq_elems elems_render clean_elems_plain)
qed

lemma clean_canonical: "is_abs s \<Longrightarrow> canonical (clean s)"
  unfolding canonical_iff
  using clean_elems_rooted [of "elems s"]
  by (cases s) (auto simp: clean_eq_elems dest: elemsD)

lemma clean_idem: "is_abs s \<Longrightarrow> clean (clean s) = clean s"
  using clean_canonical by (simp add: canonical_def)

lemma canonical_elems: "canonical s \<Longrightarrow> s = render True (elems s) \<and> (\<forall>e \<in> set (elems s). plain e)"
  by (auto simp: canonical_iff elems_render)

lemma canonical_inject: "canonical s \<Longrightarrow> canonical t \<Longrightarrow> elems s = elems t \<longleftrightarrow> s = t"
  using canonical_elems by metis

lemma canonical_nonempty: "canonical s \<Longrightarrow> s \<noteq> []"
  by (auto simp: canonical_def)

text \<open>Joining plain names under a canonical directory appends elements.\<close>

lemma path_join_canonical:
  assumes "canonical d" "\<forall>e \<in> set es. plain e"
  shows "canonical (path_join (d # es)) \<and> elems (path_join (d # es)) = elems d @ es"
proof -
  from assms(1) have d: "d \<noteq> []" "is_abs d" by (auto simp: canonical_def)
  let ?j = "join [SLASH] (d # es)"
  have j: "elems ?j = elems d @ es"
  proof (cases es)
    case (Cons e es')
    then have "?j = d @ SLASH # join [SLASH] es" by simp
    moreover have "elems (join [SLASH] es) = es"
      using assms(2) by (intro elems_join) (auto simp: plain_def)
    ultimately show ?thesis by (simp add: elems_append_slash)
  qed simp
  have a: "is_abs ?j" using d by (cases d; cases es) auto
  have "\<forall>e \<in> set (elems d @ es). plain e"
    using assms canonical_elems by auto
  then have "elems (clean ?j) = elems d @ es"
    using a j by (simp add: elems_clean_abs clean_elems_plain)
  then show ?thesis using d a by (simp add: clean_canonical)
qed

lemmas path_join_canonicalI = path_join_canonical [THEN conjunct1]
lemmas elems_path_join = path_join_canonical [THEN conjunct2]

lemma upto_last_slash_snoc:
  assumes "SLASH \<notin> set e"
  shows "upto_last_slash (s @ SLASH # e) = s @ [SLASH]"
proof -
  have "dropWhile (\<lambda>c. c \<noteq> SLASH) (rev e @ SLASH # rev s) = SLASH # rev s"
    using assms by (subst dropWhile_append2) auto
  then show ?thesis by (simp add: upto_last_slash_def)
qed

lemma render_snoc:
  "es \<noteq> [] \<Longrightarrow> render True (es @ [e]) = render True es @ SLASH # e"
  by (simp add: render_def join_append)

lemma path_dir_canonical:
  assumes "canonical s" "elems s = es @ [e]"
  shows "path_dir s = render True es \<and> canonical (path_dir s) \<and> elems (path_dir s) = es"
proof -
  from assms have p: "\<forall>x \<in> set (es @ [e]). plain x" and s: "s = render True (es @ [e])"
    using canonical_elems by metis+
  have "s = join [SLASH] ([] # es) @ SLASH # e"
    using s join_append [of es "[e]" "[SLASH]"] by (cases es) (auto simp: render_def)
  with p have u: "upto_last_slash s = join [SLASH] ([] # es) @ [SLASH]"
    by (metis in_set_conv_decomp plain_def upto_last_slash_snoc)
  let ?u = "join [SLASH] ([] # es) @ [SLASH]"
  have "elems ?u = es"
  proof (cases es)
    case (Cons a l)
    have "elems (join [SLASH] es) = es" using p by (intro elems_join) (auto simp: plain_def)
    with Cons show ?thesis using elems_append_slash [of "join [SLASH] ([] # es)" "[]"] by simp
  qed simp
  moreover have "is_abs ?u" "?u \<noteq> []" by (cases es; simp)+
  ultimately have "path_dir s = render True es"
    using u p by (simp add: path_dir_def clean_eq_elems clean_elems_plain)
  moreover have "canonical (render True es)" "elems (render True es) = es"
    using p by (auto simp: canonical_iff elems_render)
  ultimately show ?thesis by simp
qed

declare path_join.simps [simp del]

end
