(* ===== verification/OS.thy ===== *)
theory OS
  imports GoPath "HOL-Library.List_Lexorder" "HOL-Library.Char_ord"
begin

unbundle bit_operations_syntax

text \<open>
  The operating system as the program sees it through Go's package \<open>os\<close>: a tree of nodes, path
  resolution through symbolic links, the system calls, and external programs.

  \<^item> A \<open>world\<close> holds the file system, the working directory and the environment.  It also holds two
    scripts that stand for what the program cannot control: \<open>faults\<close> gives the failure, if any,
    that each successive system call meets, and \<open>names\<close> gives the random numbers that temporary
    names are made of.  A theorem for every world is a theorem for every failure and every choice.
  \<^item> \<open>hist\<close> lists the file systems that existed after each change, newest first: they are the
    states in which a crash can leave the disk.
  \<^item> An operation is a function from a world to a result and the next world; \<open>seq\<close> is Go's
    \<open>if err != nil { return err }\<close>, \<open>deferring\<close> is a deferred call whose result is dropped.

  Not modelled: ownership and permission checks (any call may fail with any \<open>errno\<close> through the
  fault script instead), the umask, hard links, and other processes changing the tree.
\<close>

section \<open>Errors\<close>

datatype errno = ENOENT | ENOTDIR | EISDIR | EEXIST | ELOOP | EACCES | EIO | ENOSPC | EINVAL | ENOTEMPTY

text \<open>
  \<open>Errorf fmt args wrapped\<close> is \<open>fmt.Errorf\<close> or \<open>errors.New\<close> with its format, the string arguments
  and the error wrapped by \<open>%w\<close>, if there is one.
\<close>

datatype goerr =
    Errno errno
  | ErrNoRuntime
  | ErrNoRuntimeDescriptor
  | ErrContext
  | ExitError string
  | Errorf string "string list" "goerr option"

fun errors_is :: "goerr \<Rightarrow> goerr \<Rightarrow> bool" where
  "errors_is (Errorf f args None) t \<longleftrightarrow> Errorf f args None = t"
| "errors_is (Errorf f args (Some e)) t \<longleftrightarrow> Errorf f args (Some e) = t \<or> errors_is e t"
| "errors_is e t \<longleftrightarrow> e = t"

definition errorf :: "string \<Rightarrow> string list \<Rightarrow> goerr" where
  "errorf f args = Errorf f args None"

definition wrapf :: "string \<Rightarrow> string list \<Rightarrow> goerr \<Rightarrow> goerr" where
  "wrapf f args e = Errorf f args (Some e)"

lemma errors_is_refl [simp]: "errors_is e e"
proof (cases e)
  case (Errorf f args w)
  then show ?thesis by (cases w) auto
qed auto

section \<open>File systems\<close>

text \<open>Permission bits are written in octal in the source; these are the ones it uses.\<close>

abbreviation o755 :: nat where "o755 \<equiv> 493"
abbreviation o777 :: nat where "o777 \<equiv> 511"
abbreviation o700 :: nat where "o700 \<equiv> 448"
abbreviation o644 :: nat where "o644 \<equiv> 420"
abbreviation o600 :: nat where "o600 \<equiv> 384"
abbreviation o111 :: nat where "o111 \<equiv> 73"
abbreviation o077 :: nat where "o077 \<equiv> 63"

type_synonym path = "string list"

datatype node = Reg nat string | Dir nat | Lnk string | Special nat

type_synonym fsys = "(path \<times> node) list"

definition nd :: "fsys \<Rightarrow> path \<Rightarrow> node option" where
  "nd f p = (if p = [] then Some (Dir o755) else map_of f p)"

definition fs_del :: "path \<Rightarrow> fsys \<Rightarrow> fsys" where
  "fs_del p f = filter (\<lambda>(q, _). q \<noteq> p) f"

definition fs_upd :: "path \<Rightarrow> node \<Rightarrow> fsys \<Rightarrow> fsys" where
  "fs_upd p n f = (p, n) # fs_del p f"

definition fs_prune :: "path \<Rightarrow> fsys \<Rightarrow> fsys" where
  "fs_prune p f = filter (\<lambda>(q, _). \<not> prefix p q) f"

text \<open>The names in a directory; a listing never has the empty name, \<open>.\<close> or \<open>..\<close>.\<close>

definition children :: "fsys \<Rightarrow> path \<Rightarrow> string list" where
  "children f d =
     sort (remdups (filter plain (map (last \<circ> fst) (filter (\<lambda>(q, _). q \<noteq> [] \<and> butlast q = d) f))))"

text \<open>
  Path resolution from directory \<open>cur\<close> with a budget of \<open>n\<close> symbolic links; \<open>fl\<close> says whether a
  link in last position is followed.  The result is a location, whether or not a node is there.
\<close>

function resolve :: "fsys \<Rightarrow> bool \<Rightarrow> nat \<Rightarrow> path \<Rightarrow> string list \<Rightarrow> errno + path" where
  "resolve f fl n cur [] = Inr cur"
| "resolve f fl n cur (c # cs) =
     (if c = ''.'' then resolve f fl n cur cs
      else if c = ''..'' then resolve f fl n (butlast cur) cs
      else case nd f (cur @ [c]) of
          None \<Rightarrow> if cs = [] then Inr (cur @ [c]) else Inl ENOENT
        | Some (Dir _) \<Rightarrow> resolve f fl n (cur @ [c]) cs
        | Some (Lnk t) \<Rightarrow>
            if cs = [] \<and> \<not> fl then Inr (cur @ [c])
            else (case n of
                0 \<Rightarrow> Inl ELOOP
              | Suc m \<Rightarrow> if t = [] then Inl ENOENT
                         else resolve f fl m (if is_abs t then [] else cur) (elems t @ cs))
        | Some _ \<Rightarrow> if cs = [] then Inr (cur @ [c]) else Inl ENOTDIR)"
  by pat_completeness auto
termination
  by (relation "measures [\<lambda>(f, fl, n, cur, cs). n, \<lambda>(f, fl, n, cur, cs). length cs]") auto

definition max_links :: nat where
  "max_links = 40"

definition locate :: "fsys \<Rightarrow> path \<Rightarrow> bool \<Rightarrow> string \<Rightarrow> errno + path" where
  "locate f wd fl p =
     (if p = [] then Inl ENOENT
      else resolve f fl max_links (if is_abs p then [] else wd) (elems p))"

section \<open>Worlds and operations\<close>

record world =
  fs :: fsys
  cwd :: path
  environ :: "string list"
  faults :: "errno option list"
  names :: "nat list"
  hist :: "fsys list"

type_synonym 'a io = "world \<Rightarrow> (goerr + 'a) \<times> world"

definition ret :: "'a \<Rightarrow> 'a io" where
  "ret x = (\<lambda>w. (Inr x, w))"

definition fail :: "goerr \<Rightarrow> 'a io" where
  "fail e = (\<lambda>w. (Inl e, w))"

definition lift :: "goerr + 'a \<Rightarrow> 'a io" where
  "lift r = (\<lambda>w. (r, w))"

definition seq :: "'a io \<Rightarrow> ('a \<Rightarrow> 'b io) \<Rightarrow> 'b io" where
  "seq m f = (\<lambda>w. case m w of (Inl e, w') \<Rightarrow> (Inl e, w') | (Inr x, w') \<Rightarrow> f x w')"

definition attempt :: "'a io \<Rightarrow> (goerr + 'a) io" where
  "attempt m = (\<lambda>w. case m w of (r, w') \<Rightarrow> (Inr r, w'))"

definition deferring :: "'a io \<Rightarrow> 'b io \<Rightarrow> 'a io" where
  "deferring m d = (\<lambda>w. case m w of (r, w') \<Rightarrow> (r, snd (d w')))"

definition wrap :: "(goerr \<Rightarrow> goerr) \<Rightarrow> 'a io \<Rightarrow> 'a io" where
  "wrap g m = (\<lambda>w. case m w of (r, w') \<Rightarrow> (map_err g r, w'))"

definition only_if :: "bool \<Rightarrow> unit io \<Rightarrow> unit io" where
  "only_if b m = (if b then m else ret ())"

text \<open>
  A system call that only looks, and one that may change the tree.  The script cannot make a call
  fail with \<open>ENOENT\<close>: that error is reported for what is not there, and only for that.
\<close>

definition tick :: "world \<Rightarrow> world" where
  "tick w = w\<lparr>faults := tl (faults w)\<rparr>"

definition fault :: "world \<Rightarrow> errno option" where
  "fault w = (case faults w of [] \<Rightarrow> None | e # _ \<Rightarrow> if e = Some ENOENT then None else e)"

definition query :: "(world \<Rightarrow> errno + 'a) \<Rightarrow> 'a io" where
  "query f = (\<lambda>w. case fault w of
       Some e \<Rightarrow> (Inl (Errno e), tick w)
     | None \<Rightarrow> (map_err Errno (f (tick w)), tick w))"

definition mutate :: "(world \<Rightarrow> errno + 'a \<times> fsys) \<Rightarrow> 'a io" where
  "mutate f = (\<lambda>w. case fault w of
       Some e \<Rightarrow> (Inl (Errno e), tick w)
     | None \<Rightarrow> (case f (tick w) of
           Inl e \<Rightarrow> (Inl (Errno e), tick w)
         | Inr (x, g) \<Rightarrow> (Inr x, (tick w)\<lparr>fs := g, hist := g # hist w\<rparr>)))"

section \<open>Queries\<close>

datatype kind = KReg | KDir | KLnk | KOther

record finfo =
  fkind :: kind
  fperm :: nat
  fsize :: nat

fun info_of :: "node \<Rightarrow> finfo" where
  "info_of (Reg m s) = \<lparr>fkind = KReg, fperm = m, fsize = length s\<rparr>"
| "info_of (Dir m) = \<lparr>fkind = KDir, fperm = m, fsize = 0\<rparr>"
| "info_of (Lnk t) = \<lparr>fkind = KLnk, fperm = o777, fsize = length t\<rparr>"
| "info_of (Special m) = \<lparr>fkind = KOther, fperm = m, fsize = 0\<rparr>"

definition node_at :: "bool \<Rightarrow> string \<Rightarrow> world \<Rightarrow> errno + node" where
  "node_at fl p w =
     bind_ok (locate (fs w) (cwd w) fl p)
       (\<lambda>q. case nd (fs w) q of None \<Rightarrow> Inl ENOENT | Some n \<Rightarrow> Inr n)"

definition os_lstat :: "string \<Rightarrow> finfo io" where
  "os_lstat p = query (\<lambda>w. bind_ok (node_at False p w) (\<lambda>n. Inr (info_of n)))"

definition os_stat :: "string \<Rightarrow> finfo io" where
  "os_stat p = query (\<lambda>w. bind_ok (node_at True p w) (\<lambda>n. Inr (info_of n)))"

definition os_readlink :: "string \<Rightarrow> string io" where
  "os_readlink p = query (\<lambda>w. bind_ok (node_at False p w)
     (\<lambda>n. case n of Lnk t \<Rightarrow> Inr t | _ \<Rightarrow> Inl EINVAL))"

definition os_readfile :: "string \<Rightarrow> string io" where
  "os_readfile p = query (\<lambda>w. bind_ok (node_at True p w)
     (\<lambda>n. case n of Reg _ s \<Rightarrow> Inr s | Dir _ \<Rightarrow> Inl EISDIR | _ \<Rightarrow> Inl EINVAL))"

text \<open>\<open>os.Open\<close> followed by \<open>Close\<close>, with nothing read.\<close>

definition os_open :: "string \<Rightarrow> unit io" where
  "os_open p = query (\<lambda>w. bind_ok (node_at True p w) (\<lambda>_. Inr ()))"

definition os_readdir :: "string \<Rightarrow> string list io" where
  "os_readdir p = query (\<lambda>w. bind_ok (locate (fs w) (cwd w) True p)
     (\<lambda>q. case nd (fs w) q of
        None \<Rightarrow> Inl ENOENT | Some (Dir _) \<Rightarrow> Inr (children (fs w) q) | Some _ \<Rightarrow> Inl ENOTDIR))"

text \<open>Calls on an open file that leave the tree alone but may fail.\<close>

definition os_sync :: "unit io" where
  "os_sync = query (\<lambda>_. Inr ())"

definition os_close :: "unit io" where
  "os_close = query (\<lambda>_. Inr ())"

section \<open>Changes\<close>

definition at_path :: "bool \<Rightarrow> string \<Rightarrow> (path \<Rightarrow> node option \<Rightarrow> errno + 'a \<times> fsys) \<Rightarrow> world \<Rightarrow> errno + 'a \<times> fsys" where
  "at_path fl p k w = bind_ok (locate (fs w) (cwd w) fl p) (\<lambda>q. k q (nd (fs w) q))"

definition os_chmod :: "string \<Rightarrow> nat \<Rightarrow> unit io" where
  "os_chmod p m = mutate (\<lambda>w. at_path True p (\<lambda>q n. case n of
       None \<Rightarrow> Inl ENOENT
     | Some (Reg _ s) \<Rightarrow> Inr ((), fs_upd q (Reg m s) (fs w))
     | Some (Dir _) \<Rightarrow> Inr ((), fs_upd q (Dir m) (fs w))
     | Some (Special _) \<Rightarrow> Inr ((), fs_upd q (Special m) (fs w))
     | Some (Lnk _) \<Rightarrow> Inl ELOOP) w)"

text \<open>\<open>f.Write\<close> on a file opened empty: the whole data follows what is there.\<close>

definition os_write :: "string \<Rightarrow> string \<Rightarrow> unit io" where
  "os_write p s = mutate (\<lambda>w. at_path True p (\<lambda>q n. case n of
       None \<Rightarrow> Inl ENOENT
     | Some (Reg m t) \<Rightarrow> Inr ((), fs_upd q (Reg m (t @ s)) (fs w))
     | Some _ \<Rightarrow> Inl EINVAL) w)"

definition os_symlink :: "string \<Rightarrow> string \<Rightarrow> unit io" where
  "os_symlink t p = mutate (\<lambda>w. at_path False p (\<lambda>q n. case n of
       None \<Rightarrow> if t = [] then Inl ENOENT else Inr ((), fs_upd q (Lnk t) (fs w))
     | Some _ \<Rightarrow> Inl EEXIST) w)"

text \<open>\<open>rename(2)\<close> of anything but a directory, which is all the program renames.\<close>

definition os_rename :: "string \<Rightarrow> string \<Rightarrow> unit io" where
  "os_rename a b = mutate (\<lambda>w. at_path False a (\<lambda>q n. case n of
       None \<Rightarrow> Inl ENOENT
     | Some (Dir _) \<Rightarrow> Inl EINVAL
     | Some x \<Rightarrow> at_path False b (\<lambda>r m. case m of
           Some (Dir _) \<Rightarrow> Inl EISDIR
         | _ \<Rightarrow> Inr ((), fs_upd r x (fs_del q (fs w)))) w) w)"

definition os_remove :: "string \<Rightarrow> unit io" where
  "os_remove p = mutate (\<lambda>w. at_path False p (\<lambda>q n. case n of
       None \<Rightarrow> Inl ENOENT
     | Some (Dir _) \<Rightarrow>
         if list_ex (\<lambda>(r, _). strict_prefix q r) (fs w) then Inl ENOTEMPTY else Inr ((), fs_del q (fs w))
     | Some _ \<Rightarrow> Inr ((), fs_del q (fs w))) w)"

definition os_remove_all :: "string \<Rightarrow> unit io" where
  "os_remove_all p = mutate (\<lambda>w. case locate (fs w) (cwd w) False p of
       Inl ENOENT \<Rightarrow> Inr ((), fs w)
     | Inl e \<Rightarrow> Inl e
     | Inr q \<Rightarrow> Inr ((), fs_prune q (fs w)))"

text \<open>
  \<open>os.MkdirAll\<close>: each directory on the way is made when it is missing, and anything that is there
  must be a directory.  A dangling link is in the way like any other node.
\<close>

definition mkdir_step :: "nat \<Rightarrow> path \<Rightarrow> string list \<Rightarrow> unit io" where
  "mkdir_step m start es = mutate (\<lambda>w.
     bind_ok (resolve (fs w) False max_links start es) (\<lambda>q0.
     bind_ok (resolve (fs w) True max_links start es) (\<lambda>q.
       case nd (fs w) q of
         Some (Dir _) \<Rightarrow> Inr ((), fs w)
       | Some _ \<Rightarrow> Inl ENOTDIR
       | None \<Rightarrow> if q0 = q then Inr ((), fs_upd q (Dir m) (fs w)) else Inl EEXIST)))"

fun mkdir_steps :: "nat \<Rightarrow> path \<Rightarrow> string list \<Rightarrow> string list \<Rightarrow> unit io" where
  "mkdir_steps m start made [] = ret ()"
| "mkdir_steps m start made (e # es) =
     seq (mkdir_step m start (made @ [e])) (\<lambda>_. mkdir_steps m start (made @ [e]) es)"

definition os_mkdir_all :: "string \<Rightarrow> nat \<Rightarrow> unit io" where
  "os_mkdir_all p m = (\<lambda>w. mkdir_steps m (if is_abs p then [] else cwd w) [] (elems p) w)"

text \<open>
  \<open>os.CreateTemp\<close> and \<open>os.MkdirTemp\<close> with a pattern \<open>pre*\<close>: random names are tried until one is
  free.  Go gives up after 10000 tries; here the script of names is as long as it is.
\<close>

fun free_name :: "fsys \<Rightarrow> path \<Rightarrow> string \<Rightarrow> nat list \<Rightarrow> (string \<times> nat list) option" where
  "free_name f d pre [] = None"
| "free_name f d pre (k # ks) =
     (if nd f (d @ [pre @ nat_str k]) = None then Some (pre @ nat_str k, ks)
      else free_name f d pre ks)"

definition in_dir :: "string \<Rightarrow> string \<Rightarrow> string" where
  "in_dir d c = (if suffix [SLASH] d then d @ c else d @ SLASH # c)"

definition make_temp :: "node \<Rightarrow> string \<Rightarrow> string \<Rightarrow> string io" where
  "make_temp n d pre = (\<lambda>w.
     case mutate (\<lambda>w. bind_ok (locate (fs w) (cwd w) True d) (\<lambda>q.
            case nd (fs w) q of
              Some (Dir _) \<Rightarrow>
                (case free_name (fs w) q pre (names w) of
                   None \<Rightarrow> Inl EEXIST
                 | Some (c, ks) \<Rightarrow> Inr ((c, ks), fs_upd (q @ [c]) n (fs w)))
            | Some _ \<Rightarrow> Inl ENOTDIR
            | None \<Rightarrow> Inl ENOENT)) w of
       (Inl e, w') \<Rightarrow> (Inl e, w')
     | (Inr (c, ks), w') \<Rightarrow> (Inr (in_dir d c), w'\<lparr>names := ks\<rparr>))"

definition os_create_temp :: "string \<Rightarrow> string \<Rightarrow> string io" where
  "os_create_temp = make_temp (Reg o600 [])"

definition os_mkdir_temp :: "string \<Rightarrow> string \<Rightarrow> string io" where
  "os_mkdir_temp = make_temp (Dir o700)"

section \<open>External programs\<close>

text \<open>
  A command is an executable, its argument vector and, when the program sets one, its environment.
  What a command prints, how it ends and what it does to the file system is a parameter of type
  \<open>prog\<close>; it may depend on the whole world, so that running it twice need not give the same.
\<close>

record cmd =
  exe :: string
  argv :: "string list"
  cmd_env :: "string list option"

type_synonym prog = "cmd \<Rightarrow> world \<Rightarrow> (string \<times> goerr option) \<times> fsys"

definition exec :: "prog \<Rightarrow> cmd \<Rightarrow> (string \<times> goerr option) io" where
  "exec ex c = (\<lambda>w. case ex c w of (r, g) \<Rightarrow> (Inr r, w\<lparr>fs := g, hist := g # hist w\<rparr>))"

definition getenv :: "string list \<Rightarrow> string \<Rightarrow> string" where
  "getenv es k = (case find (\<lambda>e. prefix (k @ ''='') e) es of
     None \<Rightarrow> [] | Some e \<Rightarrow> drop (length k + 1) e)"

end
