(* ===== verification/OSFacts.thy ===== *)
theory OSFacts
  imports OS
begin

text \<open>
  How operations act on the part of the tree that is not temporary.

  \<^item> \<open>vis f\<close> is the file system without the nodes below a name that starts with \<open>.tmp-\<close> or
    with \<open>familiar-fleet-smoke-token-\<close>, the names of the program's temporary files and directories.  Working on a temporary is
    invisible, and so an atomic replacement is one visible change.
  \<^item> \<open>wp m Q E w\<close> says that \<open>m\<close> run in \<open>w\<close> ends in \<open>Q\<close> with its result or in \<open>E\<close> with its error;
    the collection \<open>wp\<close> holds a rule for each combinator and each system call.
  \<^item> \<open>step_ok P w w'\<close> says that every file system that existed between \<open>w\<close> and \<open>w'\<close> satisfies \<open>P\<close>:
    a statement about every point at which a crash can happen.
\<close>

named_theorems wp \<open>weakest-precondition rules\<close>

section \<open>The visible file system\<close>

definition temp_name :: "string \<Rightarrow> bool" where
  "temp_name c \<longleftrightarrow> prefix ''.tmp-'' c \<or> prefix ''familiar-fleet-smoke-token-'' c"

definition hidden :: "path \<Rightarrow> bool" where
  "hidden p = list_ex temp_name p"

lemma temp_name_append [simp]: "temp_name c \<Longrightarrow> temp_name (c @ s)"
  by (auto simp: temp_name_def prefix_def)

lemma temp_name_consts [simp]:
  "temp_name ''.tmp-''" "temp_name ''.tmp-applied-''" "temp_name ''.tmp-link-''"
  "temp_name ''familiar-fleet-smoke-token-''"
  "\<not> temp_name ''current''" "\<not> temp_name ''previous''" "\<not> temp_name ''applied.json''" "\<not> temp_name ''gcroots''"
  by (simp_all add: temp_name_def)

lemma temp_name_length: "temp_name c \<Longrightarrow> length c > 1"
  by (auto simp: temp_name_def prefix_def)

type_synonym view = "path \<Rightarrow> node option"

definition vis :: "fsys \<Rightarrow> view" where
  "vis f = (\<lambda>p. if hidden p then None else nd f p)"

definition real_dir :: "view \<Rightarrow> path \<Rightarrow> bool" where
  "real_dir v d \<longleftrightarrow> (\<forall>q. prefix q d \<longrightarrow> (\<exists>m. v q = Some (Dir m)))"

lemma hidden_simps [simp]:
  "\<not> hidden []"
  "hidden (p @ q) \<longleftrightarrow> hidden p \<or> hidden q"
  "hidden (c # p) \<longleftrightarrow> temp_name c \<or> hidden p"
  by (auto simp: hidden_def)

lemma nd_Nil [simp]: "nd f [] = Some (Dir o755)"
  by (simp add: nd_def)

lemma nd_upd [simp]: "p \<noteq> [] \<Longrightarrow> nd (fs_upd p n f) = (nd f)(p \<mapsto> n)"
  by (auto simp: nd_def fs_upd_def fs_del_def fun_eq_iff)

lemma nd_del [simp]: "p \<noteq> [] \<Longrightarrow> nd (fs_del p f) = (nd f)(p := None)"
  by (auto simp: nd_def fs_del_def fun_eq_iff)

lemma map_of_filter_fst: "map_of (filter (\<lambda>(q, _). P q) f) q = (if P q then map_of f q else None)"
  by (induction f) auto

lemma nd_prune: "p \<noteq> [] \<Longrightarrow> nd (fs_prune p f) q = (if prefix p q then None else nd f q)"
  unfolding nd_def fs_prune_def
  by (cases "q = []") (auto simp: map_of_filter_fst [of "\<lambda>q. \<not> prefix p q"])

lemma vis_visible: "\<not> hidden p \<Longrightarrow> vis f p = nd f p"
  by (simp add: vis_def)

lemma vis_Some: "vis f p = Some n \<Longrightarrow> nd f p = Some n \<and> \<not> hidden p"
  by (auto simp: vis_def split: if_splits)

lemma vis_upd_hidden [simp]: "hidden p \<Longrightarrow> vis (fs_upd p n f) = vis f"
  by (cases "p = []") (auto simp: vis_def fun_eq_iff)

lemma vis_del_hidden [simp]: "hidden p \<Longrightarrow> vis (fs_del p f) = vis f"
  by (cases "p = []") (auto simp: vis_def fun_eq_iff)

lemma hidden_prefix: "prefix p q \<Longrightarrow> hidden p \<Longrightarrow> hidden q"
  by (auto simp: prefix_def)

lemma vis_prune_hidden [simp]: "hidden p \<Longrightarrow> vis (fs_prune p f) = vis f"
  by (cases "p = []") (auto simp: vis_def fun_eq_iff nd_prune dest: hidden_prefix)

lemma vis_upd [simp]: "p \<noteq> [] \<Longrightarrow> \<not> hidden p \<Longrightarrow> vis (fs_upd p n f) = (vis f)(p \<mapsto> n)"
  by (auto simp: vis_def fun_eq_iff)

lemma vis_del [simp]: "p \<noteq> [] \<Longrightarrow> \<not> hidden p \<Longrightarrow> vis (fs_del p f) = (vis f)(p := None)"
  by (auto simp: vis_def fun_eq_iff)

text \<open>An executable form, for concrete trees.\<close>

lemma real_dir_code [code]:
  "real_dir v d = list_all (\<lambda>q. case v q of Some (Dir _) \<Rightarrow> True | _ \<Rightarrow> False) (prefixes d)"
proof -
  have "(case v q of Some (Dir _) \<Rightarrow> True | _ \<Rightarrow> False) \<longleftrightarrow> (\<exists>m. v q = Some (Dir m))" for q
    by (simp split: option.split node.split)
  then show ?thesis by (simp add: real_dir_def list_all_iff set_prefixes_eq)
qed

lemma real_dir_prefix: "real_dir v d \<Longrightarrow> prefix q d \<Longrightarrow> real_dir v q"
  by (auto simp: real_dir_def intro: prefix_order.trans)

lemma real_dir_visible: "real_dir (vis f) d \<Longrightarrow> \<not> hidden d"
  unfolding real_dir_def using vis_Some by blast

lemma real_dir_nd: "real_dir (vis f) d \<Longrightarrow> real_dir (nd f) d"
  unfolding real_dir_def using vis_Some by blast

lemma real_dir_snoc: "real_dir v (d @ [c]) \<longleftrightarrow> real_dir v d \<and> (\<exists>m. v (d @ [c]) = Some (Dir m))"
  by (auto simp: real_dir_def prefix_snoc)

lemma real_dir_upd:
  "real_dir v d \<Longrightarrow> \<not> prefix p d \<Longrightarrow> real_dir (v(p := x)) d"
  by (auto simp: real_dir_def)

section \<open>Resolution through real directories\<close>

lemma resolve_real:
  assumes "\<forall>q. prefix q d \<longrightarrow> (\<exists>m. nd f (cur @ q) = Some (Dir m))" and "\<forall>e \<in> set d. plain e"
  shows "resolve f fl n cur (d @ es) = resolve f fl n (cur @ d) es"
  using assms
proof (induction d arbitrary: cur)
  case (Cons c d)
  from Cons.prems(1) have "\<exists>m. nd f (cur @ [c]) = Some (Dir m)" by (auto dest: spec [of _ "[c]"])
  then obtain m where "nd f (cur @ [c]) = Some (Dir m)" by blast
  moreover have "\<forall>q. prefix q d \<longrightarrow> (\<exists>m. nd f ((cur @ [c]) @ q) = Some (Dir m))"
  proof (intro allI impI)
    fix q
    assume "prefix q d"
    then have "prefix (c # q) (c # d)" by simp
    with Cons.prems(1) have "\<exists>m. nd f (cur @ c # q) = Some (Dir m)" by blast
    then show "\<exists>m. nd f ((cur @ [c]) @ q) = Some (Dir m)" by simp
  qed
  ultimately show ?case
    using Cons.IH [of "cur @ [c]"] Cons.prems(2) by (auto simp: plain_def)
qed simp

lemma locate_real_dir:
  assumes "canonical d" "real_dir (nd f) (elems d)"
  shows "locate f wd fl d = Inr (elems d)"
proof -
  from assms(1) have "is_abs d" "d \<noteq> []" by (auto simp: canonical_def)
  with assms show ?thesis
    using resolve_real [of "elems d" f "[]" fl max_links "[]"] canonical_elems [of d]
    by (simp add: locate_def real_dir_def)
qed

lemma locate_entry:
  assumes "canonical p" "elems p = d @ [c]" "real_dir (nd f) d"
    and "fl \<longrightarrow> (\<forall>t. nd f (d @ [c]) \<noteq> Some (Lnk t))"
  shows "locate f wd fl p = Inr (d @ [c])"
proof -
  from assms(1) have "is_abs p" "p \<noteq> []" by (auto simp: canonical_def)
  moreover have pl: "\<forall>e \<in> set (d @ [c]). plain e"
    using assms(1,2) canonical_elems by metis
  moreover have "resolve f fl max_links [] (d @ [c]) = resolve f fl max_links d [c]"
    using resolve_real [of d f "[]" fl max_links "[c]"] assms(3) pl by (simp add: real_dir_def)
  moreover have "resolve f fl max_links d [c] = Inr (d @ [c])"
    using assms(4) pl by (auto simp: plain_def split: option.splits node.splits)
  ultimately show ?thesis
    using assms(2) by (simp add: locate_def)
qed

section \<open>Canonical paths of temporaries\<close>

lemma in_dir_canonical:
  assumes "canonical d" "plain c"
  shows "canonical (in_dir d c) \<and> elems (in_dir d c) = elems d @ [c]"
proof (cases "elems d = []")
  case True
  then have "d = [SLASH]" using canonical_elems [OF assms(1)] by (simp add: render_def)
  then have "in_dir d c = render True [c]" by (simp add: in_dir_def render_def)
  with True assms(2) show ?thesis
    unfolding canonical_iff by (metis append_Nil elems_render empty_iff empty_set set_ConsD)
next
  case False
  then obtain es e where es: "elems d = es @ [e]" by (metis append_butlast_last_id)
  have pl: "\<forall>x \<in> set (elems d). plain x" and d: "d = render True (elems d)"
    using canonical_elems [OF assms(1)] by auto
  have "d = join [SLASH] ([] # es) @ SLASH # e"
    using d es join_append [of es "[e]" "[SLASH]"] by (cases es) (auto simp: render_def)
  moreover have "e \<noteq> []" "SLASH \<notin> set e" using pl es by (auto simp: plain_def)
  ultimately have "\<not> suffix [SLASH] d"
    by (cases e rule: rev_cases) (auto simp: suffix_def)
  then have "in_dir d c = render True (elems d @ [c])"
    using d False by (simp add: in_dir_def render_snoc)
  moreover have "\<forall>x \<in> set (elems d @ [c]). plain x" using pl assms(2) by auto
  ultimately show ?thesis
    unfolding canonical_iff by (metis elems_render)
qed

lemma plain_temp_name:
  assumes "SLASH \<notin> set pre" "length pre > 1"
  shows "plain (pre @ nat_str k)"
proof -
  have "SLASH \<notin> set (nat_str k)"
    using nat_str_digits [of SLASH k] by (auto simp: is_digit_def byte_def)
  moreover have len: "length (pre @ nat_str k) > 2"
    using assms(2) nat_str_nonempty [of k] by (cases "nat_str k") auto
  have "s \<noteq> t" if "length s > 2" "length t \<le> 2" for s t :: string
    using that by auto
  from this [OF len] have "pre @ nat_str k \<noteq> []" "pre @ nat_str k \<noteq> ''.''" "pre @ nat_str k \<noteq> ''..''"
    by simp_all
  ultimately show ?thesis using assms(1) by (simp add: plain_def)
qed

lemma free_name_Some:
  "free_name f d pre ks = Some (c, ks') \<Longrightarrow> \<exists>k. c = pre @ nat_str k \<and> nd f (d @ [c]) = None"
  by (induction ks) (auto split: if_splits)

section \<open>Weakest preconditions\<close>

definition wp :: "'a io \<Rightarrow> ('a \<Rightarrow> world \<Rightarrow> bool) \<Rightarrow> (goerr \<Rightarrow> world \<Rightarrow> bool) \<Rightarrow> world \<Rightarrow> bool" where
  "wp m Q E w = (case m w of (Inl e, w') \<Rightarrow> E e w' | (Inr x, w') \<Rightarrow> Q x w')"

lemma wp_ret [simp]: "wp (ret x) Q E = Q x"
  by (simp add: wp_def ret_def fun_eq_iff)

lemma wp_fail [simp]: "wp (fail e) Q E = E e"
  by (simp add: wp_def fail_def fun_eq_iff)

lemma wp_lift [simp]: "wp (lift r) Q E w = (case r of Inl e \<Rightarrow> E e w | Inr x \<Rightarrow> Q x w)"
  by (simp add: wp_def lift_def split: sum.splits)

lemma wp_seq [simp]: "wp (seq m f) Q E = wp m (\<lambda>x. wp (f x) Q E) E"
  by (auto simp: wp_def seq_def fun_eq_iff split: prod.splits sum.splits)

lemma wp_attempt [simp]: "wp (attempt m) Q E = wp m (\<lambda>x. Q (Inr x)) (\<lambda>e. Q (Inl e))"
  by (auto simp: wp_def attempt_def fun_eq_iff split: prod.splits sum.splits)

lemma wp_deferring [simp]:
  "wp (deferring m d) Q E =
     wp m (\<lambda>x. wp d (\<lambda>_. Q x) (\<lambda>_. Q x)) (\<lambda>e. wp d (\<lambda>_. E e) (\<lambda>_. E e))"
  by (auto simp: wp_def deferring_def fun_eq_iff split: prod.splits sum.splits)

lemma wp_wrap [simp]: "wp (wrap g m) Q E = wp m Q (\<lambda>e. E (g e))"
  by (auto simp: wp_def wrap_def fun_eq_iff split: prod.splits sum.splits)

lemma wp_only_if [simp]: "wp (only_if b m) Q E w = (if b then wp m Q E w else Q () w)"
  by (simp add: only_if_def)

lemma wp_if [simp]: "wp (if b then m else m') Q E w = (if b then wp m Q E w else wp m' Q E w)"
  by simp

lemma wp_if_split:
  "wp m (\<lambda>x. wp (if b x then f x else g x) Q E) E w
     = wp m (\<lambda>x w'. (b x \<longrightarrow> wp (f x) Q E w') \<and> (\<not> b x \<longrightarrow> wp (g x) Q E w')) E w"
  by (auto simp: wp_def split: prod.splits sum.splits)

lemma wp_mono:
  "wp m Q E w \<Longrightarrow> (\<And>x w'. Q x w' \<Longrightarrow> Q' x w') \<Longrightarrow> (\<And>e w'. E e w' \<Longrightarrow> E' e w') \<Longrightarrow> wp m Q' E' w"
  by (auto simp: wp_def split: prod.splits sum.splits)

lemma wp_conj: "wp m Q E w \<Longrightarrow> wp m Q' E' w \<Longrightarrow> wp m (\<lambda>x w. Q x w \<and> Q' x w) (\<lambda>e w. E e w \<and> E' e w) w"
  by (auto simp: wp_def split: prod.splits sum.splits)

lemma wp_run:
  "wp m Q E w \<Longrightarrow> m w = (r, w') \<Longrightarrow> (case r of Inl e \<Rightarrow> E e w' | Inr x \<Rightarrow> Q x w')"
  by (auto simp: wp_def split: sum.splits)

lemma wpI: "(\<And>r w'. m w = (r, w') \<Longrightarrow> case r of Inl e \<Rightarrow> E e w' | Inr x \<Rightarrow> Q x w') \<Longrightarrow> wp m Q E w"
  by (auto simp: wp_def split: prod.splits sum.splits)

section \<open>What every system call does to the rest of the world\<close>

definition step_ok :: "(fsys \<Rightarrow> bool) \<Rightarrow> world \<Rightarrow> world \<Rightarrow> bool" where
  "step_ok P w w' \<longleftrightarrow> cwd w' = cwd w \<and> environ w' = environ w
     \<and> (\<exists>hs. hist w' = hs @ hist w \<and> (\<forall>f \<in> set hs. P f))"

lemma step_ok_refl [simp, intro]: "step_ok P w w"
  by (simp add: step_ok_def)

lemma step_ok_trans: "step_ok P u v \<Longrightarrow> step_ok P v w \<Longrightarrow> step_ok P u w"
  by (fastforce simp: step_ok_def)

lemma step_ok_mono: "step_ok P u v \<Longrightarrow> (\<And>f. P f \<Longrightarrow> Q f) \<Longrightarrow> step_ok Q u v"
  by (fastforce simp: step_ok_def)

lemma step_ok_hist: "step_ok P u v \<Longrightarrow> f \<in> set (hist u) \<Longrightarrow> f \<in> set (hist v)"
  by (auto simp: step_ok_def)

text \<open>The world after a call that changed nothing, and after one that installed \<open>g\<close>.\<close>

definition same :: "world \<Rightarrow> world \<Rightarrow> bool" where
  "same w w' \<longleftrightarrow> fs w' = fs w \<and> hist w' = hist w \<and> cwd w' = cwd w \<and> environ w' = environ w"

definition moved :: "fsys \<Rightarrow> world \<Rightarrow> world \<Rightarrow> bool" where
  "moved g w w' \<longleftrightarrow> fs w' = g \<and> hist w' = g # hist w \<and> cwd w' = cwd w \<and> environ w' = environ w"

lemma same_refl [simp, intro]: "same w w"
  by (simp add: same_def)

lemma same_trans: "same u v \<Longrightarrow> same v w \<Longrightarrow> same u w"
  by (simp add: same_def)

lemma same_step_ok: "same w w' \<Longrightarrow> step_ok P w w'"
  by (simp add: same_def step_ok_def)

lemma moved_step_ok: "moved g w w' \<Longrightarrow> P g \<Longrightarrow> step_ok P w w'"
  by (simp add: moved_def step_ok_def)

lemma same_fs: "same w w' \<Longrightarrow> fs w' = fs w"
  by (simp add: same_def)

lemma same_node_at: "same w w' \<Longrightarrow> node_at fl p w' = node_at fl p w"
  by (simp add: same_def node_at_def)

lemma same_tick: "same w (tick w)"
  by (simp add: same_def tick_def)

lemma calm_query: "faults w = [] \<Longrightarrow> query f w = (map_err Errno (f w), w)"
  by (cases w) (simp add: query_def fault_def tick_def)

text \<open>What \<open>lstat\<close> sees and is no link, \<open>stat\<close> sees too.\<close>

lemma resolve_no_link:
  "resolve f False n cur cs = Inr q \<Longrightarrow> \<forall>t. nd f q \<noteq> Some (Lnk t) \<Longrightarrow> resolve f True n cur cs = Inr q"
proof (induction f "False" n cur cs rule: resolve.induct)
  case (2 f n cur c cs)
  show ?case
  proof (cases "c = ''.'' \<or> c = ''..''")
    case True
    with 2 show ?thesis by auto
  next
    case False
    then show ?thesis
    proof (cases "\<exists>t m. nd f (cur @ [c]) = Some (Lnk t) \<and> cs \<noteq> [] \<and> n = Suc m \<and> t \<noteq> []")
      case True
      then obtain t m where t: "nd f (cur @ [c]) = Some (Lnk t)" "cs \<noteq> []" "n = Suc m" "t \<noteq> []" by blast
      have "resolve f False m (if is_abs t then [] else cur) (elems t @ cs) = Inr q"
        using "2.prems"(1) False t by simp
      then have "resolve f True m (if is_abs t then [] else cur) (elems t @ cs) = Inr q"
        using "2.hyps"(4) [OF _ _ t(1) refl _ t(3,4)] "2.prems"(2) False t(2) by blast
      then show ?thesis using False t by simp
    next
      case no: False
      with 2 False show ?thesis
        by (cases "nd f (cur @ [c])"; cases "the (nd f (cur @ [c]))"; cases n) (auto split: if_splits)
    qed
  qed
qed simp

lemma node_at_no_link: "node_at False p w = Inr n \<Longrightarrow> \<forall>t. n \<noteq> Lnk t \<Longrightarrow> node_at True p w = Inr n"
  using resolve_no_link [of "fs w" max_links "if is_abs p then [] else cwd w" "elems p"]
  by (auto simp: node_at_def locate_def split: if_splits option.splits)

lemma wp_query [wp]:
  assumes "\<And>e w'. same w w' \<Longrightarrow> e \<noteq> ENOENT \<or> f w' = Inl e \<Longrightarrow> E (Errno e) w'"
    and "\<And>x w'. same w w' \<Longrightarrow> f w' = Inr x \<Longrightarrow> Q x w'"
  shows "wp (query f) Q E w"
proof (cases "fault w")
  case None
  then show ?thesis
    using assms same_tick [of w] by (auto simp: wp_def query_def split: sum.split)
next
  case (Some e)
  then have "e \<noteq> ENOENT" by (auto simp: fault_def split: list.splits if_splits)
  with Some show ?thesis
    using assms(1) [OF same_tick] by (auto simp: wp_def query_def)
qed

lemma wp_mutate [wp]:
  assumes "\<And>e w'. same w w' \<Longrightarrow> E (Errno e) w'"
    and "\<And>x g u w'. same w u \<Longrightarrow> f u = Inr (x, g) \<Longrightarrow> moved g w w' \<Longrightarrow> Q x w'"
  shows "wp (mutate f) Q E w"
proof -
  have m: "moved g w ((tick w)\<lparr>fs := g, hist := g # hist w\<rparr>)" for g
    by (simp add: moved_def tick_def)
  show ?thesis
    using assms(1) [OF same_tick] assms(2) [OF same_tick _ m]
    by (auto simp: wp_def mutate_def split: option.split sum.split)
qed

lemma wp_lstat [wp]:
  assumes "\<And>e w'. same w w' \<Longrightarrow> e \<noteq> ENOENT \<or> node_at False p w = Inl e \<Longrightarrow> E (Errno e) w'"
    and "\<And>n w'. same w w' \<Longrightarrow> node_at False p w = Inr n \<Longrightarrow> Q (info_of n) w'"
  shows "wp (os_lstat p) Q E w"
  unfolding os_lstat_def using assms
  by (intro wp_query) (auto simp: same_node_at bind_ok_def split: sum.splits)

lemma wp_stat [wp]:
  assumes "\<And>e w'. same w w' \<Longrightarrow> E (Errno e) w'"
    and "\<And>n w'. same w w' \<Longrightarrow> node_at True p w = Inr n \<Longrightarrow> Q (info_of n) w'"
  shows "wp (os_stat p) Q E w"
  unfolding os_stat_def using assms by (intro wp_query) (auto simp: same_node_at)

lemma info_kind_reg: "fkind (info_of n) = KReg \<longleftrightarrow> (\<exists>m s. n = Reg m s)"
  by (cases n) auto

lemma node_case_eq [simp]:
  "(case n of Lnk t \<Rightarrow> Inr t | _ \<Rightarrow> Inl EINVAL) = Inr s \<longleftrightarrow> n = Lnk s"
  "(case n of Reg _ t \<Rightarrow> Inr t | Dir _ \<Rightarrow> Inl EISDIR | _ \<Rightarrow> Inl EINVAL) = Inr s \<longleftrightarrow> (\<exists>m. n = Reg m s)"
  by (cases n; auto)+

lemma wp_readlink [wp]:
  assumes "\<And>e w'. same w w' \<Longrightarrow> e \<noteq> ENOENT \<or> node_at False p w = Inl e \<Longrightarrow> E (Errno e) w'"
    and "\<And>t w'. same w w' \<Longrightarrow> node_at False p w = Inr (Lnk t) \<Longrightarrow> Q t w'"
  shows "wp (os_readlink p) Q E w"
  unfolding os_readlink_def using assms
  by (intro wp_query) (auto simp: same_node_at bind_ok_def split: sum.splits node.splits)

lemma wp_readfile [wp]:
  assumes "\<And>e w'. same w w' \<Longrightarrow> E (Errno e) w'"
    and "\<And>m s w'. same w w' \<Longrightarrow> node_at True p w = Inr (Reg m s) \<Longrightarrow> Q s w'"
  shows "wp (os_readfile p) Q E w"
  unfolding os_readfile_def using assms
  by (intro wp_query) (auto simp: same_node_at)

section \<open>Invariants of operations\<close>

text \<open>
  \<open>stays I m\<close>: an operation that starts in \<open>I\<close> ends in \<open>I\<close>, however it ends.  It holds of a
  composition when it holds of the parts, so it is proved by the rules alone.
\<close>

named_theorems stays \<open>invariants of operations\<close>

definition stays :: "(world \<Rightarrow> bool) \<Rightarrow> 'a io \<Rightarrow> bool" where
  "stays I m \<longleftrightarrow> (\<forall>w. I w \<longrightarrow> wp m (\<lambda>_. I) (\<lambda>_. I) w)"

definition look_closed :: "(world \<Rightarrow> bool) \<Rightarrow> bool" where
  "look_closed I \<longleftrightarrow> (\<forall>w w'. I w \<longrightarrow> same w w' \<longrightarrow> I w')"

lemma staysI: "(\<And>w. I w \<Longrightarrow> wp m (\<lambda>_. I) (\<lambda>_. I) w) \<Longrightarrow> stays I m"
  by (simp add: stays_def)

lemma staysD: "stays I m \<Longrightarrow> I w \<Longrightarrow> wp m (\<lambda>_. I) (\<lambda>_. I) w"
  by (simp add: stays_def)

lemma stays_seq [stays]: "stays I m \<Longrightarrow> (\<And>x. stays I (f x)) \<Longrightarrow> stays I (seq m f)"
  unfolding stays_def wp_seq by (blast intro: wp_mono)

lemma stays_attempt [stays]: "stays I m \<Longrightarrow> stays I (attempt m)"
  by (simp add: stays_def)

lemma stays_deferring [stays]: "stays I m \<Longrightarrow> stays I d \<Longrightarrow> stays I (deferring m d)"
  unfolding stays_def wp_deferring by (blast intro: wp_mono)

lemma stays_wrap [stays]: "stays I m \<Longrightarrow> stays I (wrap g m)"
  by (simp add: stays_def)

lemma stays_only_if [stays]: "stays I m \<Longrightarrow> stays I (only_if b m)"
  by (simp add: stays_def)

lemma stays_ret [stays]: "stays I (ret x)" "stays I (fail e)" "stays I (lift r)"
  by (auto simp: stays_def split: sum.split)

lemma stays_cases [stays]:
  "(b \<Longrightarrow> stays I m) \<Longrightarrow> (\<not> b \<Longrightarrow> stays I m') \<Longrightarrow> stays I (if b then m else m')"
  "(\<And>e. stays I (f e)) \<Longrightarrow> (\<And>x. stays I (g x)) \<Longrightarrow> stays I (case r of Inl e \<Rightarrow> f e | Inr x \<Rightarrow> g x)"
  "stays I n \<Longrightarrow> (\<And>y. stays I (h y)) \<Longrightarrow> stays I (case z of None \<Rightarrow> n | Some y \<Rightarrow> h y)"
  "(\<And>a b. stays I (k a b)) \<Longrightarrow> stays I (case q of (a, b) \<Rightarrow> k a b)"
  "stays I n \<Longrightarrow> (\<And>c cs. stays I (l c cs)) \<Longrightarrow> stays I (case xs of [] \<Rightarrow> n | c # cs \<Rightarrow> l c cs)"
  by (auto split: sum.split option.split prod.split list.split)

lemma stays_Let [stays]: "(\<And>y. y = x \<Longrightarrow> stays I (f y)) \<Longrightarrow> stays I (let y = x in f y)"
  by simp

lemma stays_query [stays]: "look_closed I \<Longrightarrow> stays I (query f)"
  unfolding stays_def look_closed_def by (auto intro: wp_query)

lemma stays_reads [stays]:
  assumes "look_closed I"
  shows "stays I (os_lstat p)" "stays I (os_stat p)" "stays I (os_readlink p)" "stays I (os_readfile p)"
    "stays I (os_open p)" "stays I (os_readdir p)" "stays I os_sync" "stays I os_close"
  unfolding os_lstat_def os_stat_def os_readlink_def os_readfile_def os_open_def os_readdir_def
    os_sync_def os_close_def
  using assms by (rule stays_query)+

end
