(* ===== verification/Atomic.thy ===== *)
theory Atomic
  imports OSFacts
begin

text \<open>
  Atomic replacement of one node, the way the program does it everywhere: work on a temporary in the
  same directory, then \<open>rename(2)\<close>.

  \<^item> the temporaries: each call on a temporary is \<open>quietly\<close>, that is invisible at every crash point;
  \<^item> the contract \<open>atomic_update\<close>: success is exactly one visible change, an error is no visible
    change, and a crash leaves the old state or the new one;
  \<^item> \<open>atomicWrite\<close> of \<open>internal/client/state.go\<close>, which provides the contract for regular files.
    \<open>replaceSymlink\<close> and \<open>RecordApplied\<close> of the runtime store provide it for links and for the
    provenance record, in their own theory.
\<close>

section \<open>Calls on temporaries\<close>

definition quietly :: "world \<Rightarrow> world \<Rightarrow> bool" where
  "quietly w w' \<longleftrightarrow> vis (fs w') = vis (fs w) \<and> step_ok (\<lambda>f. vis f = vis (fs w)) w w'"

lemma quietly_refl [simp, intro]: "quietly w w"
  by (simp add: quietly_def)

lemma quietly_trans: "quietly u v \<Longrightarrow> quietly v w \<Longrightarrow> quietly u w"
  unfolding quietly_def by (auto intro: step_ok_trans)

lemma quietly_vis: "quietly w w' \<Longrightarrow> vis (fs w') = vis (fs w)"
  by (simp add: quietly_def)

lemma same_quietly: "same w w' \<Longrightarrow> quietly w w'"
  by (simp add: quietly_def same_step_ok same_fs)

lemma quietly_same: "quietly u v \<Longrightarrow> same v w \<Longrightarrow> quietly u w"
  by (blast intro: quietly_trans same_quietly)

lemma moved_quietly: "moved g w w' \<Longrightarrow> vis g = vis (fs w) \<Longrightarrow> quietly w w'"
  by (simp add: quietly_def moved_step_ok moved_def)

lemma quietly_steps: "quietly w w' \<Longrightarrow> (\<And>f. vis f = vis (fs w) \<Longrightarrow> P f) \<Longrightarrow> step_ok P w w'"
  unfolding quietly_def by (blast intro: step_ok_mono)

definition entry :: "world \<Rightarrow> string \<Rightarrow> path \<Rightarrow> string \<Rightarrow> bool" where
  "entry w p d c \<longleftrightarrow> canonical p \<and> elems p = d @ [c] \<and> real_dir (nd (fs w)) d"

lemma entry_elems: "entry w p d c \<Longrightarrow> elems p = d @ [c] \<and> canonical p"
  by (simp add: entry_def)

lemma entry_locate: "entry w p d c \<Longrightarrow> locate (fs w) wd False p = Inr (d @ [c])"
  unfolding entry_def by (rule locate_entry) auto

lemma entry_locate_follow:
  "entry w p d c \<Longrightarrow> \<forall>t. nd (fs w) (d @ [c]) \<noteq> Some (Lnk t) \<Longrightarrow> locate (fs w) wd True p = Inr (d @ [c])"
  unfolding entry_def by (rule locate_entry) auto

lemma entry_same: "same w w' \<Longrightarrow> entry w' p d c = entry w p d c"
  by (simp add: entry_def same_def)

lemma entryI:
  "canonical p \<Longrightarrow> elems p = d @ [c] \<Longrightarrow> real_dir (vis (fs w)) d \<Longrightarrow> entry w p d c"
  by (simp add: entry_def real_dir_nd)

lemma entry_node_at:
  "entry w p d c \<Longrightarrow> node_at False p w = (case nd (fs w) (d @ [c]) of None \<Rightarrow> Inl ENOENT | Some n \<Rightarrow> Inr n)"
  by (simp add: node_at_def entry_locate split: option.split)

lemma wp_make_temp:
  assumes d: "canonical d" "real_dir (vis (fs w)) (elems d)"
    and pre: "temp_name pre" "SLASH \<notin> set pre"
  shows "wp (make_temp n d pre)
    (\<lambda>t w'. quietly w w' \<and> nd (fs w') (elems t) = Some n
       \<and> (\<exists>c. canonical t \<and> elems t = elems d @ [c] \<and> temp_name c))
    (\<lambda>_ w'. quietly w w') w"
proof -
  let ?D = "elems d"
  let ?f = "\<lambda>w. bind_ok (locate (fs w) (cwd w) True d) (\<lambda>q.
      case nd (fs w) q of
        Some (Dir _) \<Rightarrow> (case free_name (fs w) q pre (names w) of
            None \<Rightarrow> Inl EEXIST
          | Some (c, ks) \<Rightarrow> Inr ((c, ks), fs_upd (q @ [c]) n (fs w)))
      | Some _ \<Rightarrow> Inl ENOTDIR
      | None \<Rightarrow> Inl ENOENT)"
  have made: "\<exists>k. c = pre @ nat_str k \<and> g = fs_upd (?D @ [c]) n (fs w)"
    if "same w u" "?f u = Inr ((c, ks), g)" for u c ks g
  proof -
    have "locate (fs u) (cwd u) True d = Inr ?D"
      using that(1) d by (simp add: locate_real_dir real_dir_nd same_fs)
    with that show ?thesis
      by (auto simp: same_fs split: option.splits node.splits dest!: free_name_Some)
  qed
  have tmp: "plain c \<and> temp_name c" if "c = pre @ nat_str k" for c k
    using that pre plain_temp_name [of pre k] temp_name_length by auto
  have "wp (mutate ?f)
      (\<lambda>x w'. \<exists>k. fst x = pre @ nat_str k \<and> quietly w w' \<and> nd (fs w') (?D @ [fst x]) = Some n)
      (\<lambda>_ w'. quietly w w') w"
  proof (rule wp_mutate)
    fix x g u w'
    assume a: "same w u" "?f u = Inr (x, g)" "moved g w w'"
    obtain c ks where x: "x = (c, ks)" by (cases x)
    with made a obtain k where k: "c = pre @ nat_str k" "g = fs_upd (?D @ [c]) n (fs w)" by blast
    then have "vis g = vis (fs w)" using tmp [OF k(1)] by simp
    with a(3) have "quietly w w'" by (rule moved_quietly)
    moreover have "nd (fs w') (?D @ [c]) = Some n" using a(3) k by (simp add: moved_def)
    ultimately show "\<exists>k. fst x = pre @ nat_str k \<and> quietly w w' \<and> nd (fs w') (?D @ [fst x]) = Some n"
      using x k by auto
  qed (rule same_quietly)
  moreover have "quietly w (w'\<lparr>names := ks\<rparr>)" if "quietly w w'" for w' ks
    using that by (simp add: quietly_def step_ok_def)
  ultimately show ?thesis
    using tmp in_dir_canonical [OF d(1)]
    by (fastforce simp: wp_def make_temp_def split: prod.splits sum.splits)
qed

lemma wp_symlink_hidden:
  assumes "entry w p d c" "hidden (d @ [c])"
  shows "wp (os_symlink t p) (\<lambda>_ w'. quietly w w' \<and> nd (fs w') = (nd (fs w))(elems p \<mapsto> Lnk t))
    (\<lambda>_ w'. quietly w w') w"
  unfolding os_symlink_def
proof (rule wp_mutate)
  fix x g u w'
  assume a: "same w u" "moved g w w'"
    and "at_path False p (\<lambda>q n. case n of None \<Rightarrow> if t = [] then Inl ENOENT else Inr ((), fs_upd q (Lnk t) (fs u))
      | Some _ \<Rightarrow> Inl EEXIST) u = Inr (x, g)"
  then have "g = fs_upd (d @ [c]) (Lnk t) (fs w)"
    using assms(1) by (auto simp: at_path_def entry_locate entry_same same_fs split: option.splits if_splits)
  with assms a show "quietly w w' \<and> nd (fs w') = (nd (fs w))(elems p \<mapsto> Lnk t)"
    by (auto simp: entry_elems moved_def intro!: moved_quietly [OF a(2)])
qed (rule same_quietly)

lemma wp_chmod_hidden:
  assumes "entry w p d c" "hidden (d @ [c])" "nd (fs w) (d @ [c]) = Some (Reg m s)"
  shows "wp (os_chmod p m') (\<lambda>_ w'. quietly w w' \<and> nd (fs w') (d @ [c]) = Some (Reg m' s))
    (\<lambda>_ w'. quietly w w') w"
  unfolding os_chmod_def
proof (rule wp_mutate)
  fix x g u w'
  assume a: "same w u" "moved g w w'"
    and "at_path True p (\<lambda>q n. case n of
       None \<Rightarrow> Inl ENOENT
     | Some (Reg _ s) \<Rightarrow> Inr ((), fs_upd q (Reg m' s) (fs u))
     | Some (Dir _) \<Rightarrow> Inr ((), fs_upd q (Dir m') (fs u))
     | Some (Special _) \<Rightarrow> Inr ((), fs_upd q (Special m') (fs u))
     | Some (Lnk _) \<Rightarrow> Inl ELOOP) u = Inr (x, g)"
  then have "g = fs_upd (d @ [c]) (Reg m' s) (fs w)"
    using assms(1,3) by (auto simp: at_path_def entry_locate_follow entry_same same_fs)
  with assms a show "quietly w w' \<and> nd (fs w') (d @ [c]) = Some (Reg m' s)"
    by (auto simp: moved_def intro!: moved_quietly [OF a(2)])
qed (rule same_quietly)

lemma wp_write_hidden:
  assumes "entry w p d c" "hidden (d @ [c])" "nd (fs w) (d @ [c]) = Some (Reg m s)"
  shows "wp (os_write p t) (\<lambda>_ w'. quietly w w' \<and> nd (fs w') (d @ [c]) = Some (Reg m (s @ t)))
    (\<lambda>_ w'. quietly w w') w"
  unfolding os_write_def
proof (rule wp_mutate)
  fix x g u w'
  assume a: "same w u" "moved g w w'"
    and "at_path True p (\<lambda>q n. case n of
       None \<Rightarrow> Inl ENOENT
     | Some (Reg m s) \<Rightarrow> Inr ((), fs_upd q (Reg m (s @ t)) (fs u))
     | Some _ \<Rightarrow> Inl EINVAL) u = Inr (x, g)"
  then have "g = fs_upd (d @ [c]) (Reg m (s @ t)) (fs w)"
    using assms(1,3) by (auto simp: at_path_def entry_locate_follow entry_same same_fs)
  with assms a show "quietly w w' \<and> nd (fs w') (d @ [c]) = Some (Reg m (s @ t))"
    by (auto simp: moved_def intro!: moved_quietly [OF a(2)])
qed (rule same_quietly)

lemma wp_remove_hidden:
  assumes "entry w p d c" "hidden (d @ [c])"
  shows "wp (os_remove p) (\<lambda>_ w'. quietly w w') (\<lambda>_ w'. quietly w w') w"
  unfolding os_remove_def
proof (rule wp_mutate)
  fix x g u w'
  assume a: "same w u" "moved g w w'"
    and "at_path False p (\<lambda>q n. case n of
       None \<Rightarrow> Inl ENOENT
     | Some (Dir _) \<Rightarrow> if list_ex (\<lambda>(r, _). strict_prefix q r) (fs u) then Inl ENOTEMPTY
         else Inr ((), fs_del q (fs u))
     | Some _ \<Rightarrow> Inr ((), fs_del q (fs u))) u = Inr (x, g)"
  then have "g = fs_del (d @ [c]) (fs w)"
    using assms(1)
    by (auto simp: at_path_def entry_locate entry_same same_fs split: option.splits node.splits if_splits)
  with assms show "quietly w w'" by (intro moved_quietly [OF a(2)]) simp
qed (rule same_quietly)

lemma wp_remove_all_hidden:
  assumes "entry w p d c" "hidden (d @ [c])"
  shows "wp (os_remove_all p) (\<lambda>_ w'. quietly w w') (\<lambda>_ w'. quietly w w') w"
  unfolding os_remove_all_def
proof (rule wp_mutate)
  fix x g u w'
  assume a: "same w u" "moved g w w'"
    and "(case locate (fs u) (cwd u) False p of Inl ENOENT \<Rightarrow> Inr ((), fs u) | Inl e \<Rightarrow> Inl e
      | Inr q \<Rightarrow> Inr ((), fs_prune q (fs u))) = Inr (x, g)"
  then have "g = fs_prune (d @ [c]) (fs w)"
    using assms(1) entry_locate [of u p d c "cwd u"] by (simp add: entry_same same_fs)
  with assms show "quietly w w'" by (intro moved_quietly [OF a(2)]) simp
qed (rule same_quietly)

text \<open>The commit point: a temporary that is not a directory takes the visible name.\<close>

lemma wp_rename_commit:
  assumes src: "entry w a da ca" "hidden (da @ [ca])" "nd (fs w) (da @ [ca]) = Some x" "\<forall>m. x \<noteq> Dir m"
    and dst: "entry w b db cb" "\<not> hidden (db @ [cb])"
  shows "wp (os_rename a b)
    (\<lambda>_ w'. vis (fs w') = (vis (fs w))(db @ [cb] \<mapsto> x)
       \<and> step_ok (\<lambda>f. vis f = (vis (fs w))(db @ [cb] \<mapsto> x)) w w'
       \<and> (\<exists>f \<in> set (hist w'). vis f = (vis (fs w))(db @ [cb] \<mapsto> x)))
    (\<lambda>_ w'. quietly w w') w"
  unfolding os_rename_def
proof (rule wp_mutate)
  fix y g u w'
  assume a: "same w u" "moved g w w'"
    and "at_path False a (\<lambda>q n. case n of
       None \<Rightarrow> Inl ENOENT
     | Some (Dir _) \<Rightarrow> Inl EINVAL
     | Some x \<Rightarrow> at_path False b (\<lambda>r m. case m of
           Some (Dir _) \<Rightarrow> Inl EISDIR
         | _ \<Rightarrow> Inr ((), fs_upd r x (fs_del q (fs u)))) u) u = Inr (y, g)"
  then have "g = fs_upd (db @ [cb]) x (fs_del (da @ [ca]) (fs w))"
    using src dst(1)
    by (auto simp: at_path_def entry_locate entry_same same_fs split: option.splits node.splits)
  with src(2) dst(2) have "vis g = (vis (fs w))(db @ [cb] \<mapsto> x)" by simp
  with a(2) show "vis (fs w') = (vis (fs w))(db @ [cb] \<mapsto> x)
      \<and> step_ok (\<lambda>f. vis f = (vis (fs w))(db @ [cb] \<mapsto> x)) w w'
      \<and> (\<exists>f \<in> set (hist w'). vis f = (vis (fs w))(db @ [cb] \<mapsto> x))"
    by (auto simp: moved_def intro!: moved_step_ok [OF a(2)])
qed (rule same_quietly)

section \<open>The contract of an atomic replacement\<close>

text \<open>
  \<open>op a\<close> replaces the node at \<open>dest a\<close> by \<open>val a\<close>, given that \<open>ready a\<close> holds of the visible tree.
\<close>

definition commits :: "view \<Rightarrow> path \<Rightarrow> node \<Rightarrow> world \<Rightarrow> world \<Rightarrow> bool" where
  "commits v p n w w' \<longleftrightarrow> vis (fs w') = v(p \<mapsto> n)
     \<and> step_ok (\<lambda>f. vis f = v \<or> vis f = v(p \<mapsto> n)) w w'
     \<and> (\<exists>f \<in> set (hist w'). vis f = v(p \<mapsto> n))"

lemma commits_quietly: "commits v p n w w' \<Longrightarrow> quietly w' w'' \<Longrightarrow> commits v p n w w''"
  by (auto simp: commits_def quietly_def intro: step_ok_trans step_ok_mono dest: step_ok_hist)

lemma quietly_commits: "quietly w w' \<Longrightarrow> commits (vis (fs w')) p n w' w'' \<Longrightarrow> commits (vis (fs w)) p n w w''"
  by (auto simp: commits_def quietly_def intro: step_ok_trans step_ok_mono)

locale atomic_update =
  fixes op :: "'a \<Rightarrow> unit io"
    and dest :: "'a \<Rightarrow> path"
    and val :: "'a \<Rightarrow> node"
    and ready :: "'a \<Rightarrow> view \<Rightarrow> bool"
  assumes law: "ready a (vis (fs w)) \<Longrightarrow>
    wp (op a) (\<lambda>_. commits (vis (fs w)) (dest a) (val a) w) (\<lambda>_. quietly w) w"
begin

lemma success:
  assumes "ready a (vis (fs w))" "op a w = (Inr u, w')"
  shows "vis (fs w') = (vis (fs w))(dest a \<mapsto> val a)"
  using wp_run [OF law [OF assms(1)] assms(2)] by (simp add: commits_def)

lemma failure:
  assumes "ready a (vis (fs w))" "op a w = (Inl e, w')"
  shows "vis (fs w') = vis (fs w)"
  using wp_run [OF law [OF assms(1)] assms(2)] by (simp add: quietly_def)

lemma crash:
  assumes "ready a (vis (fs w))" "op a w = (r, w')"
  shows "step_ok (\<lambda>f. vis f = vis (fs w) \<or> vis f = (vis (fs w))(dest a \<mapsto> val a)) w w'"
proof (cases r)
  case (Inl e)
  with wp_run [OF law [OF assms(1)] assms(2)] show ?thesis
    by (auto intro: quietly_steps)
next
  case (Inr u)
  with wp_run [OF law [OF assms(1)] assms(2)] show ?thesis
    by (simp add: commits_def)
qed

lemma frame:
  assumes "ready a (vis (fs w))" "op a w = (r, w')" "p \<noteq> dest a"
  shows "vis (fs w') p = vis (fs w) p"
proof (cases r)
  case (Inl e)
  with failure [of a w e w'] assms(1,2) show ?thesis by simp
next
  case (Inr u)
  with success [of a w u w'] assms show ?thesis by simp
qed

text \<open>
  Two replacements in a row, the second under the first one's result: the states a crash can leave
  are the old one, the one after the first, and the one after both, in this order.
\<close>

lemma in_sequence:
  assumes "ready a (vis (fs w))" "ready b ((vis (fs w))(dest a \<mapsto> val a))"
  defines "v1 \<equiv> (vis (fs w))(dest a \<mapsto> val a)"
  shows "wp (seq (wrap g (op a)) (\<lambda>_. wrap h (op b)))
    (\<lambda>_ w'. vis (fs w') = v1(dest b \<mapsto> val b)
       \<and> step_ok (\<lambda>f. vis f \<in> {vis (fs w), v1, v1(dest b \<mapsto> val b)}) w w'
       \<and> (\<exists>f \<in> set (hist w'). vis f = v1))
    (\<lambda>_ w'. vis (fs w') \<in> {vis (fs w), v1}
       \<and> step_ok (\<lambda>f. vis f \<in> {vis (fs w), v1}) w w') w"
proof -
  have "wp (op b)
      (\<lambda>_ w'. vis (fs w') = v1(dest b \<mapsto> val b)
         \<and> step_ok (\<lambda>f. vis f \<in> {vis (fs w), v1, v1(dest b \<mapsto> val b)}) w w'
         \<and> (\<exists>f \<in> set (hist w'). vis f = v1))
      (\<lambda>_ w'. vis (fs w') \<in> {vis (fs w), v1} \<and> step_ok (\<lambda>f. vis f \<in> {vis (fs w), v1}) w w') w1"
    if "commits (vis (fs w)) (dest a) (val a) w w1" for w1
  proof -
    from that have v: "vis (fs w1) = v1" and s: "step_ok (\<lambda>f. vis f = vis (fs w) \<or> vis f = v1) w w1"
      and h: "\<exists>f \<in> set (hist w1). vis f = v1"
      by (auto simp: commits_def v1_def)
    have "ready b (vis (fs w1))" using assms(2) v by (simp add: v1_def)
    from law [OF this] show ?thesis
    proof (rule wp_mono)
      fix u w'
      assume "commits (vis (fs w1)) (dest b) (val b) w1 w'"
      with v s h show "vis (fs w') = v1(dest b \<mapsto> val b)
          \<and> step_ok (\<lambda>f. vis f \<in> {vis (fs w), v1, v1(dest b \<mapsto> val b)}) w w'
          \<and> (\<exists>f \<in> set (hist w'). vis f = v1)"
        by (auto simp: commits_def intro: step_ok_trans step_ok_mono step_ok_hist)
    next
      fix e w'
      assume "quietly w1 w'"
      with v s show "vis (fs w') \<in> {vis (fs w), v1} \<and> step_ok (\<lambda>f. vis f \<in> {vis (fs w), v1}) w w'"
        by (auto simp: quietly_def intro: step_ok_trans step_ok_mono)
    qed
  qed
  note second = this
  show ?thesis
    unfolding wp_seq wp_wrap
  proof (rule wp_mono [OF law [OF assms(1)]])
    fix e w'
    assume "quietly w w'"
    then show "vis (fs w') \<in> {vis (fs w), v1} \<and> step_ok (\<lambda>f. vis f \<in> {vis (fs w), v1}) w w'"
      by (auto simp: quietly_def elim: step_ok_mono)
  qed (rule second)
qed

end

section \<open>Installing a regular file\<close>

text \<open>
  The body that \<open>atomicWrite\<close> and \<open>Store.RecordApplied\<close> share: create a temporary, set its mode,
  write, sync, close, rename; the deferred removal of the temporary finds nothing after a success.
  The first of the errors of \<open>Chmod\<close>, \<open>Write\<close>, \<open>Sync\<close> and \<open>Close\<close> is the one returned.
\<close>

definition install_file :: "string \<Rightarrow> string \<Rightarrow> string \<Rightarrow> string \<Rightarrow> nat \<Rightarrow> unit io" where
  "install_file dir pre path data mode =
     seq (os_create_temp dir pre) (\<lambda>name.
     deferring
       (seq (attempt (seq (os_chmod name mode) (\<lambda>_. seq (os_write name data) (\<lambda>_. os_sync)))) (\<lambda>err.
        seq (attempt os_close) (\<lambda>close_err.
        seq (lift (case err of Inl e \<Rightarrow> Inl e | Inr _ \<Rightarrow> close_err)) (\<lambda>_.
        os_rename name path))))
       (os_remove name))"

definition atomic_write :: "string \<Rightarrow> string \<Rightarrow> nat \<Rightarrow> unit io" where
  "atomic_write path data mode = install_file (path_dir path) ''.tmp-'' path data mode"

definition file_ready :: "string \<Rightarrow> view \<Rightarrow> bool" where
  "file_ready path v \<longleftrightarrow> canonical path \<and> elems path \<noteq> []
     \<and> \<not> temp_name (last (elems path)) \<and> real_dir v (butlast (elems path))"

lemma file_ready_entry:
  assumes "file_ready path v"
  obtains d c where "elems path = d @ [c]" "canonical path" "real_dir v d" "\<not> temp_name c"
    "canonical (path_dir path)" "elems (path_dir path) = d"
proof -
  from assms have p: "elems path = butlast (elems path) @ [last (elems path)]"
    and c: "canonical path" by (auto simp: file_ready_def)
  from path_dir_canonical [OF c p] assms p show ?thesis
    by (intro that [of "butlast (elems path)" "last (elems path)"]) (auto simp: file_ready_def)
qed

lemma wp_os_sync: "(\<And>w'. same w w' \<Longrightarrow> Q () w') \<Longrightarrow> (\<And>e w'. same w w' \<Longrightarrow> E e w') \<Longrightarrow> wp os_sync Q E w"
  unfolding os_sync_def by (rule wp_query) auto

lemma wp_os_close: "(\<And>w'. same w w' \<Longrightarrow> Q () w') \<Longrightarrow> (\<And>e w'. same w w' \<Longrightarrow> E e w') \<Longrightarrow> wp os_close Q E w"
  unfolding os_close_def by (rule wp_query) auto

text \<open>Filling the temporary: either its mode and content are set, or nothing visible happened.\<close>

lemma wp_fill_temp:
  assumes t: "canonical t" "elems t = d @ [c]" "temp_name c" "real_dir (vis (fs w)) d"
    and n: "nd (fs w) (d @ [c]) = Some (Reg m [])"
  shows "wp (seq (os_chmod t mode) (\<lambda>_. seq (os_write t data) (\<lambda>_. os_sync)))
    (\<lambda>_ w'. quietly w w' \<and> nd (fs w') (d @ [c]) = Some (Reg mode data)) (\<lambda>_ w'. quietly w w') w"
proof -
  have hid: "hidden (d @ [c])" using t(3) by simp
  have ent: "entry w' t d c" if "quietly w w'" for w'
    using that t by (intro entryI) (simp_all add: quietly_vis)
  have filled: "wp (os_write t data)
      (\<lambda>_. wp os_sync (\<lambda>_ w'. quietly w w' \<and> nd (fs w') (d @ [c]) = Some (Reg mode data))
        (\<lambda>_ w'. quietly w w')) (\<lambda>_ w'. quietly w w') w1"
    if w1: "quietly w w1" "nd (fs w1) (d @ [c]) = Some (Reg mode [])" for w1
    by (rule wp_mono [OF wp_write_hidden [OF ent [OF w1(1)] hid w1(2)]])
      (auto intro!: wp_os_sync intro: quietly_trans [OF w1(1)] quietly_trans same_quietly
        simp: same_fs)
  show ?thesis
    unfolding wp_seq
    by (rule wp_mono [OF wp_chmod_hidden [OF ent [OF quietly_refl] hid n]]) (auto intro: filled)
qed

lemma wp_install_file:
  assumes dir: "canonical dir" "real_dir (vis (fs w)) (elems dir)"
    and path: "canonical path" "elems path = elems dir @ [c]" "\<not> temp_name c"
    and pre: "temp_name pre" "SLASH \<notin> set pre"
  shows "wp (install_file dir pre path data mode)
    (\<lambda>_. commits (vis (fs w)) (elems path) (Reg mode data) w) (\<lambda>_. quietly w) w"
proof -
  let ?D = "elems dir" and ?P = "elems path"
  let ?Q = "\<lambda>_ :: unit. commits (vis (fs w)) ?P (Reg mode data) w" and ?E = "\<lambda>_ :: goerr. quietly w"
  have vP: "\<not> hidden (?D @ [c])" using path(3) real_dir_visible [OF dir(2)] by simp
  have body: "wp (deferring
       (seq (attempt (seq (os_chmod t mode) (\<lambda>_. seq (os_write t data) (\<lambda>_. os_sync)))) (\<lambda>err.
        seq (attempt os_close) (\<lambda>close_err.
        seq (lift (case err of Inl e \<Rightarrow> Inl e | Inr _ \<Rightarrow> close_err)) (\<lambda>_.
        os_rename t path))))
       (os_remove t)) ?Q ?E w1"
    if w1: "quietly w w1" and t: "canonical t" "elems t = ?D @ [b]" "temp_name b"
      and n: "nd (fs w1) (elems t) = Some (Reg m [])" for w1 t b m
  proof -
    have ent: "entry w' t ?D b" if "real_dir (vis (fs w')) ?D" for w'
      using that t by (intro entryI)
    have hid: "hidden (?D @ [b])" using t(3) by simp
    have rd: "real_dir (vis (fs w')) ?D" if "quietly w w'" for w'
      using that dir(2) by (simp add: quietly_vis)
    have clean_up: "wp (os_remove t) (\<lambda>_. quietly w) (\<lambda>_. quietly w) w'" if "quietly w w'" for w'
      by (rule wp_mono [OF wp_remove_hidden [OF ent [OF rd [OF that]] hid]])
        (auto intro: quietly_trans [OF that])
    have clean_up2: "wp (os_remove t) (\<lambda>_. commits (vis (fs w)) ?P (Reg mode data) w)
        (\<lambda>_. commits (vis (fs w)) ?P (Reg mode data) w) w'"
      if "commits (vis (fs w)) ?P (Reg mode data) w w'" for w'
    proof -
      from that have v: "vis (fs w') = (vis (fs w))(?P \<mapsto> Reg mode data)" by (simp add: commits_def)
      then have "real_dir (vis (fs w')) ?D"
        using dir(2) path(2) by (simp add: real_dir_upd)
      from wp_remove_hidden [OF ent [OF this] hid] show ?thesis
        by (rule wp_mono) (rule commits_quietly [OF that], assumption)+
    qed
    have rename: "wp (os_rename t path)
        (\<lambda>_. wp (os_remove t) (\<lambda>_. ?Q ()) (\<lambda>_. ?Q ())) (\<lambda>e. wp (os_remove t) (\<lambda>_. ?E e) (\<lambda>_. ?E e)) w3"
      if w3: "quietly w w3" "nd (fs w3) (?D @ [b]) = Some (Reg mode data)" for w3
    proof -
      have "entry w3 path ?D c" using path rd [OF w3(1)] by (intro entryI)
      from wp_rename_commit [OF ent [OF rd [OF w3(1)]] hid w3(2) _ this vP]
      have "wp (os_rename t path)
          (\<lambda>_ w'. vis (fs w') = (vis (fs w3))(?D @ [c] \<mapsto> Reg mode data)
             \<and> step_ok (\<lambda>f. vis f = (vis (fs w3))(?D @ [c] \<mapsto> Reg mode data)) w3 w'
             \<and> (\<exists>f \<in> set (hist w'). vis f = (vis (fs w3))(?D @ [c] \<mapsto> Reg mode data)))
          (\<lambda>_. quietly w3) w3" by simp
      then show ?thesis
      proof (rule wp_mono)
        fix u w'
        assume "vis (fs w') = (vis (fs w3))(?D @ [c] \<mapsto> Reg mode data)
          \<and> step_ok (\<lambda>f. vis f = (vis (fs w3))(?D @ [c] \<mapsto> Reg mode data)) w3 w'
          \<and> (\<exists>f \<in> set (hist w'). vis f = (vis (fs w3))(?D @ [c] \<mapsto> Reg mode data))"
        with w3(1) path(2) have "commits (vis (fs w)) ?P (Reg mode data) w w'"
          by (auto simp: commits_def quietly_def intro: step_ok_trans step_ok_mono)
        then show "wp (os_remove t) (\<lambda>_. ?Q ()) (\<lambda>_. ?Q ()) w'" by (simp add: clean_up2)
      next
        fix e w'
        assume "quietly w3 w'"
        then show "wp (os_remove t) (\<lambda>_. ?E e) (\<lambda>_. ?E e) w'"
          by (intro clean_up quietly_trans [OF w3(1)])
      qed
    qed
    have "wp (seq (os_chmod t mode) (\<lambda>_. seq (os_write t data) (\<lambda>_. os_sync)))
        (\<lambda>_ w'. quietly w w' \<and> nd (fs w') (?D @ [b]) = Some (Reg mode data)) (\<lambda>_ w'. quietly w w') w1"
      using n t rd [OF w1] w1
      by (intro wp_mono [OF wp_fill_temp [OF t rd [OF w1]]]) (auto intro: quietly_trans)
    then show ?thesis
      by (subst wp_deferring, subst wp_seq, subst wp_attempt, elim wp_mono)
        (auto intro!: wp_os_close clean_up rename simp: same_fs elim: quietly_same)
  qed
  have "wp (os_create_temp dir pre) (\<lambda>t w'. quietly w w' \<and> nd (fs w') (elems t) = Some (Reg o600 [])
       \<and> (\<exists>c. canonical t \<and> elems t = ?D @ [c] \<and> temp_name c)) (\<lambda>_ w'. quietly w w') w"
    unfolding os_create_temp_def by (rule wp_make_temp) (use dir pre in auto)
  then show ?thesis
    unfolding install_file_def wp_seq [of "os_create_temp dir pre"]
    by (rule wp_mono) (blast intro: body)+
qed

lemma wp_atomic_write:
  assumes "file_ready path (vis (fs w))"
  shows "wp (atomic_write path data mode)
    (\<lambda>_. commits (vis (fs w)) (elems path) (Reg mode data) w) (\<lambda>_. quietly w) w"
  using assms
proof (rule file_ready_entry)
  fix d c
  assume "elems path = d @ [c]" "canonical path" "real_dir (vis (fs w)) d" "\<not> temp_name c"
    "canonical (path_dir path)" "elems (path_dir path) = d"
  then show ?thesis
    unfolding atomic_write_def by (intro wp_install_file) auto
qed

text \<open>A write request: the path, the data and the mode.\<close>

type_synonym write_req = "string \<times> string \<times> nat"

fun write_op :: "write_req \<Rightarrow> unit io" where
  "write_op (path, data, mode) = atomic_write path data mode"

fun write_dest :: "write_req \<Rightarrow> path" where
  "write_dest (path, data, mode) = elems path"

fun write_val :: "write_req \<Rightarrow> node" where
  "write_val (path, data, mode) = Reg mode data"

fun write_ready :: "write_req \<Rightarrow> view \<Rightarrow> bool" where
  "write_ready (path, data, mode) v = file_ready path v"

interpretation file_write: atomic_update write_op write_dest write_val write_ready
proof
  fix a :: write_req and w :: world
  assume "write_ready a (vis (fs w))"
  then show "wp (write_op a) (\<lambda>_. commits (vis (fs w)) (write_dest a) (write_val a) w) (\<lambda>_. quietly w) w"
    by (cases a) (simp add: wp_atomic_write)
qed

end
