(* ===== verification/GoJson.thy ===== *)
theory GoJson
  imports GoStrings
begin

text \<open>
  Go's \<open>encoding/json\<close> as the program uses it: the scanner and string decoder that \<open>Unmarshal\<close> and
  \<open>Decoder.Decode\<close> share, the printer of \<open>MarshalIndent(v, "", "  ")\<close> and of \<open>Marshal\<close>, and the rules by
  which object members reach the fields of a struct.

  Strings are decoded as Go does: an invalid UTF-8 byte and an unpaired surrogate become U+FFFD.
  They are printed with HTML escaping, as \<open>Marshal\<close> does by default.  The scanner's fuel is the length
  of its input plus one: each recursive call has consumed a byte.  Go's limit of 10000 nested
  values is not modelled.
\<close>

section \<open>UTF-8\<close>

definition cont :: "nat \<Rightarrow> nat \<Rightarrow> char \<Rightarrow> bool" where
  "cont lo hi c \<longleftrightarrow> lo \<le> byte c \<and> byte c \<le> hi"

text \<open>The length of the valid encoding a string starts with, 0 if it starts with none.\<close>

fun rune_len :: "string \<Rightarrow> nat" where
  "rune_len [] = 0"
| "rune_len (a # s) =
     (let n = byte a in
      if n < 128 then 1
      else if n < 194 then 0
      else if n < 224 then (case s of b # _ \<Rightarrow> if cont 128 191 b then 2 else 0 | _ \<Rightarrow> 0)
      else if n < 240 then
        (case s of b # c # _ \<Rightarrow>
             if cont (if n = 224 then 160 else 128) (if n = 237 then 159 else 191) b \<and> cont 128 191 c
             then 3 else 0
         | _ \<Rightarrow> 0)
      else if n < 245 then
        (case s of b # c # d # _ \<Rightarrow>
             if cont (if n = 240 then 144 else 128) (if n = 244 then 143 else 191) b
                \<and> cont 128 191 c \<and> cont 128 191 d
             then 4 else 0
         | _ \<Rightarrow> 0)
      else 0)"

definition chr :: "nat \<Rightarrow> char" where
  "chr n = char_of n"

lemma byte_chr [simp]: "n < 256 \<Longrightarrow> byte (chr n) = n"
  by (simp add: byte_def chr_def)

lemma chr_byte [simp]: "chr (byte c) = c"
  by (simp add: byte_def chr_def)

definition encode_rune :: "nat \<Rightarrow> string" where
  "encode_rune r =
     (if r < 128 then [chr r]
      else if r < 2048 then [chr (192 + r div 64), chr (128 + r mod 64)]
      else if r < 65536 then [chr (224 + r div 4096), chr (128 + r div 64 mod 64), chr (128 + r mod 64)]
      else [chr (240 + r div 262144), chr (128 + r div 4096 mod 64),
            chr (128 + r div 64 mod 64), chr (128 + r mod 64)])"

definition replacement :: string where
  "replacement = [CHR 0xEF, CHR 0xBF, CHR 0xBD]"

fun valid_utf8 :: "string \<Rightarrow> bool" where
  "valid_utf8 [] = True"
| "valid_utf8 (c # s) =
     (rune_len (c # s) \<noteq> 0 \<and> valid_utf8 (drop (rune_len (c # s) - 1) s))"

section \<open>Strings\<close>

definition hex_digit :: "nat \<Rightarrow> char" where
  "hex_digit n = ''0123456789abcdef'' ! n"

definition hex_val :: "char \<Rightarrow> nat option" where
  "hex_val c =
     (let n = byte c in
      if 48 \<le> n \<and> n \<le> 57 then Some (n - 48)
      else if 97 \<le> n \<and> n \<le> 102 then Some (n - 87)
      else if 65 \<le> n \<and> n \<le> 70 then Some (n - 55)
      else None)"

text \<open>\<open>getu4\<close>: four hexadecimal digits after a backslash and a \<open>u\<close>.\<close>

fun getu4 :: "string \<Rightarrow> nat option" where
  "getu4 (a # b # h1 # h2 # h3 # h4 # _) =
     (if a = BSLASH \<and> b = CHR ''u'' then
        (case (hex_val h1, hex_val h2, hex_val h3, hex_val h4) of
           (Some x1, Some x2, Some x3, Some x4) \<Rightarrow> Some (((x1 * 16 + x2) * 16 + x3) * 16 + x4)
         | _ \<Rightarrow> None)
      else None)"
| "getu4 _ = None"

definition surrogate :: "nat \<Rightarrow> bool" where
  "surrogate r \<longleftrightarrow> 55296 \<le> r \<and> r < 57344"

definition decode_pair :: "nat \<Rightarrow> nat \<Rightarrow> nat option" where
  "decode_pair r r1 =
     (if 55296 \<le> r \<and> r < 56320 \<and> 56320 \<le> r1 \<and> r1 < 57344
      then Some ((r - 55296) * 1024 + (r1 - 56320) + 65536) else None)"

definition simple_escape :: "char \<Rightarrow> char option" where
  "simple_escape c =
     map_of [(DQUOTE, DQUOTE), (BSLASH, BSLASH), (SLASH, SLASH), (CHR ''b'', CHR 0x08),
             (CHR ''f'', CHR 0x0C), (CHR ''n'', LF), (CHR ''r'', CR), (CHR ''t'', TAB)] c"

text \<open>The rest of a string literal after its opening quote: its value and what follows it.\<close>

definition prepend :: "string \<Rightarrow> (string \<times> 'b) option \<Rightarrow> (string \<times> 'b) option" where
  "prepend s r = map_option (\<lambda>(x, t). (s @ x, t)) r"

function scan_string :: "string \<Rightarrow> (string \<times> string) option" where
  "scan_string [] = None"
| "scan_string (c # s) =
     (if c = DQUOTE then Some ([], s)
      else if c = BSLASH then
        (case s of
           [] \<Rightarrow> None
         | e # t \<Rightarrow>
             if e = CHR ''u'' then
               (case getu4 (c # s) of
                  None \<Rightarrow> None
                | Some r \<Rightarrow>
                    if surrogate r then
                      (case getu4 (drop 5 s) of
                         None \<Rightarrow> prepend replacement (scan_string (drop 5 s))
                       | Some r1 \<Rightarrow>
                           (case decode_pair r r1 of
                              None \<Rightarrow> prepend replacement (scan_string (drop 5 s))
                            | Some q \<Rightarrow> prepend (encode_rune q) (scan_string (drop 11 s))))
                    else prepend (encode_rune r) (scan_string (drop 5 s)))
             else (case simple_escape e of None \<Rightarrow> None | Some x \<Rightarrow> prepend [x] (scan_string t)))
      else if byte c < 32 then None
      else if rune_len (c # s) = 0 then prepend replacement (scan_string s)
      else prepend (take (rune_len (c # s)) (c # s)) (scan_string (drop (rune_len (c # s) - 1) s)))"
  by pat_completeness auto
termination
  by (relation "measure length") auto

declare scan_string.simps [simp del]

text \<open>Printing one string, quotes included.\<close>

definition u_escape :: "nat \<Rightarrow> string" where
  "u_escape n = [BSLASH, CHR ''u'', hex_digit (n div 4096 mod 16), hex_digit (n div 256 mod 16),
                 hex_digit (n div 16 mod 16), hex_digit (n mod 16)]"

definition escape_ascii :: "char \<Rightarrow> string" where
  "escape_ascii c =
     (if c = DQUOTE \<or> c = BSLASH then [BSLASH, c]
      else if c = CHR 0x08 then [BSLASH, CHR ''b'']
      else if c = CHR 0x0C then [BSLASH, CHR ''f'']
      else if c = LF then [BSLASH, CHR ''n'']
      else if c = CR then [BSLASH, CHR ''r'']
      else if c = TAB then [BSLASH, CHR ''t'']
      else if byte c < 32 \<or> c \<in> {CHR ''<'', CHR ''>'', CHR ''&''} then u_escape (byte c)
      else [c])"

definition line_sep :: "string \<Rightarrow> nat option" where
  "line_sep s = map_of [([CHR 0xE2, CHR 0x80, CHR 0xA8], 8232), ([CHR 0xE2, CHR 0x80, CHR 0xA9], 8233)] s"

fun escape_string :: "string \<Rightarrow> string" where
  "escape_string [] = []"
| "escape_string (c # s) =
     (if byte c < 128 then escape_ascii c @ escape_string s
      else if rune_len (c # s) = 0 then u_escape 65533 @ escape_string s
      else
        (let n = rune_len (c # s) in
         (case line_sep (take n (c # s)) of
            Some r \<Rightarrow> u_escape r
          | None \<Rightarrow> take n (c # s)) @ escape_string (drop (n - 1) s)))"

definition quote_string :: "string \<Rightarrow> string" where
  "quote_string s = DQUOTE # escape_string s @ [DQUOTE]"

section \<open>Values\<close>

datatype json =
    JNull
  | JBool bool
  | JNum string
  | JStr string
  | JArr "json list"
  | JObj "(string \<times> json) list"

definition json_space :: "char \<Rightarrow> bool" where
  "json_space c \<longleftrightarrow> c \<in> {CHR '' '', TAB, CR, LF}"

definition skip_ws :: "string \<Rightarrow> string" where
  "skip_ws s = dropWhile json_space s"

definition scan_digits :: "string \<Rightarrow> (string \<times> string) option" where
  "scan_digits s = (let d = takeWhile is_digit s in if d = [] then None else Some (d, dropWhile is_digit s))"

definition scan_int :: "string \<Rightarrow> (string \<times> string) option" where
  "scan_int s =
     (case s of
        c # t \<Rightarrow> if c = CHR ''0'' then Some ([c], t) else scan_digits s
      | [] \<Rightarrow> None)"

definition scan_frac :: "string \<Rightarrow> (string \<times> string) option" where
  "scan_frac s =
     (case s of
        c # t \<Rightarrow> if c = CHR ''.'' then prepend [c] (scan_digits t) else Some ([], s)
      | [] \<Rightarrow> Some ([], []))"

definition scan_exp :: "string \<Rightarrow> (string \<times> string) option" where
  "scan_exp s =
     (case s of
        c # t \<Rightarrow>
          if c = CHR ''e'' \<or> c = CHR ''E'' then
            (case t of
               d # u \<Rightarrow> if d = CHR ''+'' \<or> d = CHR ''-'' then prepend [c, d] (scan_digits u)
                        else prepend [c] (scan_digits t)
             | [] \<Rightarrow> None)
          else Some ([], s)
      | [] \<Rightarrow> Some ([], []))"

definition scan_unsigned :: "string \<Rightarrow> (string \<times> string) option" where
  "scan_unsigned s =
     (case scan_int s of None \<Rightarrow> None | Some (i, s1) \<Rightarrow>
       (case scan_frac s1 of None \<Rightarrow> None | Some (f, s2) \<Rightarrow>
         (case scan_exp s2 of None \<Rightarrow> None | Some (e, s3) \<Rightarrow> Some (i @ f @ e, s3))))"

definition scan_number :: "string \<Rightarrow> (string \<times> string) option" where
  "scan_number s =
     (case s of
        c # t \<Rightarrow> if c = CHR ''-'' then prepend [c] (scan_unsigned t) else scan_unsigned s
      | [] \<Rightarrow> None)"

definition strip_lit :: "string \<Rightarrow> string \<Rightarrow> string option" where
  "strip_lit l s = (if prefix l s then Some (drop (length l) s) else None)"

fun scan_value :: "nat \<Rightarrow> string \<Rightarrow> (json \<times> string) option"
  and scan_items :: "nat \<Rightarrow> string \<Rightarrow> (json list \<times> string) option"
  and scan_members :: "nat \<Rightarrow> string \<Rightarrow> ((string \<times> json) list \<times> string) option" where
  "scan_value 0 s = None"
| "scan_value (Suc n) s =
     (case skip_ws s of
        [] \<Rightarrow> None
      | c # t \<Rightarrow>
          if c = CHR ''{'' then
            (case skip_ws t of
               [] \<Rightarrow> None
             | d # u \<Rightarrow> if d = CHR ''}'' then Some (JObj [], u)
                        else map_option (\<lambda>(ms, r). (JObj ms, r)) (scan_members n t))
          else if c = CHR ''['' then
            (case skip_ws t of
               [] \<Rightarrow> None
             | d # u \<Rightarrow> if d = CHR '']'' then Some (JArr [], u)
                        else map_option (\<lambda>(js, r). (JArr js, r)) (scan_items n t))
          else if c = DQUOTE then map_option (\<lambda>(x, r). (JStr x, r)) (scan_string t)
          else if c = CHR ''n'' then map_option (\<lambda>r. (JNull, r)) (strip_lit ''null'' (c # t))
          else if c = CHR ''t'' then map_option (\<lambda>r. (JBool True, r)) (strip_lit ''true'' (c # t))
          else if c = CHR ''f'' then map_option (\<lambda>r. (JBool False, r)) (strip_lit ''false'' (c # t))
          else map_option (\<lambda>(x, r). (JNum x, r)) (scan_number (c # t)))"
| "scan_items 0 s = None"
| "scan_items (Suc n) s =
     (case scan_value n s of
        None \<Rightarrow> None
      | Some (j, r) \<Rightarrow>
          (case skip_ws r of
             [] \<Rightarrow> None
           | c # t \<Rightarrow> if c = CHR '']'' then Some ([j], t)
                      else if c = CHR '','' then map_option (\<lambda>(js, u). (j # js, u)) (scan_items n t)
                      else None))"
| "scan_members 0 s = None"
| "scan_members (Suc n) s =
     (case skip_ws s of
        [] \<Rightarrow> None
      | q # s1 \<Rightarrow>
          if q \<noteq> DQUOTE then None
          else (case scan_string s1 of
             None \<Rightarrow> None
           | Some (k, s2) \<Rightarrow>
               (case skip_ws s2 of
                  [] \<Rightarrow> None
                | c # s3 \<Rightarrow>
                    if c \<noteq> CHR '':'' then None
                    else (case scan_value n s3 of
                       None \<Rightarrow> None
                     | Some (j, r) \<Rightarrow>
                         (case skip_ws r of
                            [] \<Rightarrow> None
                          | d # t \<Rightarrow>
                              if d = CHR ''}'' then Some ([(k, j)], t)
                              else if d = CHR '','' then map_option (\<lambda>(ms, u). ((k, j) # ms, u)) (scan_members n t)
                              else None)))))"

text \<open>The first value of a stream and what follows it; \<open>Unmarshal\<close> wants nothing but white space there.\<close>

definition json_decode :: "string \<Rightarrow> (json \<times> string) option" where
  "json_decode s = scan_value (length s + 1) s"

definition json_parse :: "string \<Rightarrow> json option" where
  "json_parse s =
     (case json_decode s of
        Some (j, r) \<Rightarrow> if skip_ws r = [] then Some j else None
      | None \<Rightarrow> None)"

section \<open>Printing\<close>

definition newline :: "nat \<Rightarrow> string" where
  "newline l = LF # replicate (2 * l) CHR '' ''"

fun json_indent :: "nat \<Rightarrow> json \<Rightarrow> string"
  and indent_items :: "nat \<Rightarrow> json list \<Rightarrow> string"
  and indent_members :: "nat \<Rightarrow> (string \<times> json) list \<Rightarrow> string" where
  "json_indent l JNull = ''null''"
| "json_indent l (JBool b) = (if b then ''true'' else ''false'')"
| "json_indent l (JNum x) = x"
| "json_indent l (JStr x) = quote_string x"
| "json_indent l (JArr []) = ''[]''"
| "json_indent l (JArr (j # js)) =
     ''['' @ newline (Suc l) @ indent_items (Suc l) (j # js) @ newline l @ '']''"
| "json_indent l (JObj []) = ''{}''"
| "json_indent l (JObj (m # ms)) =
     ''{'' @ newline (Suc l) @ indent_members (Suc l) (m # ms) @ newline l @ ''}''"
| "indent_items l [] = []"
| "indent_items l [j] = json_indent l j"
| "indent_items l (j # i # js) = json_indent l j @ '','' @ newline l @ indent_items l (i # js)"
| "indent_members l [] = []"
| "indent_members l [(k, j)] = quote_string k @ '': '' @ json_indent l j"
| "indent_members l ((k, j) # m # ms) =
     quote_string k @ '': '' @ json_indent l j @ '','' @ newline l @ indent_members l (m # ms)"

section \<open>Members and struct fields\<close>

text \<open>
  A member reaches the field whose name it equals, or else the one it equals under case folding:
  ASCII letters, and the two non-ASCII runes that fold to ASCII ones (U+017F to s, U+212A to k).
\<close>

definition to_lower_ascii :: "char \<Rightarrow> char" where
  "to_lower_ascii c = (if is_upper c then chr (byte c + 32) else c)"

fun fold_name :: "string \<Rightarrow> string" where
  "fold_name [] = []"
| "fold_name [a] = [to_lower_ascii a]"
| "fold_name [a, b] =
     (if a = CHR 0xC5 \<and> b = CHR 0xBF then ''s'' else to_lower_ascii a # fold_name [b])"
| "fold_name (a # b # c # s) =
     (if a = CHR 0xC5 \<and> b = CHR 0xBF then CHR ''s'' # fold_name (c # s)
      else if a = CHR 0xE2 \<and> b = CHR 0x84 \<and> c = CHR 0xAA then CHR ''k'' # fold_name s
      else to_lower_ascii a # fold_name (b # c # s))"

definition field_of :: "string list \<Rightarrow> string \<Rightarrow> string option" where
  "field_of fs k = (if k \<in> set fs then Some k else find (\<lambda>f. fold_name f = fold_name k) fs)"

text \<open>Storing into a \<open>string\<close> and an \<open>int\<close>: \<open>null\<close> leaves the old value, any other kind is an error.\<close>

definition into_string :: "string \<Rightarrow> json \<Rightarrow> string option" where
  "into_string old j = (case j of JStr s \<Rightarrow> Some s | JNull \<Rightarrow> Some old | _ \<Rightarrow> None)"

text \<open>
  \<open>Unmarshal\<close> into a struct: the members in order, each handed to \<open>put\<close> with its field; a later
  duplicate wins.  \<open>strict\<close> is \<open>DisallowUnknownFields\<close>.  \<open>null\<close> leaves the struct as it is.
\<close>

fun put_members :: "bool \<Rightarrow> string list \<Rightarrow> (string \<Rightarrow> json \<Rightarrow> 'r \<Rightarrow> 'r option) \<Rightarrow> (string \<times> json) list \<Rightarrow> 'r \<Rightarrow> 'r option" where
  "put_members strict fs put [] r = Some r"
| "put_members strict fs put ((k, j) # ms) r =
     (case field_of fs k of
        None \<Rightarrow> if strict then None else put_members strict fs put ms r
      | Some f \<Rightarrow> (case put f j r of None \<Rightarrow> None | Some r' \<Rightarrow> put_members strict fs put ms r'))"

definition into_struct :: "bool \<Rightarrow> string list \<Rightarrow> (string \<Rightarrow> json \<Rightarrow> 'r \<Rightarrow> 'r option) \<Rightarrow> 'r \<Rightarrow> json \<Rightarrow> 'r option" where
  "into_struct strict fs put r j =
     (case j of JObj ms \<Rightarrow> put_members strict fs put ms r | JNull \<Rightarrow> Some r | _ \<Rightarrow> None)"

end
