(* ===== verification/JsonFacts.thy ===== *)
theory JsonFacts
  imports GoJson
begin

text \<open>
  The printer and the scanner of JSON are inverse: every value whose strings are valid UTF-8 and
  whose numbers are JSON numbers is read back from its indented rendering.
\<close>

section \<open>Runes\<close>

lemma rune_len_local:
  "rune_len s = n \<Longrightarrow> n \<noteq> 0 \<Longrightarrow> n \<le> length s \<and> rune_len (take n s @ t) = n"
  by (cases s; cases "tl s"; cases "tl (tl s)"; cases "tl (tl (tl s))")
    (auto simp: Let_def split: if_splits)

lemma rune_len_ascii: "byte c < 128 \<Longrightarrow> rune_len (c # s) = 1"
  by simp

lemma chr_eq: "byte c = n \<Longrightarrow> chr n = c"
  using chr_byte by blast

lemma encode_line_sep: "line_sep s = Some r \<Longrightarrow> encode_rune r = s \<and> r < 65536 \<and> \<not> surrogate r"
  by (auto simp: line_sep_def encode_rune_def surrogate_def split: if_splits intro!: chr_eq)
    (simp_all add: byte_def)

section \<open>String literals\<close>

lemma hex_val_digit [simp]: "n < 16 \<Longrightarrow> hex_val (hex_digit n) = Some n"
proof -
  assume "n < 16"
  moreover have "list_all (\<lambda>n. hex_val (hex_digit n) = Some n) [0..<16]" by code_simp
  ultimately show ?thesis by (simp add: list_all_iff)
qed

lemma getu4_escape:
  assumes "n < 65536"
  shows "getu4 (u_escape n @ t) = Some n"
proof -
  have d: "n div 256 = n div 16 div 16" "n div 4096 = n div 16 div 16 div 16"
    by (simp_all add: div_mult2_eq [symmetric])
  have "n div 16 div 16 div 16 < 16" using assms by simp
  then have "((n div 4096 mod 16 * 16 + n div 256 mod 16) * 16 + n div 16 mod 16) * 16 + n mod 16 = n"
    by (simp add: d)
  moreover have "hex_val (hex_digit (k mod 16)) = Some (k mod 16)" for k by simp
  ultimately show ?thesis
    by (simp only: u_escape_def append_Cons append_Nil getu4.simps prod.case option.case simp_thms if_True)
qed

lemma scan_u_escape:
  assumes "n < 65536" "\<not> surrogate n"
  shows "scan_string (u_escape n @ t) = prepend (encode_rune n) (scan_string t)"
proof -
  have "scan_string (u_escape n @ t) = prepend (encode_rune n) (scan_string (drop 5 (tl (u_escape n) @ t)))"
    using assms getu4_escape [OF assms(1), of t]
    by (simp add: u_escape_def scan_string.simps(2) [of BSLASH])
  then show ?thesis by (simp add: u_escape_def)
qed

lemma scan_plain:
  assumes "c \<noteq> DQUOTE" "c \<noteq> BSLASH" "32 \<le> byte c" "rune_len (c # s) = n" "n \<noteq> 0"
  shows "scan_string (take n (c # s) @ t) = prepend (take n (c # s)) (scan_string t)"
proof -
  from rune_len_local [OF assms(4,5)] have n: "n \<le> length (c # s)" "rune_len (take n (c # s) @ t) = n"
    by auto
  have t: "take n (c # s) @ t = c # (take (n - 1) s @ t)" using assms(5) by (cases n) auto
  have "take n (take n (c # s) @ t) = take n (c # s)" "drop (n - 1) (take (n - 1) s @ t) = t"
    using n(1) by auto
  with t n(2) assms(1-3,5) show ?thesis
    by (simp add: scan_string.simps(2) [of c])
qed

lemma scan_escape_ascii:
  assumes "byte c < 128"
  shows "scan_string (escape_ascii c @ t) = prepend [c] (scan_string t)"
proof -
  have u: "scan_string (u_escape (byte c) @ t) = prepend [c] (scan_string t)"
    using scan_u_escape [of "byte c" t] assms by (simp add: surrogate_def encode_rune_def)
  have p: "scan_string (c # t) = prepend [c] (scan_string t)"
    if "c \<noteq> DQUOTE" "c \<noteq> BSLASH" "32 \<le> byte c"
    using scan_plain [of c t 1 t] that assms by simp
  show ?thesis
    using u p by (auto simp: escape_ascii_def simple_escape_def scan_string.simps(2) [of BSLASH])
qed

lemma scan_escape:
  "valid_utf8 s \<Longrightarrow> scan_string (escape_string s @ DQUOTE # t) = Some (s, t)"
proof (induction s rule: escape_string.induct)
  case 1
  then show ?case by (simp add: scan_string.simps)
next
  case (2 c s)
  define n where "n = rune_len (c # s)"
  from "2.prems" have n0: "n \<noteq> 0" and v: "valid_utf8 (drop (n - 1) s)" by (simp_all add: n_def)
  have len: "n \<le> length (c # s)" using rune_len_local n0 n_def by blast
  have cs: "take n (c # s) @ drop (n - 1) s = c # s"
    using n0 by (cases n) auto
  show ?case
  proof (cases "byte c < 128")
    case True
    then have "n = 1" by (simp add: n_def)
    with v True "2.IH"(1) show ?thesis by (simp add: scan_escape_ascii prepend_def)
  next
    case False
    with "2.IH"(3) v n0 have IH: "scan_string (escape_string (drop (n - 1) s) @ DQUOTE # t)
        = Some (drop (n - 1) s, t)"
      by (simp add: n_def)
    have neq: "c \<noteq> DQUOTE" "c \<noteq> BSLASH" "32 \<le> byte c"
      using False by (auto simp: byte_def)
    show ?thesis
    proof (cases "line_sep (take n (c # s))")
      case None
      have "escape_string (c # s) = take n (c # s) @ escape_string (drop (n - 1) s)"
        using False None n0 by (simp add: n_def Let_def)
      then show ?thesis
        using scan_plain [OF neq n_def [symmetric] n0] IH cs by (simp add: prepend_def)
    next
      case (Some r)
      have "escape_string (c # s) = u_escape r @ escape_string (drop (n - 1) s)"
        using False Some n0 by (simp add: n_def Let_def)
      then show ?thesis
        using scan_u_escape encode_line_sep [OF Some] IH cs by (simp add: prepend_def)
    qed
  qed
qed

section \<open>Values\<close>

definition stops :: "string \<Rightarrow> bool" where
  "stops t \<longleftrightarrow> (case t of [] \<Rightarrow> True | c # _ \<Rightarrow> c = CHR '','' \<or> c = LF \<or> c = CHR ''}'' \<or> c = CHR '']'')"

definition json_number :: "string \<Rightarrow> bool" where
  "json_number x \<longleftrightarrow> (\<forall>t. stops t \<longrightarrow> scan_number (x @ t) = Some (x, t))
     \<and> (\<exists>c y. x = c # y \<and> (c = CHR ''-'' \<or> is_digit c))"

fun printable :: "json \<Rightarrow> bool" where
  "printable (JStr s) = valid_utf8 s"
| "printable (JNum x) = json_number x"
| "printable (JArr js) = list_all printable js"
| "printable (JObj ms) = list_all (\<lambda>(k, j). valid_utf8 k \<and> printable j) ms"
| "printable _ = True"

lemma skip_ws_simps [simp]:
  "skip_ws [] = []"
  "skip_ws (c # s) = (if json_space c then skip_ws s else c # s)"
  by (simp_all add: skip_ws_def)

lemma skip_ws_newline [simp]: "skip_ws (newline l @ s) = skip_ws s"
  by (simp add: newline_def skip_ws_def json_space_def dropWhile_append)

lemma json_space_consts [simp]:
  "json_space (CHR '' '')" "json_space LF" "\<not> json_space (CHR ''}'')" "\<not> json_space (CHR '']'')"
  "\<not> json_space (CHR '','')" "\<not> json_space (CHR '':'')" "\<not> json_space DQUOTE"
  "\<not> json_space (CHR ''{'')" "\<not> json_space (CHR ''['')"
  "\<not> json_space (CHR ''n'')" "\<not> json_space (CHR ''t'')" "\<not> json_space (CHR ''f'')"
  by (simp_all add: json_space_def)

lemma digit_not_special:
  assumes "c = CHR ''-'' \<or> is_digit c"
  shows "\<not> json_space c" "c \<noteq> CHR ''{''" "c \<noteq> CHR ''[''" "c \<noteq> DQUOTE"
    "c \<noteq> CHR ''n''" "c \<noteq> CHR ''t''" "c \<noteq> CHR ''f''" "c \<noteq> CHR ''}''" "c \<noteq> CHR '']''"
  using assms by (auto simp: json_space_def is_digit_def byte_def)

text \<open>No rendering starts with white space or with a closing bracket.\<close>

lemma json_indent_starts:
  "printable j \<Longrightarrow> \<exists>c s. json_indent l j = c # s \<and> \<not> json_space c \<and> c \<noteq> CHR ''}'' \<and> c \<noteq> CHR '']''"
proof (cases j)
  case (JNum x)
  assume "printable j"
  with JNum obtain c y where "x = c # y" "c = CHR ''-'' \<or> is_digit c" by (auto simp: json_number_def)
  with JNum show ?thesis using digit_not_special [of c] by simp
next
  case (JArr js)
  then show ?thesis by (cases js) auto
next
  case (JObj ms)
  then show ?thesis by (cases ms) auto
qed (auto simp: quote_string_def)

lemma skip_ws_indent [simp]: "printable j \<Longrightarrow> skip_ws (json_indent l j @ t) = json_indent l j @ t"
  using json_indent_starts [of j l] by auto

lemma scan_value_newline [simp]: "scan_value n (newline l @ s) = scan_value n s"
  by (cases n) simp_all

lemma scan_items_newline [simp]: "scan_items n (newline l @ s) = scan_items n s"
  by (cases n) simp_all

lemma scan_members_newline [simp]: "scan_members n (newline l @ s) = scan_members n s"
  by (cases n) simp_all

lemma scan_value_space: "json_space c \<Longrightarrow> scan_value n (c # s) = scan_value n s"
  by (cases n) simp_all

lemma indent_items_starts:
  "list_all printable (j # js) \<Longrightarrow>
     \<exists>c s. indent_items l (j # js) = c # s \<and> \<not> json_space c \<and> c \<noteq> CHR '']''"
  using json_indent_starts [of j l] by (cases js) auto

lemma indent_members_starts: "\<exists>s. indent_members l (m # ms) = DQUOTE # s"
  by (cases m; cases ms) (auto simp: quote_string_def)

lemma stops_simps [simp]:
  "stops (newline l @ s)" "stops (CHR '','' # s)"
  by (simp_all add: stops_def newline_def)

lemma scan_indent:
  "printable j \<Longrightarrow> length (json_indent l j) < n \<Longrightarrow> stops t \<Longrightarrow>
     scan_value n (json_indent l j @ t) = Some (j, t)"
  "js \<noteq> [] \<Longrightarrow> list_all printable js \<Longrightarrow> length (indent_items l js) + 1 < n \<Longrightarrow>
     scan_items n (indent_items l js @ newline k @ CHR '']'' # t) = Some (js, t)"
  "ms \<noteq> [] \<Longrightarrow> list_all (\<lambda>(k, j). valid_utf8 k \<and> printable j) ms \<Longrightarrow> length (indent_members l ms) + 1 < n \<Longrightarrow>
     scan_members n (indent_members l ms @ newline k @ CHR ''}'' # t) = Some (ms, t)"
proof (induction l j and l js and l ms arbitrary: n t and n t k and n t k
    rule: json_indent_indent_items_indent_members.induct)
  case (1 l) then show ?case by (cases n) (simp_all add: strip_lit_def)
next
  case (2 l b) then show ?case by (cases n; cases b) (simp_all add: strip_lit_def)
next
  case (3 l x)
  then obtain m where n: "n = Suc m" by (cases n) auto
  from "3.prems"(1) have num: "json_number x" by simp
  then obtain c y where x: "x = c # y" "c = CHR ''-'' \<or> is_digit c"
    unfolding json_number_def by blast
  have s: "scan_number (x @ t) = Some (x, t)"
    using num "3.prems"(3) unfolding json_number_def by blast
  note c = digit_not_special [OF x(2)]
  have "skip_ws (x @ t) = c # y @ t" using c(1) by (simp add: x(1))
  then show ?case
    using c(2-7) s by (simp add: n x(1))
next
  case (4 l x)
  then obtain m where n: "n = Suc m" by (cases n) auto
  with 4 show ?case by (simp add: quote_string_def scan_escape)
next
  case (5 l) then show ?case by (cases n) auto
next
  case (6 l j js)
  then obtain m where n: "n = Suc m" by (cases n) auto
  obtain c s where c: "indent_items (Suc l) (j # js) = c # s" "\<not> json_space c" "c \<noteq> CHR '']''"
    using indent_items_starts [of j js "Suc l"] "6.prems"(1) by auto
  have "scan_items m (indent_items (Suc l) (j # js) @ newline l @ CHR '']'' # t) = Some (j # js, t)"
    using "6.prems" by (intro "6.IH") (simp_all add: n)
  with c show ?case by (simp add: n)
next
  case (7 l) then show ?case by (cases n) auto
next
  case (8 l m ms)
  then obtain i where n: "n = Suc i" by (cases n) auto
  obtain s where c: "indent_members (Suc l) (m # ms) = DQUOTE # s"
    using indent_members_starts by blast
  have "scan_members i (indent_members (Suc l) (m # ms) @ newline l @ CHR ''}'' # t) = Some (m # ms, t)"
    using "8.prems" by (intro "8.IH") (simp_all add: n)
  with c show ?case by (simp add: n)
next
  case (9 l) then show ?case by simp
next
  case (10 l j)
  then obtain i where n: "n = Suc i" by (cases n) auto
  with 10 show ?case by simp
next
  case (11 l j i js)
  then obtain m where n: "n = Suc m" by (cases n) auto
  have "scan_value m (json_indent l j @ CHR '','' # newline l @ indent_items l (i # js) @ newline k @ CHR '']'' # t)
      = Some (j, CHR '','' # newline l @ indent_items l (i # js) @ newline k @ CHR '']'' # t)"
    using "11.prems" by (intro "11.IH"(1)) (simp_all add: n)
  moreover have "scan_items m (indent_items l (i # js) @ newline k @ CHR '']'' # t) = Some (i # js, t)"
    using "11.prems" by (intro "11.IH"(2)) (simp_all add: n)
  ultimately show ?case by (simp add: n)
next
  case (12 l) then show ?case by simp
next
  case (13 l i j)
  then obtain m where n: "n = Suc m" by (cases n) auto
  have "scan_value m (json_indent l j @ newline k @ CHR ''}'' # t) = Some (j, newline k @ CHR ''}'' # t)"
    using "13.prems" by (intro "13.IH") (simp_all add: n quote_string_def)
  moreover have "valid_utf8 i" using "13.prems" by simp
  ultimately show ?case by (simp add: n quote_string_def scan_escape scan_value_space)
next
  case (14 l i j m ms)
  then obtain n' where n: "n = Suc n'" by (cases n) auto
  let ?t = "newline l @ indent_members l (m # ms) @ newline k @ CHR ''}'' # t"
  have "scan_value n' (json_indent l j @ CHR '','' # ?t) = Some (j, CHR '','' # ?t)"
    using "14.prems" by (intro "14.IH"(1)) (simp_all add: n quote_string_def)
  moreover have "scan_members n' (indent_members l (m # ms) @ newline k @ CHR ''}'' # t) = Some (m # ms, t)"
    using "14.prems" by (intro "14.IH"(2)) (simp_all add: n quote_string_def)
  moreover have "valid_utf8 i" using "14.prems" by simp
  ultimately show ?case by (simp add: n quote_string_def scan_escape scan_value_space)
qed

lemma json_roundtrip: "printable j \<Longrightarrow> json_parse (json_indent l j) = Some j"
  using scan_indent(1) [of j l "length (json_indent l j) + 1" "[]"]
  by (simp add: json_parse_def json_decode_def stops_def)

lemma json_roundtrip_line: "printable j \<Longrightarrow> json_parse (json_indent l j @ [LF]) = Some j"
  using scan_indent(1) [of j l "length (json_indent l j @ [LF]) + 1" "[LF]"]
  by (simp add: json_parse_def json_decode_def stops_def)

end
