(* ===== verification/Store.thy ===== *)
theory Store
  imports Atomic JsonFacts
begin

text \<open>
  The runtime store, \<open>internal/runtime/store.go\<close>: the pointers \<open>current\<close> and \<open>previous\<close>, the
  provenance record \<open>applied.json\<close>, validation and smoke test of a candidate runtime, and the Nix
  garbage-collector roots.  The definitions come first, in the order of the source; then what each
  operation does to the visible tree.

  Nix, \<open>nix-store\<close> and the runtime's own \<open>pi\<close> are external programs: the parameter \<open>ex\<close>.
\<close>

section \<open>Paths\<close>

record store =
  sdir :: string

abbreviation current_name :: string where "current_name \<equiv> ''current''"
abbreviation previous_name :: string where "previous_name \<equiv> ''previous''"
abbreviation applied_name :: string where "applied_name \<equiv> ''applied.json''"
abbreviation required_tool :: string where "required_tool \<equiv> ''pi''"

definition store_current :: "store \<Rightarrow> string" where
  "store_current s = path_join [sdir s, current_name]"

definition store_previous :: "store \<Rightarrow> string" where
  "store_previous s = path_join [sdir s, previous_name]"

definition current_bin :: "store \<Rightarrow> string" where
  "current_bin s = path_join [store_current s, ''bin'']"

definition gc_roots :: "store \<Rightarrow> string" where
  "gc_roots s = path_join [sdir s, ''gcroots'']"

definition applied_path :: "store \<Rightarrow> string" where
  "applied_path s = path_join [sdir s, applied_name]"

section \<open>Provenance\<close>

record applied_record =
  installable :: string
  target :: string

definition put_applied :: "string \<Rightarrow> json \<Rightarrow> applied_record \<Rightarrow> applied_record option" where
  "put_applied f j r =
     (if f = ''installable'' then map_option (\<lambda>x. r\<lparr>installable := x\<rparr>) (into_string (installable r) j)
      else map_option (\<lambda>x. r\<lparr>target := x\<rparr>) (into_string (target r) j))"

definition decode_applied :: "string \<Rightarrow> applied_record option" where
  "decode_applied b =
     (case json_parse b of
        None \<Rightarrow> None
      | Some j \<Rightarrow>
          (case into_struct False [''installable'', ''target''] put_applied
                  \<lparr>installable = [], target = []\<rparr> j of
             None \<Rightarrow> None
           | Some r \<Rightarrow> if installable r = [] \<or> target r = [] then None else Some r))"

definition encode_applied :: "applied_record \<Rightarrow> string" where
  "encode_applied r =
     json_indent 0 (JObj [(''installable'', JStr (installable r)), (''target'', JStr (target r))]) @ [LF]"

text \<open>\<open>ok = false\<close> is \<open>None\<close>.\<close>

definition applied :: "store \<Rightarrow> applied_record option io" where
  "applied s =
     seq (attempt (os_readfile (applied_path s))) (\<lambda>r.
     ret (case r of Inl _ \<Rightarrow> None | Inr b \<Rightarrow> decode_applied b))"

definition record_applied :: "store \<Rightarrow> applied_record \<Rightarrow> unit io" where
  "record_applied s r =
     seq (os_mkdir_all (sdir s) o700) (\<lambda>_.
     install_file (sdir s) ''.tmp-applied-'' (applied_path s) (encode_applied r) o600)"

section \<open>Validation and smoke test\<close>

definition unsafe_chars :: string where
  "unsafe_chars = [CHR '':'', CR, LF, SQUOTE, DQUOTE, CHR ''$'', CHR 0x60, BSLASH]"

definition tool_path :: "string \<Rightarrow> string" where
  "tool_path t = path_join [t, ''bin'', required_tool]"

definition validate :: "string \<Rightarrow> unit io" where
  "validate t =
     (if \<not> is_abs t then fail (errorf ''runtime %q is not an absolute path'' [t])
      else if contains_any t unsafe_chars
        then fail (errorf ''runtime path %q contains characters that are unsafe on PATH or in shell configuration'' [t])
      else
        seq (wrap (wrapf ''runtime %s: %w'' [t]) (os_stat t)) (\<lambda>info.
        if fkind info \<noteq> KDir then fail (errorf ''runtime %s is not a directory'' [t])
        else
          seq (wrap (wrapf ''runtime %s does not provide bin/%s: %w'' [t, required_tool])
                 (os_stat (tool_path t))) (\<lambda>ti.
          if fkind ti \<noteq> KReg \<or> fperm ti AND o111 = 0
          then fail (errorf ''runtime %s: bin/%s is not an executable file'' [t, required_tool])
          else ret ())))"

text \<open>The overrides are a Go map; they are listed in the order of the source.\<close>

definition smoke_env :: "string list \<Rightarrow> (string \<times> string) list \<Rightarrow> string list" where
  "smoke_env es overrides =
     filter (\<lambda>e. fst (cut (CHR ''='') e) \<notin> fst ` set overrides) es
     @ map (\<lambda>(k, v). k @ ''='' @ v) overrides"

definition temp_dir :: "string list \<Rightarrow> string" where
  "temp_dir es = (let d = getenv es ''TMPDIR'' in if d = [] then ''/tmp'' else d)"

definition smoke_cmd :: "string list \<Rightarrow> string \<Rightarrow> string \<Rightarrow> cmd" where
  "smoke_cmd es t token =
     \<lparr>exe = tool_path t, argv = [tool_path t, ''--version''],
      cmd_env = Some (smoke_env es
        [(''PATH'', path_join [t, ''bin''] @ '':'' @ getenv es ''PATH''),
         (''FAMILIAR_TIAMAT_URL'', ''http://127.0.0.1''),
         (''FAMILIAR_TIAMAT_TOKEN_FILE'', token)])\<rparr>"

text \<open>What happens once the token file exists; \<open>smoke\<close> removes it afterwards in every case.\<close>

definition smoke_run :: "prog \<Rightarrow> string list \<Rightarrow> string \<Rightarrow> string \<Rightarrow> unit io" where
  "smoke_run ex es t token =
     seq (attempt (os_write token (''smoke-only'' @ [LF]))) (\<lambda>r.
     case r of
       Inl e \<Rightarrow> seq (attempt os_close) (\<lambda>_. fail (wrapf ''write smoke-test token: %w'' [] e))
     | Inr _ \<Rightarrow>
         seq (wrap (wrapf ''close smoke-test token: %w'' []) os_close) (\<lambda>_.
         seq (exec ex (smoke_cmd es t token)) (\<lambda>(out, err).
         case err of
           Some e \<Rightarrow> fail (wrapf ''%s --version failed: %w: %s'' [tool_path t, trim_space out] e)
         | None \<Rightarrow> ret ())))"

definition smoke :: "prog \<Rightarrow> string \<Rightarrow> unit io" where
  "smoke ex t = (\<lambda>w.
     seq (wrap (wrapf ''create smoke-test token: %w'' [])
            (os_create_temp (temp_dir (environ w)) ''familiar-fleet-smoke-token-'')) (\<lambda>token.
     deferring (smoke_run ex (environ w) t token) (os_remove token)) w)"

section \<open>Pointers\<close>

definition pointer :: "store \<Rightarrow> string \<Rightarrow> string io" where
  "pointer s name =
     (let link = path_join [sdir s, name] in
      seq (attempt (os_lstat link)) (\<lambda>r.
      case r of
        Inl e \<Rightarrow> if errors_is e (Errno ENOENT) then fail ErrNoRuntime else fail e
      | Inr info \<Rightarrow>
          if fkind info \<noteq> KLnk
          then fail (errorf ''%s exists but is not a symlink; remove it and re-run runtime apply'' [link])
          else
            seq (os_readlink link) (\<lambda>t.
            if is_abs t then ret t else fail (errorf ''%s points at relative path %q'' [link, t]))))"

text \<open>The \<open>Status\<close> of the source: each pointer's value and error.\<close>

record status =
  st_dir :: string
  st_current :: "goerr + string"
  st_current_err :: "goerr option"
  st_previous :: "goerr + string"
  st_previous_err :: "goerr option"

definition pointer_status :: "store \<Rightarrow> string \<Rightarrow> ((goerr + string) \<times> goerr option) io" where
  "pointer_status s name =
     seq (attempt (pointer s name)) (\<lambda>r.
     case r of
       Inl e \<Rightarrow> ret (r, Some e)
     | Inr t \<Rightarrow> seq (attempt (validate t)) (\<lambda>v. ret (r, case v of Inl e \<Rightarrow> Some e | Inr _ \<Rightarrow> None)))"

definition store_status :: "store \<Rightarrow> status io" where
  "store_status s =
     seq (pointer_status s current_name) (\<lambda>(c, ce).
     seq (pointer_status s previous_name) (\<lambda>(p, pe).
     ret \<lparr>st_dir = sdir s, st_current = c, st_current_err = ce, st_previous = p, st_previous_err = pe\<rparr>))"

definition ready :: "store \<Rightarrow> string io" where
  "ready s =
     seq (attempt (pointer s current_name)) (\<lambda>r.
     case r of
       Inl e \<Rightarrow>
         if errors_is e ErrNoRuntime
         then fail (wrapf ''%w; run: familiar-fleet runtime apply github:gisikw/familiar/<commit>#familiar-worker-runtime'' [] ErrNoRuntime)
         else fail e
     | Inr c \<Rightarrow>
         seq (wrap (wrapf ''activated runtime is unusable (%w); run: familiar-fleet runtime rollback, or runtime apply a known-good installable'' [])
                (validate c)) (\<lambda>_.
         ret c))"

definition replace_symlink :: "string \<Rightarrow> string \<Rightarrow> unit io" where
  "replace_symlink link t =
     seq (attempt (os_lstat link)) (\<lambda>r.
     if (case r of Inl _ \<Rightarrow> False | Inr info \<Rightarrow> fkind info \<noteq> KLnk)
     then fail (errorf ''%s exists and is not a symlink'' [link])
     else
       seq (os_mkdir_temp (path_dir link) ''.tmp-link-'') (\<lambda>tmp.
       deferring
         (let tmp_link = path_join [tmp, ''link''] in
          seq (os_symlink t tmp_link) (\<lambda>_. os_rename tmp_link link))
         (os_remove_all tmp)))"

text \<open>The two replacements of \<open>Activate\<close>; \<open>old\<close> is empty when there was no current runtime.\<close>

definition repoint :: "store \<Rightarrow> string \<Rightarrow> string \<Rightarrow> unit io" where
  "repoint s old t =
     seq (only_if (old \<noteq> [])
            (wrap (wrapf ''record previous runtime: %w'' []) (replace_symlink (store_previous s) old))) (\<lambda>_.
     wrap (wrapf ''activate runtime: %w'' []) (replace_symlink (store_current s) t))"

definition activate :: "store \<Rightarrow> string \<Rightarrow> bool io" where
  "activate s t0 =
     (let t = clean t0 in
      seq (validate t) (\<lambda>_.
      seq (os_mkdir_all (sdir s) o700) (\<lambda>_.
      seq (attempt (pointer s current_name)) (\<lambda>r.
      case r of
        Inl e \<Rightarrow>
          if errors_is e ErrNoRuntime then seq (repoint s [] t) (\<lambda>_. ret True) else fail e
      | Inr old \<Rightarrow>
          if old = t then ret False else seq (repoint s old t) (\<lambda>_. ret True)))))"

definition rollback :: "store \<Rightarrow> string io" where
  "rollback s =
     seq (attempt (pointer s previous_name)) (\<lambda>r.
     case r of
       Inl e \<Rightarrow>
         if errors_is e ErrNoRuntime then fail (errorf ''no previous runtime to roll back to'' []) else fail e
     | Inr previous \<Rightarrow>
         seq (wrap (wrapf ''refusing rollback: %w'' []) (validate previous)) (\<lambda>_.
         seq (activate s previous) (\<lambda>_.
         ret previous)))"

section \<open>Garbage-collector roots\<close>

definition nix_store_dir :: string where
  "nix_store_dir = ''/nix/store''"

definition is_store_path :: "string \<Rightarrow> bool" where
  "is_store_path t \<longleftrightarrow> path_dir (clean t) = nix_store_dir"

definition realise_cmd :: "string \<Rightarrow> string \<Rightarrow> string \<Rightarrow> cmd" where
  "realise_cmd nix_store root t =
     \<lparr>exe = nix_store, argv = [''nix-store'', ''--add-root'', root, ''--indirect'', ''--realise'', t],
      cmd_env = None\<rparr>"

definition register_gc_root :: "prog \<Rightarrow> store \<Rightarrow> string \<Rightarrow> string \<Rightarrow> unit io" where
  "register_gc_root ex s nix_store t0 =
     (let t = clean t0; root = path_join [gc_roots s, path_base t] in
      if path_dir t \<noteq> nix_store_dir
      then fail (errorf ''runtime %s is not an immutable /nix/store output'' [t])
      else
        seq (os_mkdir_all (gc_roots s) o700) (\<lambda>_.
        seq (attempt (os_readlink root)) (\<lambda>r.
        case r of
          Inr existing \<Rightarrow>
            if existing = t then ret ()
            else fail (errorf ''GC root %s points at unexpected target %s'' [root, existing])
        | Inl e \<Rightarrow>
            if \<not> errors_is e (Errno ENOENT) then fail (wrapf ''inspect GC root %s: %w'' [root] e)
            else
              seq (exec ex (realise_cmd nix_store root t)) (\<lambda>(out, err).
              case err of
                Some e' \<Rightarrow> fail (wrapf ''register Nix GC root for %s: %w: %s'' [t, trim_space out] e')
              | None \<Rightarrow>
                  seq (attempt (os_readlink root)) (\<lambda>r'.
                  if r' = Inr t then ret ()
                  else fail (errorf ''nix-store did not create expected GC root %s -> %s'' [root, t]))))))"

fun kept_targets :: "store \<Rightarrow> string list \<Rightarrow> string list io" where
  "kept_targets s [] = ret []"
| "kept_targets s (n # ns) =
     seq (attempt (pointer s n)) (\<lambda>r.
     case r of
       Inr t \<Rightarrow> seq (kept_targets s ns) (\<lambda>ts. ret (t # ts))
     | Inl e \<Rightarrow> if errors_is e ErrNoRuntime then kept_targets s ns else fail e)"

fun prune_entries :: "store \<Rightarrow> string list \<Rightarrow> string list \<Rightarrow> unit io" where
  "prune_entries s keep [] = ret ()"
| "prune_entries s keep (n # ns) =
     (let p = path_join [gc_roots s, n] in
      seq (wrap (wrapf ''GC root %s is not a readable symlink: %w'' [p]) (os_readlink p)) (\<lambda>t.
      seq (only_if (t \<notin> set keep) (os_remove p)) (\<lambda>_.
      prune_entries s keep ns)))"

definition prune_gc_roots :: "store \<Rightarrow> unit io" where
  "prune_gc_roots s =
     seq (kept_targets s [current_name, previous_name]) (\<lambda>keep.
     seq (attempt (os_readdir (gc_roots s))) (\<lambda>r.
     case r of
       Inl e \<Rightarrow> if errors_is e (Errno ENOENT) then ret () else fail e
     | Inr entries \<Rightarrow> prune_entries s keep entries))"

definition build_cmd :: "string \<Rightarrow> string \<Rightarrow> cmd" where
  "build_cmd nix inst =
     \<lparr>exe = nix, argv = [nix, ''--extra-experimental-features'', ''nix-command flakes'',
        ''build'', ''--no-link'', ''--print-out-paths'', ''--'', inst], cmd_env = None\<rparr>"

definition build :: "prog \<Rightarrow> string \<Rightarrow> string \<Rightarrow> string io" where
  "build ex nix inst =
     (if is_abs inst then ret (clean inst)
      else if contains_any inst [CHR '' '', TAB, CR, LF]
        then fail (errorf ''installable %q contains whitespace'' [inst])
      else
        seq (exec ex (build_cmd nix inst)) (\<lambda>(out, err).
        case err of
          Some e \<Rightarrow> fail (wrapf ''nix build %s: %w'' [inst] e)
        | None \<Rightarrow>
            (case split_fields out of
               [p] \<Rightarrow> ret p
             | ps \<Rightarrow> fail (errorf ''nix build %s produced %d output paths; expected exactly one''
                             [inst, nat_str (length ps)]))))"

end
