(* ===== verification/StoreFacts.thy ===== *)
theory StoreFacts
  imports Store
begin

text \<open>
  What the operations of the runtime store do, as weakest-precondition rules over the visible tree:
  \<open>validate\<close> and \<open>pointer\<close> only look, \<open>replace_symlink\<close> provides the contract \<open>atomic_update\<close>, and
  \<open>activate\<close>, \<open>rollback\<close>, \<open>record_applied\<close> and \<open>prune_gc_roots\<close> are described on every path.
\<close>

section \<open>Validation\<close>

definition usable :: "world \<Rightarrow> string \<Rightarrow> bool" where
  "usable w t \<longleftrightarrow> is_abs t \<and> \<not> contains_any t unsafe_chars
     \<and> (case node_at True t w of Inr (Dir _) \<Rightarrow> True | _ \<Rightarrow> False)
     \<and> (case node_at True (tool_path t) w of Inr (Reg m _) \<Rightarrow> m AND o111 \<noteq> 0 | _ \<Rightarrow> False)"

lemma usable_same: "same w w' \<Longrightarrow> usable w' t = usable w t"
  by (simp add: usable_def same_node_at)

lemma info_kind [simp]:
  "fkind (info_of n) = KDir \<longleftrightarrow> (\<exists>m. n = Dir m)"
  "fkind (info_of n) = KLnk \<longleftrightarrow> (\<exists>t. n = Lnk t)"
  "fkind (info_of n) = KReg \<longleftrightarrow> (\<exists>m s. n = Reg m s)"
  by (cases n; auto)+

lemma wp_validate [wp]:
  assumes "\<And>e w'. same w w' \<Longrightarrow> \<not> errors_is e ErrNoRuntime \<Longrightarrow> E e w'"
    and "\<And>w'. same w w' \<Longrightarrow> usable w t \<Longrightarrow> Q () w'"
  shows "wp (validate t) Q E w"
proof (cases "is_abs t \<and> \<not> contains_any t unsafe_chars")
  case True
  have ok: "Q () w2"
    if "same w w1" "node_at True t w = Inr (Dir m)" "same w1 w2"
      "node_at True (tool_path t) w1 = Inr (Reg n s)" "0 < n AND o111" for w1 w2 m n s
    using that True by (intro assms(2)) (auto simp: usable_def same_node_at intro: same_trans)
  from True show ?thesis
    by (auto simp: validate_def errorf_def wrapf_def intro!: wp_stat assms(1)) (blast intro: same_trans ok)+
next
  case False
  then show ?thesis
    by (auto simp: validate_def errorf_def intro!: assms)
qed

text \<open>Without faults, \<open>validate\<close> decides \<open>usable\<close> and leaves the world as it was.\<close>

lemma validate_calm: "faults w = [] \<Longrightarrow> snd (validate t w) = w"
  by (auto simp: validate_def fail_def ret_def seq_def wrap_def os_stat_def calm_query
      split: sum.splits)

lemma stat_calm:
  "faults w = [] \<Longrightarrow> os_stat p w
     = ((case node_at True p w of Inl e \<Rightarrow> Inl (Errno e) | Inr n \<Rightarrow> Inr (info_of n)), w)"
  by (cases "node_at True p w") (simp_all add: os_stat_def calm_query)

lemma validate_decides:
  assumes "faults w = []"
  shows "validate t w = (Inr (), w) \<longleftrightarrow> usable w t"
  using assms
  by (cases "node_at True t w"; cases "node_at True (tool_path t) w")
    (auto simp: validate_def fail_def ret_def seq_def wrap_def stat_calm usable_def split: node.splits)

section \<open>The store directory\<close>

definition store_ok :: "store \<Rightarrow> view \<Rightarrow> bool" where
  "store_ok s v \<longleftrightarrow> canonical (sdir s) \<and> real_dir v (elems (sdir s))"

definition loc :: "store \<Rightarrow> string \<Rightarrow> path" where
  "loc s name = elems (sdir s) @ [name]"

lemma loc_inject [simp]: "loc s m = loc s n \<longleftrightarrow> m = n"
  by (simp add: loc_def)

lemma loc_nonempty [simp]: "loc s n \<noteq> []"
  by (simp add: loc_def)

lemma store_ok_upd [simp]: "store_ok s v \<Longrightarrow> store_ok s (v(loc s n := x))"
  by (simp add: store_ok_def loc_def real_dir_upd)

lemma plain_names [simp]:
  "plain ''current''" "plain ''previous''" "plain ''applied.json''" "plain ''gcroots''"
  "plain ''link''" "plain ''bin''" "plain ''pi''"
  by (simp_all add: plain_def)

text \<open>Calls that leave the tree as it is, file by file.\<close>

definition idle :: "world \<Rightarrow> world \<Rightarrow> bool" where
  "idle w w' \<longleftrightarrow> fs w' = fs w \<and> step_ok (\<lambda>f. f = fs w) w w'"

lemma idle_refl [simp, intro]: "idle w w"
  by (simp add: idle_def)

lemma idle_trans: "idle u v \<Longrightarrow> idle v w \<Longrightarrow> idle u w"
  unfolding idle_def by (auto intro: step_ok_trans)

lemma same_idle: "same w w' \<Longrightarrow> idle w w'"
  by (simp add: idle_def same_step_ok same_fs)

lemma idle_quietly: "idle w w' \<Longrightarrow> quietly w w'"
  by (auto simp: idle_def quietly_def intro: step_ok_mono)

lemma idle_node_at: "idle w w' \<Longrightarrow> node_at fl p w' = node_at fl p w"
  by (simp add: idle_def node_at_def step_ok_def)

lemma idle_usable: "idle w w' \<Longrightarrow> usable w' t = usable w t"
  by (simp add: usable_def idle_node_at)

lemma prefix_take: "prefix (take n xs) xs"
  by (simp add: take_is_prefix)

lemma resolve_real_prefix:
  assumes "real_dir (nd f) d" "\<forall>e \<in> set d. plain e" "prefix q d"
  shows "resolve f fl n [] q = Inr q"
  using resolve_real [of q f "[]" fl n "[]"] assms set_mono_prefix [of q d]
  by (auto simp: real_dir_def intro: prefix_order.trans)

lemma wp_mkdir_steps_real:
  assumes "real_dir (nd (fs w)) d" "\<forall>e \<in> set d. plain e" "d = made @ es"
  shows "wp (mkdir_steps m [] made es) (\<lambda>_. idle w) (\<lambda>_. idle w) w"
  using assms
proof (induction es arbitrary: w made)
  case (Cons e es)
  let ?q = "made @ [e]"
  have q: "prefix ?q d" using Cons.prems(3) by simp
  have step: "wp (mkdir_step m [] ?q) (\<lambda>_. idle w) (\<lambda>_. idle w) w"
    unfolding mkdir_step_def
  proof (rule wp_mutate)
    fix x g u w'
    assume a: "same w u" "moved g w w'"
      and f: "bind_ok (resolve (fs u) False max_links [] ?q) (\<lambda>q0.
        bind_ok (resolve (fs u) True max_links [] ?q) (\<lambda>q.
          case nd (fs u) q of
            Some (Dir _) \<Rightarrow> Inr ((), fs u)
          | Some _ \<Rightarrow> Inl ENOTDIR
          | None \<Rightarrow> if q0 = q then Inr ((), fs_upd q (Dir m) (fs u)) else Inl EEXIST)) = Inr (x, g)"
    from Cons.prems(1) q have "\<exists>k. nd (fs w) ?q = Some (Dir k)" by (simp add: real_dir_def)
    with f have "g = fs w"
      using resolve_real_prefix [OF Cons.prems(1,2) q] by (auto simp: same_fs [OF a(1)])
    with a(2) show "idle w w'"
      by (auto simp: idle_def moved_def intro!: moved_step_ok [OF a(2)])
  qed (rule same_idle)
  have rest: "wp (mkdir_steps m [] ?q es) (\<lambda>_. idle w) (\<lambda>_. idle w) w1" if "idle w w1" for w1
  proof (rule wp_mono)
    show "wp (mkdir_steps m [] ?q es) (\<lambda>_. idle w1) (\<lambda>_. idle w1) w1"
      using Cons.prems that by (intro Cons.IH) (auto simp: idle_def)
  qed (auto intro: idle_trans [OF that])
  show ?case
    unfolding mkdir_steps.simps wp_seq by (rule wp_mono [OF step]) (auto intro: rest)
qed simp

lemma wp_mkdir_all_real:
  assumes "canonical d" "real_dir (vis (fs w)) (elems d)"
  shows "wp (os_mkdir_all d m) (\<lambda>_. idle w) (\<lambda>_. idle w) w"
proof -
  from assms(1) have "is_abs d" by (simp add: canonical_def)
  moreover have "wp (mkdir_steps m [] [] (elems d)) (\<lambda>_. idle w) (\<lambda>_. idle w) w"
    using assms canonical_elems by (intro wp_mkdir_steps_real) (auto simp: real_dir_nd)
  ultimately show ?thesis by (simp add: wp_def os_mkdir_all_def)
qed

section \<open>Pointers\<close>

lemma store_path:
  assumes "store_ok s v" "plain n"
  shows "canonical (path_join [sdir s, n])" "elems (path_join [sdir s, n]) = loc s n"
  using assms path_join_canonical [of "sdir s" "[n]"] by (simp_all add: store_ok_def loc_def)

lemma store_entry:
  assumes "store_ok s (vis (fs w))" "plain n"
  shows "entry w (path_join [sdir s, n]) (elems (sdir s)) n"
  using assms store_path [OF assms] by (intro entryI) (simp_all add: store_ok_def loc_def)

lemma vis_loc:
  assumes "store_ok s (vis f)" "\<not> temp_name n"
  shows "vis f (loc s n) = nd f (loc s n)" "\<not> hidden (loc s n)"
proof -
  from assms have "\<not> hidden (loc s n)"
    using real_dir_visible [of f "elems (sdir s)"] by (simp add: store_ok_def loc_def)
  then show "vis f (loc s n) = nd f (loc s n)" "\<not> hidden (loc s n)" by (simp_all add: vis_visible)
qed

lemma pointer_node:
  assumes "store_ok s (vis (fs w))" "plain n" "\<not> temp_name n"
  shows "node_at False (path_join [sdir s, n]) w
     = (case vis (fs w) (loc s n) of None \<Rightarrow> Inl ENOENT | Some x \<Rightarrow> Inr x)"
  using assms entry_node_at [OF store_entry [OF assms(1,2)]] by (simp add: vis_loc) (simp add: loc_def)

lemma wp_pointer:
  assumes st: "store_ok s (vis (fs w))" "plain n" "\<not> temp_name n"
    and E: "\<And>e w'. same w w' \<Longrightarrow> errors_is e ErrNoRuntime \<Longrightarrow> vis (fs w) (loc s n) = None \<Longrightarrow> e = ErrNoRuntime \<Longrightarrow> E e w'"
      "\<And>e w'. same w w' \<Longrightarrow> \<not> errors_is e ErrNoRuntime \<Longrightarrow> E e w'"
    and Q: "\<And>t w'. same w w' \<Longrightarrow> vis (fs w) (loc s n) = Some (Lnk t) \<Longrightarrow> is_abs t \<Longrightarrow> Q t w'"
  shows "wp (pointer s n) Q E w"
proof -
  define link where "link = path_join [sdir s, n]"
  note node = pointer_node [OF st, folded link_def]
  have vis': "vis (fs w) (loc s n) = Some x" if "node_at False link w = Inr x" for x
    using that node by (simp split: option.splits)
  have none: "vis (fs w) (loc s n) = None" if "node_at False link w = Inl ENOENT"
    using that node by (simp split: option.splits)
  have read: "wp (os_readlink link) (\<lambda>t w'. (is_abs t \<longrightarrow> Q t w')
      \<and> (\<not> is_abs t \<longrightarrow> E (errorf f [link, t]) w')) E w1" if "same w w1" for w1 f
    by (rule wp_readlink)
      (auto intro!: E(2) Q vis' elim: same_trans [OF that] simp: errorf_def same_node_at [OF that])
  show ?thesis
    unfolding pointer_def Let_def link_def [symmetric] wp_seq wp_attempt
  proof (rule wp_lstat)
    fix e w'
    assume s: "same w w'" and e: "e \<noteq> ENOENT \<or> node_at False link w = Inl e"
    show "wp (case Inl (Errno e) of
          Inl e \<Rightarrow> if errors_is e (Errno ENOENT) then fail ErrNoRuntime else fail e
        | Inr info \<Rightarrow> if fkind info \<noteq> KLnk then fail (errorf ''%s exists but is not a symlink; remove it and re-run runtime apply'' [link])
            else seq (os_readlink link) (\<lambda>t. if is_abs t then ret t else fail (errorf ''%s points at relative path %q'' [link, t])))
        Q E w'"
      using E(1) [OF s _ none] E(2) [OF s, of "Errno e"] e by (cases "e = ENOENT") simp_all
  next
    fix x w'
    assume "same w w'"
    then show "wp (case Inr (info_of x) of
          Inl e \<Rightarrow> if errors_is e (Errno ENOENT) then fail ErrNoRuntime else fail e
        | Inr info \<Rightarrow> if fkind info \<noteq> KLnk then fail (errorf ''%s exists but is not a symlink; remove it and re-run runtime apply'' [link])
            else seq (os_readlink link) (\<lambda>t. if is_abs t then ret t else fail (errorf ''%s points at relative path %q'' [link, t])))
        Q E w'"
      using read by (auto intro!: E(2) simp: errorf_def wp_if_split)
  qed
qed

text \<open>The link or nothing that a well-formed store has under a name.\<close>

definition link_of :: "view \<Rightarrow> store \<Rightarrow> string \<Rightarrow> string option" where
  "link_of v s n = (case v (loc s n) of Some (Lnk t) \<Rightarrow> Some t | _ \<Rightarrow> None)"

section \<open>Replacing a link\<close>

text \<open>Making the link inside the temporary directory and renaming it over the old one.\<close>

lemma wp_swap_in:
  assumes tmp: "canonical tmp" "elems tmp = d @ [b]" "temp_name b"
    and w: "real_dir (vis (fs w)) d" "nd (fs w) (d @ [b]) = Some (Dir m)"
    and link: "canonical link" "elems link = d @ [c]" "\<not> temp_name c"
  shows "wp (seq (os_symlink t (path_join [tmp, ''link''])) (\<lambda>_. os_rename (path_join [tmp, ''link'']) link))
    (\<lambda>_. commits (vis (fs w)) (d @ [c]) (Lnk t) w) (\<lambda>_. quietly w) w"
proof -
  let ?l = "path_join [tmp, ''link'']" and ?L = "(d @ [b]) @ [''link'']"
  have l: "canonical ?l" "elems ?l = ?L"
    using path_join_canonical [OF tmp(1), of "[''link'']"] tmp(2) by simp_all
  have hid: "hidden ?L" using tmp(3) by simp
  have rd: "real_dir (nd (fs w)) (d @ [b])"
    using w real_dir_nd by (simp add: real_dir_snoc)
  have vis_c: "\<not> hidden (d @ [c])" using real_dir_visible [OF w(1)] link(3) by simp
  have ren: "wp (os_rename ?l link) (\<lambda>_. commits (vis (fs w)) (d @ [c]) (Lnk t) w) (\<lambda>_. quietly w) w1"
    if q: "quietly w w1" and n: "nd (fs w1) = (nd (fs w))(elems ?l \<mapsto> Lnk t)" for w1
  proof -
    have "real_dir (nd (fs w1)) (d @ [b])"
      using rd n l(2) by (auto intro!: real_dir_upd)
    then have src: "entry w1 ?l (d @ [b]) ''link''" using l by (simp add: entry_def)
    have dst: "entry w1 link d c"
      using link w(1) quietly_vis [OF q] by (intro entryI) auto
    have "wp (os_rename ?l link)
        (\<lambda>_ w'. vis (fs w') = (vis (fs w1))(d @ [c] \<mapsto> Lnk t)
           \<and> step_ok (\<lambda>f. vis f = (vis (fs w1))(d @ [c] \<mapsto> Lnk t)) w1 w'
           \<and> (\<exists>f \<in> set (hist w'). vis f = (vis (fs w1))(d @ [c] \<mapsto> Lnk t)))
        (\<lambda>_ w'. quietly w1 w') w1"
      by (rule wp_rename_commit [OF src hid _ _ dst vis_c]) (use n l(2) in auto)
    then show ?thesis
      using q quietly_vis [OF q]
      by (elim wp_mono)
        (auto simp: commits_def intro: quietly_trans step_ok_trans step_ok_mono
          dest: quietly_steps [where P = "\<lambda>f. vis f = vis (fs w) \<or> vis f = (vis (fs w))(d @ [c] \<mapsto> Lnk t)"])
  qed
  have "entry w ?l (d @ [b]) ''link''" using l rd by (simp add: entry_def)
  from wp_symlink_hidden [OF this hid, of t] show ?thesis
    unfolding wp_seq by (rule wp_mono) (use ren in blast)+
qed

lemma wp_replace_symlink:
  assumes "file_ready link (vis (fs w))"
  shows "wp (replace_symlink link t) (\<lambda>_. commits (vis (fs w)) (elems link) (Lnk t) w) (\<lambda>_. quietly w) w"
  using assms
proof (rule file_ready_entry)
  fix d c
  assume link: "elems link = d @ [c]" "canonical link" "\<not> temp_name c"
    and d: "real_dir (vis (fs w)) d" "canonical (path_dir link)" "elems (path_dir link) = d"
  let ?Q = "commits (vis (fs w)) (d @ [c]) (Lnk t)"
  have rd: "real_dir (vis (fs w')) d" if "commits (vis (fs w)) (d @ [c]) (Lnk t) w w' \<or> quietly w w'" for w'
    using that d(1) by (auto simp: commits_def quietly_vis real_dir_upd)
  have tidy: "wp (os_remove_all tmp) (\<lambda>_. P) (\<lambda>_. P) w'"
    if t: "canonical tmp" "elems tmp = d @ [b]" "temp_name b"
      and w': "?Q w w' \<or> quietly w w'" and P: "\<And>w''. quietly w' w'' \<Longrightarrow> P w''" for tmp b w' P
  proof -
    from rd [OF w'] t have "entry w' tmp d b" by (intro entryI)
    moreover have "hidden (d @ [b])" using t(3) by simp
    ultimately show ?thesis
      by (rule wp_mono [OF wp_remove_all_hidden]) (rule P, assumption)+
  qed
  have after_commit: "?Q w w''" if "?Q w w'" "quietly w' w''" for w' w''
    using that by (rule commits_quietly)
  have body: "wp (deferring
         (let tmp_link = path_join [tmp, ''link''] in
          seq (os_symlink t tmp_link) (\<lambda>_. os_rename tmp_link link))
         (os_remove_all tmp)) (\<lambda>_. ?Q w) (\<lambda>_. quietly w) w1"
    if q: "quietly w w1" "nd (fs w1) (elems tmp) = Some (Dir m)"
      and t: "canonical tmp" "elems tmp = d @ [b]" "temp_name b" for w1 tmp b m
  proof -
    have "wp (seq (os_symlink t (path_join [tmp, ''link''])) (\<lambda>_. os_rename (path_join [tmp, ''link'']) link))
        (\<lambda>_. commits (vis (fs w1)) (d @ [c]) (Lnk t) w1) (\<lambda>_. quietly w1) w1"
      using t q rd link by (intro wp_swap_in) auto
    then show ?thesis
      unfolding wp_deferring Let_def
    proof (rule wp_mono)
      fix u w'
      assume "commits (vis (fs w1)) (d @ [c]) (Lnk t) w1 w'"
      with q(1) have Q: "?Q w w'" by (rule quietly_commits)
      show "wp (os_remove_all tmp) (\<lambda>_. ?Q w) (\<lambda>_. ?Q w) w'"
        by (rule tidy [OF t]) (use Q after_commit in auto)
    next
      fix e w'
      assume "quietly w1 w'"
      with q(1) have q': "quietly w w'" by (rule quietly_trans)
      show "wp (os_remove_all tmp) (\<lambda>_. quietly w) (\<lambda>_. quietly w) w'"
        by (rule tidy [OF t]) (use q' quietly_trans in auto)
    qed
  qed
  have make: "wp (seq (os_mkdir_temp (path_dir link) ''.tmp-link-'') (\<lambda>tmp.
       deferring
         (let tmp_link = path_join [tmp, ''link''] in
          seq (os_symlink t tmp_link) (\<lambda>_. os_rename tmp_link link))
         (os_remove_all tmp))) (\<lambda>_. ?Q w) (\<lambda>_. quietly w) w1" if "same w w1" for w1
  proof -
    have "wp (os_mkdir_temp (path_dir link) ''.tmp-link-'')
      (\<lambda>t w'. quietly w1 w' \<and> nd (fs w') (elems t) = Some (Dir o700)
         \<and> (\<exists>c. canonical t \<and> elems t = elems (path_dir link) @ [c] \<and> temp_name c))
      (\<lambda>_ w'. quietly w1 w') w1"
      unfolding os_mkdir_temp_def
      by (rule wp_make_temp) (use d that in \<open>auto simp: same_fs\<close>)
    then show ?thesis
      unfolding wp_seq [of "os_mkdir_temp (path_dir link) ''.tmp-link-''"]
      by (rule wp_mono) (use body d(3) quietly_trans [OF same_quietly [OF that]] in blast)+
  qed
  show ?thesis
    unfolding replace_symlink_def wp_seq [of "attempt (os_lstat link)"] wp_attempt link(1)
    by (rule wp_lstat) (auto simp del: wp_seq intro: make same_quietly)
qed

text \<open>A link request: the link's path and its new target.\<close>

type_synonym link_req = "string \<times> string"

fun link_op :: "link_req \<Rightarrow> unit io" where
  "link_op (link, t) = replace_symlink link t"

fun link_dest :: "link_req \<Rightarrow> path" where
  "link_dest (link, t) = elems link"

fun link_val :: "link_req \<Rightarrow> node" where
  "link_val (link, t) = Lnk t"

fun link_ready :: "link_req \<Rightarrow> view \<Rightarrow> bool" where
  "link_ready (link, t) v = file_ready link v"

interpretation link_swap: atomic_update link_op link_dest link_val link_ready
proof
  fix a :: link_req and w :: world
  assume "link_ready a (vis (fs w))"
  then show "wp (link_op a) (\<lambda>_. commits (vis (fs w)) (link_dest a) (link_val a) w) (\<lambda>_. quietly w) w"
    by (cases a) (simp add: wp_replace_symlink)
qed

section \<open>Activation\<close>

text \<open>
  The three views an activation of \<open>t\<close> can leave: the old one, the one in which \<open>previous\<close> already
  names the old current runtime, and the finished one.
\<close>

definition half_activated :: "view \<Rightarrow> store \<Rightarrow> view" where
  "half_activated v s =
     (case link_of v s current_name of None \<Rightarrow> v | Some old \<Rightarrow> v(loc s previous_name \<mapsto> Lnk old))"

definition activated :: "view \<Rightarrow> store \<Rightarrow> string \<Rightarrow> view" where
  "activated v s t = (half_activated v s)(loc s current_name \<mapsto> Lnk t)"

lemma link_of_upd [simp]:
  "link_of (v(loc s n \<mapsto> Lnk t)) s m = (if m = n then Some t else link_of v s m)"
  by (auto simp: link_of_def)

lemma half_activated_facts:
  "link_of (half_activated v s) s ''current'' = link_of v s ''current''"
  "link_of (half_activated v s) s ''previous'' =
     (case link_of v s ''current'' of None \<Rightarrow> link_of v s ''previous'' | Some old \<Rightarrow> Some old)"
  "p \<noteq> loc s ''previous'' \<Longrightarrow> half_activated v s p = v p"
  by (auto simp: half_activated_def split: option.split)

lemma activated_facts:
  "link_of (activated v s t) s ''current'' = Some t"
  "link_of (activated v s t) s ''previous'' = link_of (half_activated v s) s ''previous''"
  "p \<noteq> loc s ''current'' \<Longrightarrow> p \<noteq> loc s ''previous'' \<Longrightarrow> activated v s t p = v p"
  by (auto simp: activated_def half_activated_facts)

lemma store_ok_activated: "store_ok s v \<Longrightarrow> store_ok s (activated v s t)"
  by (auto simp: activated_def half_activated_def split: option.split)

lemma ready_name:
  assumes "store_ok s v" "plain n" "\<not> temp_name n"
  shows "file_ready (path_join [sdir s, n]) v"
  using assms store_path [OF assms(1,2)] by (simp add: file_ready_def loc_def store_ok_def)

lemma wp_repoint:
  assumes st: "store_ok s (vis (fs w))"
    and old: "case link_of (vis (fs w)) s current_name of None \<Rightarrow> old = [] | Some x \<Rightarrow> old = x \<and> old \<noteq> []"
  shows "wp (repoint s old t)
    (\<lambda>_ w'. vis (fs w') = activated (vis (fs w)) s t
       \<and> step_ok (\<lambda>f. vis f \<in> {vis (fs w), half_activated (vis (fs w)) s, activated (vis (fs w)) s t}) w w'
       \<and> (link_of (vis (fs w)) s current_name \<noteq> None \<longrightarrow> (\<exists>f \<in> set (hist w'). vis f = half_activated (vis (fs w)) s)))
    (\<lambda>_ w'. vis (fs w') \<in> {vis (fs w), half_activated (vis (fs w)) s}
       \<and> step_ok (\<lambda>f. vis f \<in> {vis (fs w), half_activated (vis (fs w)) s}) w w') w"
proof -
  let ?v = "vis (fs w)"
  have ready: "file_ready (store_current s) v \<and> file_ready (store_previous s) v" if "store_ok s v" for v
    using ready_name [OF that] by (simp add: store_current_def store_previous_def)
  have dest: "elems (store_current s) = loc s current_name" "elems (store_previous s) = loc s previous_name"
    using store_path(2) [OF st] by (simp_all add: store_current_def store_previous_def)
  show ?thesis
  proof (cases "link_of ?v s current_name")
    case None
    with old have "old = []" by simp
    with None have e: "repoint s old t
        = seq (ret ()) (\<lambda>_. wrap (wrapf ''activate runtime: %w'' []) (replace_symlink (store_current s) t))"
      by (simp add: repoint_def only_if_def)
    show ?thesis
      unfolding e wp_seq wp_ret wp_wrap
      by (rule wp_mono [OF wp_replace_symlink])
        (use None ready [OF st] in \<open>auto simp: commits_def activated_def half_activated_def dest quietly_def
          elim: step_ok_mono\<close>)
  next
    case (Some x)
    let ?a = "(store_previous s, old)" and ?b = "(store_current s, t)"
    from Some old have "old \<noteq> []" by auto
    then have "repoint s old t = seq (wrap (wrapf ''record previous runtime: %w'' []) (link_op ?a))
        (\<lambda>_. wrap (wrapf ''activate runtime: %w'' []) (link_op ?b))"
      by (simp add: repoint_def only_if_def)
    moreover have "link_ready ?a ?v" "link_ready ?b (?v(link_dest ?a \<mapsto> link_val ?a))"
      using ready [OF st] ready [OF store_ok_upd [OF st]] by (simp_all add: dest)
    ultimately show ?thesis
      using link_swap.in_sequence [of ?a w ?b] Some old
      by (simp only: link_dest.simps link_val.simps dest activated_def half_activated_def option.case option.simps simp_thms)
  qed
qed

lemma wp_activate:
  assumes st: "store_ok s (vis (fs w))"
  shows "wp (activate s t0)
    (\<lambda>b w'. usable w (clean t0)
       \<and> (b \<longrightarrow> link_of (vis (fs w)) s current_name \<noteq> Some (clean t0)
            \<and> vis (fs w') = activated (vis (fs w)) s (clean t0)
            \<and> step_ok (\<lambda>f. vis f \<in> {vis (fs w), half_activated (vis (fs w)) s,
                 activated (vis (fs w)) s (clean t0)}) w w'
            \<and> (link_of (vis (fs w)) s current_name \<noteq> None \<longrightarrow> (\<exists>f \<in> set (hist w'). vis f = half_activated (vis (fs w)) s)))
       \<and> (\<not> b \<longrightarrow> link_of (vis (fs w)) s current_name = Some (clean t0) \<and> idle w w'))
    (\<lambda>_ w'. vis (fs w') \<in> {vis (fs w), half_activated (vis (fs w)) s}
       \<and> step_ok (\<lambda>f. vis f \<in> {vis (fs w), half_activated (vis (fs w)) s}) w w') w"
    (is "wp _ ?Q ?E w")
proof -
  let ?t = "clean t0" and ?v = "vis (fs w)"
  have err: "?E e w'" if "idle w w'" for e w'
    using that by (auto simp: idle_def intro: step_ok_mono)
  have moveit: "wp (seq (repoint s old ?t) (\<lambda>_. ret True)) ?Q ?E w2"
    if w2: "idle w w2" and u: "usable w ?t" and ne: "link_of ?v s current_name \<noteq> Some ?t"
      and old: "case link_of ?v s current_name of None \<Rightarrow> old = [] | Some x \<Rightarrow> old = x \<and> old \<noteq> []"
    for w2 old
  proof -
    have fs2: "fs w2 = fs w" and pre: "step_ok P w w2" if "P (fs w)" for P
      using w2 that by (auto simp: idle_def intro: step_ok_mono)
    show ?thesis
      unfolding wp_seq wp_ret
      by (rule wp_mono [OF wp_repoint [of s w2 old ?t]])
        (use st old u ne fs2 in \<open>auto intro: step_ok_trans [OF pre]\<close>)
  qed
  have look: "wp (attempt (pointer s current_name)) (\<lambda>r. wp (case r of
        Inl e \<Rightarrow> if errors_is e ErrNoRuntime then seq (repoint s [] ?t) (\<lambda>_. ret True) else fail e
      | Inr old \<Rightarrow> if old = ?t then ret False else seq (repoint s old ?t) (\<lambda>_. ret True)) ?Q ?E) ?E w1"
    if w1: "idle w w1" and u: "usable w ?t" for w1
  proof -
    have fs1: "fs w1 = fs w" using w1 by (simp add: idle_def)
    have later: "idle w w2" if "same w1 w2" for w2
      using idle_trans [OF w1 same_idle [OF that]] .
    show ?thesis
      unfolding wp_attempt
    proof (rule wp_pointer)
      show "store_ok s (vis (fs w1))" using st fs1 by simp
    next
      fix e w'
      assume s: "same w1 w'" and n: "vis (fs w1) (loc s current_name) = None" "e = ErrNoRuntime"
      then have "link_of ?v s current_name = None" by (simp add: link_of_def fs1)
      then have "wp (seq (repoint s [] ?t) (\<lambda>_. ret True)) ?Q ?E w'"
        by (intro moveit later s u) simp_all
      with n(2) show "wp (case Inl e of
        Inl e \<Rightarrow> if errors_is e ErrNoRuntime then seq (repoint s [] ?t) (\<lambda>_. ret True) else fail e
      | Inr old \<Rightarrow> if old = ?t then ret False else seq (repoint s old ?t) (\<lambda>_. ret True)) ?Q ?E w'"
        by (simp del: wp_seq)
    next
      fix e w'
      assume "same w1 w'" "\<not> errors_is e ErrNoRuntime"
      with err [OF later] show "wp (case Inl e of
        Inl e \<Rightarrow> if errors_is e ErrNoRuntime then seq (repoint s [] ?t) (\<lambda>_. ret True) else fail e
      | Inr old \<Rightarrow> if old = ?t then ret False else seq (repoint s old ?t) (\<lambda>_. ret True)) ?Q ?E w'"
        by simp
    next
      fix x w'
      assume s: "same w1 w'" and x: "vis (fs w1) (loc s current_name) = Some (Lnk x)" "is_abs x"
      from x have l: "link_of ?v s current_name = Some x" and "x \<noteq> []"
        by (auto simp: link_of_def fs1)
      then have "wp (seq (repoint s x ?t) (\<lambda>_. ret True)) ?Q ?E w'" if "x \<noteq> ?t"
        using that by (intro moveit later s u) simp_all
      then show "wp (case Inr x of
        Inl e \<Rightarrow> if errors_is e ErrNoRuntime then seq (repoint s [] ?t) (\<lambda>_. ret True) else fail e
      | Inr old \<Rightarrow> if old = ?t then ret False else seq (repoint s old ?t) (\<lambda>_. ret True)) ?Q ?E w'"
        using later [OF s] l u by (simp del: wp_seq)
    qed (simp_all add: temp_name_def)
  qed
  have mk: "wp (os_mkdir_all (sdir s) o700) (\<lambda>_. idle w1) (\<lambda>_. idle w1) w1" if "same w w1" for w1
    using st that by (intro wp_mkdir_all_real) (auto simp: store_ok_def same_fs)
  show ?thesis
    unfolding activate_def Let_def wp_seq
  proof (rule wp_validate)
    fix w1
    assume s: "same w w1" and u: "usable w ?t"
    show "wp (os_mkdir_all (sdir s) o700) (\<lambda>_. wp (attempt (pointer s current_name)) (\<lambda>r. wp (case r of
        Inl e \<Rightarrow> if errors_is e ErrNoRuntime then seq (repoint s [] ?t) (\<lambda>_. ret True) else fail e
      | Inr old \<Rightarrow> if old = ?t then ret False else seq (repoint s old ?t) (\<lambda>_. ret True)) ?Q ?E) ?E) ?E w1"
      by (rule wp_mono [OF mk [OF s]])
        (use look u err idle_trans [OF same_idle [OF s]] in blast)+
  qed (use err same_idle in blast)
qed

section \<open>Rollback\<close>

definition rolled_back :: "view \<Rightarrow> store \<Rightarrow> string \<Rightarrow> view" where
  "rolled_back v s p =
     (if link_of v s current_name = Some (clean p) then v else activated v s (clean p))"

lemma wp_rollback:
  assumes st: "store_ok s (vis (fs w))"
  shows "wp (rollback s)
    (\<lambda>p w'. link_of (vis (fs w)) s previous_name = Some p \<and> usable w p \<and> usable w (clean p)
       \<and> vis (fs w') = rolled_back (vis (fs w)) s p)
    (\<lambda>_ w'. vis (fs w') = vis (fs w)
       \<or> (vis (fs w') = half_activated (vis (fs w)) s
          \<and> (\<exists>p. link_of (vis (fs w)) s previous_name = Some p \<and> usable w p))) w"
    (is "wp _ ?Q ?E w")
proof -
  have err: "?E e w'" if "same w w'" for e w'
    using that by (simp add: same_fs)
  have go: "wp (activate s p) (\<lambda>_. wp (ret p) ?Q ?E) ?E w1"
    if s: "same w w1" and p: "link_of (vis (fs w)) s previous_name = Some p" "usable w p" for w1 p
  proof -
    have "wp (activate s p) (\<lambda>b w'. usable w1 (clean p)
         \<and> (b \<longrightarrow> link_of (vis (fs w1)) s current_name \<noteq> Some (clean p)
            \<and> vis (fs w') = activated (vis (fs w1)) s (clean p)
            \<and> step_ok (\<lambda>f. vis f \<in> {vis (fs w1), half_activated (vis (fs w1)) s,
                 activated (vis (fs w1)) s (clean p)}) w1 w'
            \<and> (link_of (vis (fs w1)) s current_name \<noteq> None \<longrightarrow> (\<exists>f \<in> set (hist w'). vis f = half_activated (vis (fs w1)) s)))
         \<and> (\<not> b \<longrightarrow> link_of (vis (fs w1)) s current_name = Some (clean p) \<and> idle w1 w'))
       (\<lambda>_ w'. vis (fs w') \<in> {vis (fs w1), half_activated (vis (fs w1)) s}
         \<and> step_ok (\<lambda>f. vis f \<in> {vis (fs w1), half_activated (vis (fs w1)) s}) w1 w') w1"
      using st s by (intro wp_activate) (simp add: same_fs)
    then show ?thesis
      using s p by (elim wp_mono)
        (auto simp: rolled_back_def same_fs usable_same idle_def split: if_splits)
  qed
  show ?thesis
    unfolding rollback_def wp_seq [of "attempt (pointer s previous_name)"] wp_attempt
  proof (rule wp_pointer [OF st])
    fix p w1
    assume s: "same w w1" and p: "vis (fs w) (loc s previous_name) = Some (Lnk p)"
    have "wp (validate p) (\<lambda>_. wp (activate s p) (\<lambda>_. wp (ret p) ?Q ?E) ?E)
        (\<lambda>e. ?E (wrapf ''refusing rollback: %w'' [] e)) w1"
    proof (rule wp_validate)
      fix w2
      assume "same w1 w2" "usable w1 p"
      then show "wp (activate s p) (\<lambda>_. wp (ret p) ?Q ?E) ?E w2"
        using s p by (intro go) (auto simp: link_of_def usable_same intro: same_trans)
    qed (use err same_trans [OF s] in blast)
    then show "wp (case Inr p of
       Inl e \<Rightarrow>
         if errors_is e ErrNoRuntime then fail (errorf ''no previous runtime to roll back to'' []) else fail e
     | Inr previous \<Rightarrow>
         seq (wrap (wrapf ''refusing rollback: %w'' []) (validate previous)) (\<lambda>_.
         seq (activate s previous) (\<lambda>_. ret previous))) ?Q ?E w1" by simp
  qed (simp_all add: same_fs temp_name_def)
qed

section \<open>Provenance\<close>

lemma decode_encode_applied:
  assumes "valid_utf8 (installable r)" "valid_utf8 (target r)" "installable r \<noteq> []" "target r \<noteq> []"
  shows "decode_applied (encode_applied r) = Some r"
proof -
  have "valid_utf8 ''installable''" "valid_utf8 ''target''" by code_simp+
  then have "json_parse (encode_applied r)
      = Some (JObj [(''installable'', JStr (installable r)), (''target'', JStr (target r))])"
    unfolding encode_applied_def using assms by (intro json_roundtrip_line) simp
  then show ?thesis
    using assms by (simp add: decode_applied_def into_struct_def field_of_def put_applied_def into_string_def)
qed

lemma wp_record_applied:
  assumes st: "store_ok s (vis (fs w))"
  shows "wp (record_applied s r)
    (\<lambda>_. commits (vis (fs w)) (loc s applied_name) (Reg o600 (encode_applied r)) w) (\<lambda>_. quietly w) w"
proof -
  have dir: "canonical (sdir s)" "real_dir (vis (fs w)) (elems (sdir s))"
    using st by (simp_all add: store_ok_def)
  have path: "canonical (applied_path s)" "elems (applied_path s) = loc s applied_name"
    using store_path [OF st, of applied_name] by (simp_all add: applied_path_def)
  have install: "wp (install_file (sdir s) ''.tmp-applied-'' (applied_path s) (encode_applied r) o600)
      (\<lambda>_. commits (vis (fs w)) (loc s applied_name) (Reg o600 (encode_applied r)) w) (\<lambda>_. quietly w) w1"
    if q: "quietly w w1" for w1
  proof -
    have "wp (install_file (sdir s) ''.tmp-applied-'' (applied_path s) (encode_applied r) o600)
      (\<lambda>_. commits (vis (fs w1)) (elems (applied_path s)) (Reg o600 (encode_applied r)) w1) (\<lambda>_. quietly w1) w1"
      by (rule wp_install_file) (use dir path quietly_vis [OF q] in \<open>auto simp: loc_def\<close>)
    then show ?thesis
      using q path(2)
      by (elim wp_mono) (auto intro: quietly_commits quietly_trans)
  qed
  show ?thesis
    unfolding record_applied_def wp_seq
    by (rule wp_mono [OF wp_mkdir_all_real [OF dir]]) (use install idle_quietly in blast)+
qed

section \<open>Pruning\<close>

definition pruned :: "view \<Rightarrow> path \<Rightarrow> string set \<Rightarrow> string set \<Rightarrow> view" where
  "pruned v g keep ns p =
     (if \<exists>n \<in> ns. \<exists>t. p = g @ [n] \<and> v p = Some (Lnk t) \<and> t \<notin> keep then None else v p)"

lemma pruned_empty [simp]: "pruned v g keep {} = v"
  by (simp add: pruned_def fun_eq_iff)

lemma pruned_insert:
  "pruned v g keep (insert n ns) =
     pruned (if \<exists>t. v (g @ [n]) = Some (Lnk t) \<and> t \<notin> keep then v(g @ [n] := None) else v) g keep ns"
  by (auto simp: pruned_def fun_eq_iff)

lemma real_dir_del_entry: "real_dir v g \<Longrightarrow> real_dir (v(g @ [n] := x)) g"
  by (rule real_dir_upd) auto

lemma wp_remove_link:
  assumes e: "entry w p d c" and l: "node_at False p w = Inr (Lnk t)" and d: "\<not> hidden d"
  shows "wp (os_remove p) (\<lambda>_ w'. vis (fs w') = (vis (fs w))(d @ [c] := None)
     \<and> step_ok (\<lambda>f. vis f = (vis (fs w))(d @ [c] := None)) w w') (\<lambda>_. same w) w"
  unfolding os_remove_def
proof (rule wp_mutate)
  fix x g u w'
  assume a: "same w u" "moved g w w'"
    and f: "at_path False p (\<lambda>q n. case n of
       None \<Rightarrow> Inl ENOENT
     | Some (Dir _) \<Rightarrow> if list_ex (\<lambda>(r, _). strict_prefix q r) (fs u) then Inl ENOTEMPTY
         else Inr ((), fs_del q (fs u))
     | Some _ \<Rightarrow> Inr ((), fs_del q (fs u))) u = Inr (x, g)"
  have "nd (fs w) (d @ [c]) = Some (Lnk t)"
    using l entry_node_at [OF e] by (simp split: option.splits)
  with f e have "g = fs_del (d @ [c]) (fs w)"
    by (simp add: at_path_def entry_locate entry_same [OF a(1)] same_fs [OF a(1)])
  moreover have "vis (fs_del (d @ [c]) (fs w)) = (vis (fs w))(d @ [c] := None)"
  proof (cases "temp_name c")
    case True
    then have "hidden (d @ [c])" by simp
    then show ?thesis by (auto simp: vis_def fun_eq_iff)
  qed (use d in simp)
  ultimately show "vis (fs w') = (vis (fs w))(d @ [c] := None)
      \<and> step_ok (\<lambda>f. vis f = (vis (fs w))(d @ [c] := None)) w w'"
    using a(2) by (auto simp: moved_def intro!: moved_step_ok [OF a(2)])
qed

definition gc_ok :: "store \<Rightarrow> view \<Rightarrow> bool" where
  "gc_ok s v \<longleftrightarrow> store_ok s v \<and> real_dir v (loc s ''gcroots'')"

lemma gc_entry:
  assumes "gc_ok s (vis (fs w))" "plain n"
  shows "entry w (path_join [gc_roots s, n]) (loc s ''gcroots'') n"
proof -
  have g: "canonical (gc_roots s)" "elems (gc_roots s) = loc s ''gcroots''"
    using assms store_path [of s "vis (fs w)" "''gcroots''"] by (simp_all add: gc_ok_def gc_roots_def)
  show ?thesis
    using path_join_canonical [OF g(1), of "[n]"] g(2) assms
    by (intro entryI) (simp_all add: gc_ok_def)
qed

lemma gc_ok_cong:
  "gc_ok s v \<Longrightarrow> (\<And>p. prefix p (loc s ''gcroots'') \<Longrightarrow> v' p = v p) \<Longrightarrow> gc_ok s v'"
  by (auto simp: gc_ok_def store_ok_def real_dir_def loc_def prefix_snoc)

lemma gc_ok_del: "gc_ok s v \<Longrightarrow> gc_ok s (v(loc s ''gcroots'' @ [n] := x))"
  by (rule gc_ok_cong [of s v "v(loc s ''gcroots'' @ [n] := x)"]) auto

text \<open>
  Each entry is looked at once; what has been removed is what \<open>pruned\<close> says, on an error and at
  every crash point too.
\<close>

definition pruning :: "view \<Rightarrow> path \<Rightarrow> string set \<Rightarrow> world \<Rightarrow> world \<Rightarrow> bool" where
  "pruning v g keep w w' \<longleftrightarrow> (\<exists>ms. vis (fs w') = pruned v g keep ms)
     \<and> step_ok (\<lambda>f. \<exists>ms. vis f = pruned v g keep ms) w w'"

lemma quietly_pruning: "quietly w w' \<Longrightarrow> pruning (vis (fs w)) g keep w w'"
  unfolding pruning_def quietly_def
  by (metis (mono_tags, lifting) pruned_empty step_ok_mono)

lemma pruning_trans: "pruning v g keep u w \<Longrightarrow> pruning v g keep w w' \<Longrightarrow> pruning v g keep u w'"
  unfolding pruning_def by (auto intro: step_ok_trans)

lemma pruning_one:
  assumes "pruning (if \<exists>t. v (g @ [n]) = Some (Lnk t) \<and> t \<notin> keep then v(g @ [n] := None) else v) g keep w w'"
  shows "pruning v g keep w w'"
proof -
  have "\<exists>ms'. pruned (if \<exists>t. v (g @ [n]) = Some (Lnk t) \<and> t \<notin> keep then v(g @ [n] := None) else v) g keep ms
      = pruned v g keep ms'" for ms
    by (rule exI [of _ "insert n ms"]) (rule pruned_insert [symmetric])
  with assms show ?thesis unfolding pruning_def by (auto elim!: step_ok_mono)
qed

lemma wp_prune_entries:
  assumes "gc_ok s (vis (fs w))" "\<forall>n \<in> set ns. plain n"
  shows "wp (prune_entries s keep ns)
    (\<lambda>_ w'. vis (fs w') = pruned (vis (fs w)) (loc s ''gcroots'') (set keep) (set ns)
       \<and> pruning (vis (fs w)) (loc s ''gcroots'') (set keep) w w')
    (\<lambda>_ w'. pruning (vis (fs w)) (loc s ''gcroots'') (set keep) w w') w"
  using assms
proof (induction ns arbitrary: w)
  case (Cons n ns)
  let ?g = "loc s ''gcroots''" and ?p = "path_join [gc_roots s, n]" and ?v = "vis (fs w)"
  let ?E = "\<lambda>_ w'. pruning ?v ?g (set keep) w w'"
  let ?Q = "\<lambda>_ w'. vis (fs w') = pruned ?v ?g (set keep) (set (n # ns)) \<and> pruning ?v ?g (set keep) w w'"
  let ?v1 = "if \<exists>t. ?v (?g @ [n]) = Some (Lnk t) \<and> t \<notin> set keep then ?v(?g @ [n] := None) else ?v"
  have n: "plain n" using Cons.prems by auto
  note e = gc_entry [OF Cons.prems(1) n]
  have nh: "\<not> hidden ?g" using Cons.prems(1) real_dir_visible by (auto simp: gc_ok_def)
  have quit: "?E x w'" if "same w w'" for x w'
    using that by (intro quietly_pruning same_quietly)
  have rest: "wp (prune_entries s keep ns) ?Q ?E w1"
    if v1: "vis (fs w1) = ?v1" and so_far: "pruning ?v ?g (set keep) w w1" for w1
  proof (rule wp_mono)
    show "wp (prune_entries s keep ns)
      (\<lambda>_ w'. vis (fs w') = pruned (vis (fs w1)) ?g (set keep) (set ns)
         \<and> pruning (vis (fs w1)) ?g (set keep) w1 w')
      (\<lambda>_ w'. pruning (vis (fs w1)) ?g (set keep) w1 w') w1"
      using Cons.prems v1 gc_ok_del by (intro Cons.IH) auto
  next
    fix x w'
    assume "vis (fs w') = pruned (vis (fs w1)) ?g (set keep) (set ns)
      \<and> pruning (vis (fs w1)) ?g (set keep) w1 w'"
    with v1 show "?Q x w'"
      by (auto simp only: list.set pruned_insert intro: pruning_trans [OF so_far] pruning_one)
  next
    fix x w'
    assume "pruning (vis (fs w1)) ?g (set keep) w1 w'"
    with v1 show "?E x w'"
      by (auto simp only: intro: pruning_trans [OF so_far] pruning_one)
  qed
  have one: "wp (only_if (t \<notin> set keep) (os_remove ?p)) (\<lambda>_. wp (prune_entries s keep ns) ?Q ?E) ?E w1"
    if s: "same w w1" and l: "node_at False ?p w = Inr (Lnk t)" for t w1
  proof -
    have link: "?v (?g @ [n]) = (if temp_name n then None else Some (Lnk t))"
      using l entry_node_at [OF e] nh by (simp add: vis_def split: option.splits)
    show ?thesis
    proof (cases "t \<in> set keep")
      case True
      with rest [of w1] link s quit [OF s] show ?thesis by (simp add: same_fs)
    next
      case False
      have "wp (os_remove ?p) (\<lambda>_. wp (prune_entries s keep ns) ?Q ?E) ?E w1"
      proof (rule wp_mono [OF wp_remove_link])
        show "entry w1 ?p ?g n" using e by (simp add: entry_same [OF s])
        show "node_at False ?p w1 = Inr (Lnk t)" using l by (simp add: same_node_at [OF s])
        show "\<not> hidden ?g" by (fact nh)
      next
        fix u w'
        assume r: "vis (fs w') = (vis (fs w1))(?g @ [n] := None)
          \<and> step_ok (\<lambda>f. vis f = (vis (fs w1))(?g @ [n] := None)) w1 w'"
        have v1: "?v(?g @ [n] := None) = ?v1" using link False by (auto simp: fun_eq_iff)
        have "?v1 = pruned ?v ?g (set keep) {n}" by (simp only: pruned_insert pruned_empty)
        with r s v1 have "pruning ?v ?g (set keep) w1 w'"
          by (auto simp: pruning_def same_fs elim!: step_ok_mono)
        with r s v1 show "wp (prune_entries s keep ns) ?Q ?E w'"
          by (intro rest pruning_trans [OF quit [OF s]]) (simp_all add: same_fs)
      next
        fix x w'
        assume "same w1 w'"
        with s show "?E x w'" by (intro quit) (rule same_trans)
      qed
      with False show ?thesis by simp
    qed
  qed
  show ?case
    unfolding prune_entries.simps Let_def wp_seq wp_wrap
    by (rule wp_readlink) (use quit one in blast)+
qed (simp add: quietly_pruning)

lemma children_iff: "n \<in> set (children f d) \<longleftrightarrow> plain n \<and> nd f (d @ [n]) \<noteq> None"
proof -
  have "n \<in> set (children f d) \<longleftrightarrow> plain n \<and> (\<exists>(q, _) \<in> set f. q \<noteq> [] \<and> butlast q = d \<and> last q = n)"
    by (force simp: children_def)
  also have "(\<exists>(q, _) \<in> set f. q \<noteq> [] \<and> butlast q = d \<and> last q = n) \<longleftrightarrow> d @ [n] \<in> fst ` set f"
    by (force simp: snoc_eq_iff_butlast)
  finally show ?thesis by (simp add: nd_def map_of_eq_None_iff)
qed

lemma wp_kept_targets:
  assumes "store_ok s (vis (fs w))" "\<forall>n \<in> set ns. plain n \<and> \<not> temp_name n"
  shows "wp (kept_targets s ns)
    (\<lambda>ts w'. same w w' \<and> set ts = {t. \<exists>n \<in> set ns. link_of (vis (fs w)) s n = Some t}) (\<lambda>_. same w) w"
  using assms
proof (induction ns arbitrary: w)
  case (Cons n ns)
  have n: "plain n" "\<not> temp_name n" using Cons.prems by auto
  let ?T = "\<lambda>ns. {t. \<exists>n \<in> set ns. link_of (vis (fs w)) s n = Some t}"
  have rest: "wp (kept_targets s ns) (\<lambda>ts w'. same w w' \<and> set ts = ?T ns) (\<lambda>_. same w) w1" if "same w w1" for w1
  proof -
    have "wp (kept_targets s ns)
      (\<lambda>ts w'. same w1 w' \<and> set ts = {t. \<exists>n \<in> set ns. link_of (vis (fs w1)) s n = Some t}) (\<lambda>_. same w1) w1"
      using Cons.prems that by (intro Cons.IH) (auto simp: same_fs)
    with that show ?thesis by (elim wp_mono) (auto simp: same_fs intro: same_trans)
  qed
  show ?case
    unfolding kept_targets.simps wp_seq wp_attempt
  proof (rule wp_pointer [OF Cons.prems(1) n])
    fix e w'
    assume "same w w'" "e = ErrNoRuntime" "vis (fs w) (loc s n) = None"
    moreover from this have "?T (n # ns) = ?T ns" by (simp add: link_of_def)
    ultimately show "wp (case Inl e of Inr t \<Rightarrow> seq (kept_targets s ns) (\<lambda>ts. ret (t # ts))
        | Inl e \<Rightarrow> if errors_is e ErrNoRuntime then kept_targets s ns else fail e)
      (\<lambda>ts w'. same w w' \<and> set ts = ?T (n # ns)) (\<lambda>_. same w) w'"
      using rest by simp
  next
    fix t w'
    assume "same w w'" "vis (fs w) (loc s n) = Some (Lnk t)"
    moreover from this have "?T (n # ns) = insert t (?T ns)" by (auto simp: link_of_def)
    ultimately show "wp (case Inr t of Inr t \<Rightarrow> seq (kept_targets s ns) (\<lambda>ts. ret (t # ts))
        | Inl e \<Rightarrow> if errors_is e ErrNoRuntime then kept_targets s ns else fail e)
      (\<lambda>ts w'. same w w' \<and> set ts = ?T (n # ns)) (\<lambda>_. same w) w'"
      using wp_mono [OF rest [of w'], of "\<lambda>ts w''. same w w'' \<and> set (t # ts) = ?T (n # ns)" "\<lambda>_. same w"]
      by simp
  qed auto
qed simp

lemma wp_readdir:
  assumes "canonical d" "real_dir (vis (fs w)) (elems d)"
    and "\<And>e w'. same w w' \<Longrightarrow> e \<noteq> ENOENT \<Longrightarrow> E (Errno e) w'"
    and "\<And>w'. same w w' \<Longrightarrow> Q (children (fs w) (elems d)) w'"
  shows "wp (os_readdir d) Q E w"
proof -
  obtain m where m: "nd (fs w) (elems d) = Some (Dir m)"
    using real_dir_nd [OF assms(2)] by (auto simp: real_dir_def)
  have "locate (fs w) wd True d = Inr (elems d)" for wd
    by (rule locate_real_dir [OF assms(1) real_dir_nd [OF assms(2)]])
  then show ?thesis
    unfolding os_readdir_def
    by (intro wp_query) (auto intro: assms(3,4) simp: same_fs m)
qed

definition pointed :: "view \<Rightarrow> store \<Rightarrow> string set" where
  "pointed v s = {t. link_of v s current_name = Some t \<or> link_of v s previous_name = Some t}"

lemma wp_prune_gc_roots:
  assumes g: "gc_ok s (vis (fs w))"
  shows "wp (prune_gc_roots s)
    (\<lambda>_ w'. vis (fs w') = pruned (vis (fs w)) (loc s ''gcroots'') (pointed (vis (fs w)) s) {n. plain n}
       \<and> pruning (vis (fs w)) (loc s ''gcroots'') (pointed (vis (fs w)) s) w w')
    (\<lambda>_ w'. pruning (vis (fs w)) (loc s ''gcroots'') (pointed (vis (fs w)) s) w w') w"
    (is "wp _ ?Q ?E w")
proof -
  let ?g = "loc s ''gcroots''" and ?v = "vis (fs w)"
  let ?ns = "children (fs w) ?g"
  have st: "store_ok s ?v" using g by (simp add: gc_ok_def)
  have dir: "canonical (gc_roots s)" "elems (gc_roots s) = ?g" "real_dir ?v ?g"
    using g store_path [OF st, of "''gcroots''"] by (simp_all add: gc_ok_def gc_roots_def)
  have all: "pruned ?v ?g K (set ?ns) = pruned ?v ?g K {n. plain n}" for K
  proof -
    have "n \<in> set ?ns" if "plain n" "?v (?g @ [n]) = Some x" for n x
      using that(1) vis_Some [OF that(2)] by (simp add: children_iff)
    then show ?thesis by (auto simp: pruned_def fun_eq_iff children_iff)
  qed
  have quit: "?E e w'" if "same w w'" for e w'
    using that by (intro quietly_pruning same_quietly)
  have entries: "wp (prune_entries s keep ?ns) ?Q ?E w2"
    if s: "same w w2" and k: "set keep = pointed ?v s" for keep w2
  proof -
    have "wp (prune_entries s keep ?ns)
      (\<lambda>_ w'. vis (fs w') = pruned (vis (fs w2)) ?g (set keep) (set ?ns) \<and> pruning (vis (fs w2)) ?g (set keep) w2 w')
      (\<lambda>_ w'. pruning (vis (fs w2)) ?g (set keep) w2 w') w2"
      using g by (intro wp_prune_entries) (auto simp: same_fs [OF s] children_iff)
    then show ?thesis
      using pruning_trans [OF quit [OF s]] by (elim wp_mono) (auto simp: same_fs [OF s] all k)
  qed
  have list: "wp (attempt (os_readdir (gc_roots s))) (\<lambda>r. wp (case r of
       Inl e \<Rightarrow> if errors_is e (Errno ENOENT) then ret () else fail e
     | Inr entries \<Rightarrow> prune_entries s keep entries) ?Q ?E) ?E w1"
    if s: "same w w1" and k: "set keep = pointed ?v s" for keep w1
    unfolding wp_attempt
  proof (rule wp_readdir)
    fix e w'
    assume "same w1 w'" "e \<noteq> ENOENT"
    then show "wp (case Inl (Errno e) of
       Inl e \<Rightarrow> if errors_is e (Errno ENOENT) then ret () else fail e
     | Inr entries \<Rightarrow> prune_entries s keep entries) ?Q ?E w'"
      using quit [OF same_trans [OF s]] by simp
  next
    fix w'
    assume "same w1 w'"
    from entries [OF same_trans [OF s this] k]
    show "wp (case Inr (children (fs w1) (elems (gc_roots s))) of
       Inl e \<Rightarrow> if errors_is e (Errno ENOENT) then ret () else fail e
     | Inr entries \<Rightarrow> prune_entries s keep entries) ?Q ?E w'"
      by (simp add: same_fs [OF s] dir(2))
  qed (use dir in \<open>simp_all add: same_fs [OF s]\<close>)
  have "wp (kept_targets s [current_name, previous_name])
    (\<lambda>ts w'. same w w' \<and> set ts = {t. \<exists>n \<in> set [current_name, previous_name]. link_of ?v s n = Some t})
    (\<lambda>_. same w) w"
    using st by (intro wp_kept_targets) (auto simp: temp_name_def)
  moreover have "{t. \<exists>n \<in> set [current_name, previous_name]. link_of ?v s n = Some t} = pointed ?v s"
    by (auto simp: pointed_def)
  ultimately show ?thesis
    unfolding prune_gc_roots_def wp_seq
    by (elim wp_mono) (use list quit in \<open>simp_all only:\<close>)
qed

end
