(* ===== verification/Regex.thy ===== *)
theory Regex
  imports GoStrings
begin

text \<open>
  The regular expressions of \<open>internal/client/state.go\<close> and \<open>internal/client/runtimedesc.go\<close>, written
  as the source writes them, with a matcher for the fragment they use: literals, character classes,
  counted classes and optional groups, anchored at both ends.  Go matches runes; every class here
  is a set of ASCII characters, so a byte that is not part of an ASCII character never matches and
  the match can be made byte by byte.  Each expression is then shown to describe what its comment or
  its error message says.
\<close>

datatype re =
    Lit string
  | Cls "char \<Rightarrow> bool"
  | Rep nat nat "char \<Rightarrow> bool"
  | Opt re
  | Seq re re

fun full_match :: "re \<Rightarrow> string \<Rightarrow> bool" where
  "full_match (Lit l) s \<longleftrightarrow> s = l"
| "full_match (Cls P) s \<longleftrightarrow> (case s of [c] \<Rightarrow> P c | _ \<Rightarrow> False)"
| "full_match (Rep m n P) s \<longleftrightarrow> m \<le> length s \<and> length s \<le> n \<and> list_all P s"
| "full_match (Opt r) s \<longleftrightarrow> s = [] \<or> full_match r s"
| "full_match (Seq r q) s \<longleftrightarrow>
     list_ex (\<lambda>i. full_match r (take i s) \<and> full_match q (drop i s)) [0..<length s + 1]"

lemma full_match_Seq:
  "full_match (Seq r q) s \<longleftrightarrow> (\<exists>x y. s = x @ y \<and> full_match r x \<and> full_match q y)"
proof
  assume "full_match (Seq r q) s"
  then obtain i where "full_match r (take i s)" "full_match q (drop i s)"
    unfolding full_match.simps list_ex_iff by blast
  then show "\<exists>x y. s = x @ y \<and> full_match r x \<and> full_match q y"
    by (intro exI [of _ "take i s"] exI [of _ "drop i s"]) simp
next
  assume "\<exists>x y. s = x @ y \<and> full_match r x \<and> full_match q y"
  then obtain x y where s: "s = x @ y" "full_match r x" "full_match q y" by blast
  then have "full_match r (take (length x) s)" "full_match q (drop (length x) s)" by simp_all
  moreover have "length x \<in> set [0..<length s + 1]" using s(1) by auto
  ultimately show "full_match (Seq r q) s"
    by (simp only: full_match.simps list_ex_iff) blast
qed

lemma full_match_Cls: "full_match (Cls P) s \<longleftrightarrow> (\<exists>c. s = [c] \<and> P c)"
  by (auto split: list.splits)

declare full_match.simps(2,5) [simp del]

lemma full_match_Cls_Seq:
  "full_match (Seq (Cls P) r) s \<longleftrightarrow> (\<exists>c y. s = c # y \<and> P c \<and> full_match r y)"
  by (auto simp: full_match_Seq full_match_Cls) (metis append_Cons append_Nil)

lemma full_match_Seq_Cls:
  "full_match (Seq r (Cls P)) s \<longleftrightarrow> (\<exists>y c. s = y @ [c] \<and> P c \<and> full_match r y)"
  by (auto simp: full_match_Seq full_match_Cls)

text \<open>The two shapes of the source: a first character and a tail; and a label with both ends fixed.\<close>

lemma head_tail_match:
  "full_match (Seq (Cls P) (Rep 0 n Q)) s \<longleftrightarrow>
     s \<noteq> [] \<and> P (hd s) \<and> list_all Q (tl s) \<and> length s \<le> n + 1"
  by (cases s) (auto simp: full_match_Cls_Seq)

lemma label_match:
  assumes "\<And>c. P c \<Longrightarrow> Q c"
  shows "full_match (Seq (Cls P) (Opt (Seq (Rep 0 n Q) (Cls P)))) s \<longleftrightarrow>
     s \<noteq> [] \<and> P (hd s) \<and> P (last s) \<and> list_all Q s \<and> length s \<le> n + 2"
    (is "?L \<longleftrightarrow> ?R")
proof
  assume ?L
  then obtain c y where s: "s = c # y" "P c"
    and y: "y = [] \<or> (\<exists>x d. y = x @ [d] \<and> length x \<le> n \<and> list_all Q x \<and> P d)"
    by (auto simp: full_match_Cls_Seq full_match_Seq_Cls)
  then show ?R using assms by auto
next
  assume ?R
  then obtain c y where s: "s = c # y" by (cases s) auto
  show ?L
  proof (cases "y = []")
    case True
    with \<open>?R\<close> s show ?thesis by (simp add: full_match_Cls_Seq)
  next
    case False
    then obtain x d where y: "y = x @ [d]" by (metis append_butlast_last_id)
    with \<open>?R\<close> s show ?thesis by (simp add: full_match_Cls_Seq full_match_Seq_Cls)
  qed
qed

section \<open>The expressions\<close>

definition among :: "string \<Rightarrow> char \<Rightarrow> bool" where
  "among cs c \<longleftrightarrow> is_alnum c \<or> c \<in> set cs"

definition label_re :: re where
  "label_re = Seq (Cls is_alnum) (Opt (Seq (Rep 0 61 (among ''-'')) (Cls is_alnum)))"

definition node_id_re :: re where
  "node_id_re = Seq (Cls is_alnum) (Rep 0 255 (among ''._:-''))"

definition host_part_re :: re where
  "host_part_re = Seq (Cls is_alnum) (Opt (Seq (Rep 0 61 (among ''-'')) (Cls is_alnum)))"

definition user_re :: re where
  "user_re = Seq (Cls (\<lambda>c. is_alpha c \<or> c = CHR ''_'')) (Rep 0 63 (among ''_.-''))"

definition session_re :: re where
  "session_re = Seq (Cls is_alnum) (Rep 0 127 (among ''._-''))"

definition is_lower_hex :: "char \<Rightarrow> bool" where
  "is_lower_hex c \<longleftrightarrow> is_digit c \<or> (97 \<le> byte c \<and> byte c \<le> 102)"

definition runtime_installable_re :: re where
  "runtime_installable_re =
     Seq (Lit ''github:gisikw/familiar/'') (Seq (Rep 40 40 is_lower_hex) (Lit ''#familiar-worker-runtime''))"

lemma label_re_iff:
  "full_match label_re s \<longleftrightarrow> s \<noteq> [] \<and> length s \<le> 63 \<and> is_alnum (hd s) \<and> is_alnum (last s)
     \<and> (\<forall>c \<in> set s. is_alnum c \<or> c = CHR ''-'')"
  unfolding label_re_def by (subst label_match) (auto simp: among_def list_all_iff)

lemma host_part_re_eq: "host_part_re = label_re"
  by (simp add: host_part_re_def label_re_def)

lemma user_re_iff:
  "full_match user_re s \<longleftrightarrow> s \<noteq> [] \<and> length s \<le> 64 \<and> (is_alpha (hd s) \<or> hd s = CHR ''_'')
     \<and> (\<forall>c \<in> set s. is_alnum c \<or> c \<in> {CHR ''_'', CHR ''.'', CHR ''-''})"
  unfolding user_re_def head_tail_match
  by (cases s) (auto simp: among_def list_all_iff is_alnum_def)

lemma node_id_re_iff:
  "full_match node_id_re s \<longleftrightarrow> s \<noteq> [] \<and> length s \<le> 256 \<and> is_alnum (hd s)
     \<and> (\<forall>c \<in> set s. is_alnum c \<or> c \<in> {CHR ''.'', CHR ''_'', CHR '':'', CHR ''-''})"
  unfolding node_id_re_def head_tail_match
  by (cases s) (auto simp: among_def list_all_iff)

lemma wrapped_match:
  "full_match (Seq (Lit l) (Seq (Rep n n P) (Lit r))) s \<longleftrightarrow>
     (\<exists>h. s = l @ h @ r \<and> length h = n \<and> list_all P h)"
  by (auto simp: full_match_Seq)

lemma installable_re_iff:
  "full_match runtime_installable_re s \<longleftrightarrow>
     (\<exists>h. s = ''github:gisikw/familiar/'' @ h @ ''#familiar-worker-runtime''
        \<and> length h = 40 \<and> list_all is_lower_hex h)"
  unfolding runtime_installable_re_def by (rule wrapped_match)

lemma alnum_bytes: "is_alnum c \<Longrightarrow> 48 \<le> byte c \<and> byte c \<le> 122 \<and> (byte c \<le> 57 \<or> 65 \<le> byte c)"
  by (auto simp: is_alnum_def is_alpha_def is_upper_def is_lower_def is_digit_def)

lemma alnum_ascii: "is_alnum c \<Longrightarrow> is_ascii c"
  using alnum_bytes [of c] by (simp add: is_ascii_def byte_def)

lemma alnum_not_space: "is_alnum c \<Longrightarrow> \<not> ascii_space c"
  using alnum_bytes [of c] by (auto simp: ascii_space_def byte_def)

lemma not_alnum [simp]:
  "\<not> is_alnum SLASH" "\<not> is_alnum (CHR ''@'')" "\<not> is_alnum (CHR ''%'')" "\<not> is_alnum DQUOTE"
  "\<not> is_alnum SQUOTE" "\<not> is_alnum (CHR '':'')" "\<not> is_alnum (CHR ''#'')" "\<not> is_alnum (CHR '' '')"
  "\<not> is_alnum (CHR ''-'')" "\<not> is_alnum (CHR ''.'')" "\<not> is_alnum (CHR ''_'')" "\<not> is_alnum LF" "\<not> is_alnum CR"
  by code_simp+

end
