(* ===== verification/Keys.thy ===== *)
theory Keys
  imports OS Regex
begin

text \<open>
  OpenSSH Ed25519 public keys, \<open>validatePublicKey\<close> and \<open>NormalizePublicKey\<close> of
  \<open>internal/client/state.go\<close>, with the standard base64 decoder they call.  Normalization is what lets
  a key be put on a line of \<open>authorized_keys\<close> or \<open>known_hosts\<close>: its result is one clean line.
\<close>

section \<open>Base64\<close>

definition b64_val :: "char \<Rightarrow> nat option" where
  "b64_val c =
     (let n = byte c in
      if 65 \<le> n \<and> n \<le> 90 then Some (n - 65)
      else if 97 \<le> n \<and> n \<le> 122 then Some (n - 71)
      else if 48 \<le> n \<and> n \<le> 57 then Some (n + 4)
      else if n = 43 then Some 62
      else if n = 47 then Some 63
      else None)"

text \<open>
  \<open>base64.StdEncoding.DecodeString\<close>: quanta of four characters, padding only in the last one.
  The unused low bits of a padded quantum are not looked at.
\<close>

fun b64_quanta :: "string \<Rightarrow> nat list option" where
  "b64_quanta [] = Some []"
| "b64_quanta (a # b # c # d # s) =
     (case (b64_val a, b64_val b) of
        (Some x, Some y) \<Rightarrow>
          if c = CHR ''='' \<and> d = CHR ''='' \<and> s = [] then Some [x * 4 + y div 16]
          else
            (case b64_val c of
               None \<Rightarrow> None
             | Some z \<Rightarrow>
                 if d = CHR ''='' \<and> s = [] then Some [x * 4 + y div 16, y mod 16 * 16 + z div 4]
                 else
                   (case b64_val d of
                      None \<Rightarrow> None
                    | Some u \<Rightarrow>
                        map_option (\<lambda>bs. [x * 4 + y div 16, y mod 16 * 16 + z div 4, z mod 4 * 64 + u] @ bs)
                          (b64_quanta s)))
      | _ \<Rightarrow> None)"
| "b64_quanta _ = None"

definition b64_decode :: "string \<Rightarrow> nat list option" where
  "b64_decode s = b64_quanta (filter (\<lambda>c. c \<noteq> CR \<and> c \<noteq> LF) s)"

definition be32 :: "nat list \<Rightarrow> nat" where
  "be32 bs = foldl (\<lambda>n b. n * 256 + b) 0 bs"

definition bytes_of :: "string \<Rightarrow> nat list" where
  "bytes_of s = map byte s"

section \<open>Keys\<close>

definition key_type :: string where
  "key_type = ''ssh-ed25519''"

definition key_blob_ok :: "nat list \<Rightarrow> bool" where
  "key_blob_ok d \<longleftrightarrow> be32 (take 4 d) = 11 \<and> take 11 (drop 4 d) = bytes_of key_type
     \<and> be32 (take 4 (drop 15 d)) = 32"

definition validate_public_key :: "string \<Rightarrow> goerr + unit" where
  "validate_public_key s =
     (let fs = split_fields s in
      if length fs < 2 \<or> length fs > 3 \<or> hd fs \<noteq> key_type
      then Inl (errorf ''expected one ssh-ed25519 OpenSSH public key'' [])
      else if contains_any s [CR, LF] then Inl (errorf ''key contains a newline'' [])
      else
        (case b64_decode (fs ! 1) of
           None \<Rightarrow> Inl (errorf ''invalid Ed25519 key encoding'' [])
         | Some d \<Rightarrow>
             if length d \<noteq> 4 + 11 + 4 + 32 then Inl (errorf ''invalid Ed25519 key encoding'' [])
             else if \<not> key_blob_ok d
               then Inl (errorf ''public key blob does not match ssh-ed25519'' [])
             else Inr ()))"

definition normalize_public_key :: "string \<Rightarrow> goerr + string" where
  "normalize_public_key s0 =
     (let s = trim_space s0 in
      bind_ok (validate_public_key s) (\<lambda>_.
      let f = split_fields s in Inr (f ! 0 @ '' '' @ f ! 1)))"

section \<open>What a normalized key is\<close>

definition b64_char :: "char \<Rightarrow> bool" where
  "b64_char c \<longleftrightarrow> is_alnum c \<or> c \<in> {CHR ''+'', SLASH, CHR ''=''}"

lemma b64_val_char: "b64_val c = Some n \<Longrightarrow> b64_char c"
proof -
  assume "b64_val c = Some n"
  then have "is_alnum c \<or> byte c = byte (CHR ''+'') \<or> byte c = byte SLASH"
    by (auto simp: b64_val_def Let_def char_class_defs split: if_splits)
  then show ?thesis by (auto simp: b64_char_def)
qed

lemma b64_quanta_chars: "b64_quanta s = Some bs \<Longrightarrow> list_all b64_char s"
proof (induction s arbitrary: bs rule: b64_quanta.induct)
  case (2 a b c d s)
  from "2.prems" obtain x y where xy: "b64_val a = Some x" "b64_val b = Some y"
    by (auto split: option.splits)
  have eq: "b64_char (CHR ''='')" by (simp add: b64_char_def)
  show ?case
  proof (cases "c = CHR ''='' \<and> d = CHR ''='' \<and> s = []")
    case True
    with xy eq show ?thesis by (simp add: b64_val_char)
  next
    case F1: False
    with "2.prems" xy obtain z where z: "b64_val c = Some z" by (auto split: option.splits)
    show ?thesis
    proof (cases "d = CHR ''='' \<and> s = []")
      case True
      with xy z eq show ?thesis by (simp add: b64_val_char)
    next
      case False
      with F1 "2.prems" xy z obtain u bs' where u: "b64_val d = Some u" and q: "b64_quanta s = Some bs'"
        by (auto split: option.splits)
      from F1 False xy z u q have "list_all b64_char s" by (intro "2.IH") auto
      with xy z u show ?thesis by (simp add: b64_val_char)
    qed
  qed
qed auto

lemma b64_char_clean: "b64_char c \<Longrightarrow> is_ascii c \<and> \<not> ascii_space c"
  unfolding b64_char_def using alnum_ascii [of c] alnum_not_space [of c]
  by (auto simp: is_ascii_def ascii_space_def byte_def)

lemma b64_decode_chars:
  assumes "b64_decode s = Some bs" "\<forall>c \<in> set s. \<not> ascii_space c"
  shows "\<forall>c \<in> set s. b64_char c"
proof -
  have "filter (\<lambda>c. c \<noteq> CR \<and> c \<noteq> LF) s = s"
    using assms(2) by (auto simp: filter_id_conv ascii_space_def)
  with b64_quanta_chars [OF assms(1) [unfolded b64_decode_def]] show ?thesis
    by (simp add: list_all_iff)
qed

lemma key_type_clean: "\<forall>c \<in> set key_type. is_ascii c \<and> \<not> ascii_space c" "key_type \<noteq> []"
  by code_simp+

text \<open>The blob of a key: its decoded bytes.\<close>

definition key_blob :: "string \<Rightarrow> nat list option" where
  "key_blob s = (case split_fields s of _ # b # _ \<Rightarrow> b64_decode b | _ \<Rightarrow> None)"

lemma validate_public_key_ok:
  assumes "validate_public_key s = Inr u"
  shows "\<exists>b c d. split_fields s = key_type # b # c \<and> length c \<le> 1 \<and> b \<noteq> [] \<and> (\<forall>x \<in> set b. b64_char x)
    \<and> b64_decode b = Some d \<and> length d = 51 \<and> key_blob_ok d \<and> LF \<notin> set s \<and> CR \<notin> set s"
proof -
  from assms have f: "2 \<le> length (split_fields s)" "length (split_fields s) \<le> 3" "hd (split_fields s) = key_type"
    and nl: "\<not> contains_any s [CR, LF]"
    and d: "\<exists>d. b64_decode (split_fields s ! 1) = Some d \<and> length d = 51 \<and> key_blob_ok d"
    by (auto simp: validate_public_key_def Let_def split: if_splits option.splits)
  from f obtain a b c where fs: "split_fields s = a # b # c" "length c \<le> 1"
    by (cases "split_fields s"; cases "tl (split_fields s)") auto
  with f have "a = key_type" by simp
  moreover have b: "b \<noteq> []" "\<forall>x \<in> set b. \<not> ascii_space x"
    using fields_no_space [of b s] fs by auto
  moreover from d fs obtain d where "b64_decode b = Some d" "length d = 51" "key_blob_ok d" by auto
  moreover from this(1) b(2) have "\<forall>x \<in> set b. b64_char x" by (rule b64_decode_chars)
  moreover have "LF \<notin> set s" "CR \<notin> set s" using nl by (auto simp: contains_any_iff)
  ultimately show ?thesis using fs by auto
qed

lemma validate_plain_key:
  assumes "b \<noteq> []" "\<forall>x \<in> set b. b64_char x" "b64_decode b = Some d" "length d = 51" "key_blob_ok d"
  shows "validate_public_key (key_type @ CHR '' '' # b) = Inr ()"
    and "trim_space (key_type @ CHR '' '' # b) = key_type @ CHR '' '' # b"
    and "split_fields (key_type @ CHR '' '' # b) = [key_type, b]"
proof -
  have b: "\<forall>c \<in> set b. is_ascii c \<and> \<not> ascii_space c" using assms(2) b64_char_clean by blast
  show f: "split_fields (key_type @ CHR '' '' # b) = [key_type, b]"
    using key_type_clean b assms(1) by (intro fields_two)
  have "CR \<notin> set b" "LF \<notin> set b" using b by (auto simp: ascii_space_def)
  then have "\<not> contains_any (key_type @ CHR '' '' # b) [CR, LF]"
    by (auto simp: contains_any_iff key_type_def)
  with f assms(3-5) show "validate_public_key (key_type @ CHR '' '' # b) = Inr ()"
    by (simp add: validate_public_key_def Let_def)
  have "\<forall>c \<in> set (key_type @ CHR '' '' # b). is_ascii c"
    using key_type_clean b by (auto simp: is_ascii_def byte_def)
  moreover have "hd (key_type @ CHR '' '' # b) = hd key_type" "last (key_type @ CHR '' '' # b) = last b"
    using key_type_clean(2) assms(1) by simp_all
  ultimately show "trim_space (key_type @ CHR '' '' # b) = key_type @ CHR '' '' # b"
    using key_type_clean b assms(1) by (intro trim_space_id) (metis hd_in_set last_in_set)+
qed

lemma normalize_public_key_ok:
  assumes "normalize_public_key s = Inr k"
  shows "\<exists>b d. k = key_type @ CHR '' '' # b \<and> b \<noteq> [] \<and> (\<forall>x \<in> set b. b64_char x)
    \<and> b64_decode b = Some d \<and> length d = 51 \<and> key_blob_ok d \<and> key_blob (trim_space s) = Some d"
proof -
  from assms have v: "validate_public_key (trim_space s) = Inr ()"
    and k: "k = split_fields (trim_space s) ! 0 @ '' '' @ split_fields (trim_space s) ! 1"
    by (auto simp: normalize_public_key_def Let_def)
  from validate_public_key_ok [OF v] k show ?thesis by (auto simp: key_blob_def)
qed

text \<open>
  C19. A normalized key is one line of printable ASCII: the key type, one space, and the base64 blob
  of the key that was given.  It is valid, and normalizing it again gives it back.
\<close>

theorem normalize_key_line:
  assumes "normalize_public_key s = Inr k"
  shows "\<exists>b. k = ''ssh-ed25519 '' @ b \<and> list_all b64_char b
    \<and> key_blob k = key_blob (trim_space s)
    \<and> validate_public_key k = Inr () \<and> normalize_public_key k = Inr k"
proof -
  from normalize_public_key_ok [OF assms] obtain b d where k: "k = key_type @ CHR '' '' # b"
    and b: "b \<noteq> []" "\<forall>x \<in> set b. b64_char x" "b64_decode b = Some d" "length d = 51" "key_blob_ok d"
    and d: "key_blob (trim_space s) = Some d" by blast
  note v = validate_plain_key [OF b]
  have "normalize_public_key k = Inr k"
    using v by (simp add: normalize_public_key_def Let_def k)
  moreover have "key_blob k = Some d" using v(3) b(3) by (simp add: key_blob_def k)
  ultimately show ?thesis
    using k b v(1) d by (intro exI [of _ b]) (simp add: key_type_def list_all_iff)
qed

definition demo_key :: string where
  "demo_key = ''ssh-ed25519 AAAAC3NzaC1lZDI1NTE5AAAAIAABAgMEBQYHCAkKCwwNDg8QERITFBUWFxgZGhscHR4f''"

theorem normalize_key_line_witness:
  "normalize_public_key demo_key = Inr demo_key"
proof -
  have "normalize_public_key ('' '' @ demo_key @ '' me@host'') = Inr demo_key" by code_simp
  from normalize_key_line [OF this] show ?thesis by auto
qed

end
