(* ===== verification/Enrollment.thy ===== *)
theory Enrollment
  imports Keys
begin

text \<open>
  The enrollment contract: the records of \<open>internal/client/state.go\<close> and
  \<open>internal/client/runtimedesc.go\<close> and their validators, with Go's \<open>net.ParseIP\<close> that \<open>validHost\<close>
  calls.  The lemmas in the collection \<open>ok_dest\<close> say what each validator establishes; the later
  theories build configuration files and command lines from validated records and rest on them.
\<close>

section \<open>IP addresses\<close>

text \<open>
  \<open>netip.ParseAddr\<close> as \<open>net.ParseIP\<close> uses it (a zone makes the parse fail).  The octets of an IPv4
  address are read left to right: \<open>xs\<close> are the finished ones, \<open>v\<close> and \<open>n\<close> the value and the
  number of digits of the current one.
\<close>

fun parse_ipv4 :: "nat list \<Rightarrow> nat \<Rightarrow> nat \<Rightarrow> string \<Rightarrow> nat list option" where
  "parse_ipv4 xs v n [] = (if length xs = 3 \<and> n > 0 then Some (xs @ [v]) else None)"
| "parse_ipv4 xs v n (c # s) =
     (if is_digit c then
        (if n = 1 \<and> v = 0 then None
         else let v' = v * 10 + digit_val c in if v' > 255 then None else parse_ipv4 xs v' (n + 1) s)
      else if c = CHR ''.'' then
        (if n = 0 \<or> s = [] \<or> length xs = 3 then None else parse_ipv4 (xs @ [v]) 0 0 s)
      else None)"

definition hex_value :: "char \<Rightarrow> nat option" where
  "hex_value c =
     (let n = byte c in
      if 48 \<le> n \<and> n \<le> 57 then Some (n - 48)
      else if 97 \<le> n \<and> n \<le> 102 then Some (n - 87)
      else if 65 \<le> n \<and> n \<le> 70 then Some (n - 55)
      else None)"

definition is_hex :: "char \<Rightarrow> bool" where
  "is_hex c \<longleftrightarrow> hex_value c \<noteq> None"

definition hex_num :: "string \<Rightarrow> nat" where
  "hex_num s = foldl (\<lambda>a c. a * 16 + the (hex_value c)) 0 s"

text \<open>
  The groups of an IPv6 address: \<open>ip\<close> are the bytes read so far and \<open>ell\<close> the place of the ellipsis.
  The result is the bytes and the place of the ellipsis when the whole string has been used.
\<close>

function parse_groups :: "nat list \<Rightarrow> nat option \<Rightarrow> string \<Rightarrow> (nat list \<times> nat option) option" where
  "parse_groups ip ell s =
     (if length ip \<ge> 16 then (if s = [] then Some (ip, ell) else None)
      else
        (let h = takeWhile is_hex s; r = dropWhile is_hex s in
         if h = [] \<or> length h > 4 then None
         else if r \<noteq> [] \<and> hd r = CHR ''.'' then
           (if (ell = None \<and> length ip \<noteq> 12) \<or> length ip + 4 > 16 then None
            else (case parse_ipv4 [] 0 0 s of None \<Rightarrow> None | Some q \<Rightarrow> Some (ip @ q, ell)))
         else
           (let ip' = ip @ [hex_num h div 256, hex_num h mod 256] in
            if r = [] then Some (ip', ell)
            else if hd r \<noteq> CHR '':'' \<or> tl r = [] then None
            else if hd (tl r) = CHR '':'' then
              (if ell \<noteq> None then None
               else if tl (tl r) = [] then Some (ip', Some (length ip'))
               else parse_groups ip' (Some (length ip')) (tl (tl r)))
            else parse_groups ip' ell (tl r))))"
  by pat_completeness auto
termination
  by (relation "measure (\<lambda>(ip, ell, s). 16 - length ip)") auto

declare parse_groups.simps [simp del]

definition parse_ipv6 :: "string \<Rightarrow> nat list option" where
  "parse_ipv6 s0 =
     (let dd = prefix ''::'' s0; s = (if dd then drop 2 s0 else s0) in
      if CHR ''%'' \<in> set s0 then None
      else if dd \<and> s = [] then Some (replicate 16 0)
      else
        (case parse_groups [] (if dd then Some 0 else None) s of
           None \<Rightarrow> None
         | Some (ip, ell) \<Rightarrow>
             if length ip < 16 then
               (case ell of
                  None \<Rightarrow> None
                | Some e \<Rightarrow> Some (take e ip @ replicate (16 - length ip) 0 @ drop e ip))
             else if ell \<noteq> None then None else Some ip))"

definition parse_ip :: "string \<Rightarrow> nat list option" where
  "parse_ip s =
     (case find (\<lambda>c. c = CHR ''.'' \<or> c = CHR '':'' \<or> c = CHR ''%'') s of
        None \<Rightarrow> None
      | Some c \<Rightarrow>
          if c = CHR ''.'' then map_option (\<lambda>q. replicate 10 0 @ [255, 255] @ q) (parse_ipv4 [] 0 0 s)
          else if c = CHR '':'' then parse_ipv6 s
          else None)"

section \<open>Records\<close>

record runtime_descriptor =
  schema :: int
  desc_installable :: string

record enrollment_request =
  req_host :: string
  req_tunnel_public_key :: string
  req_ssh_host_public_key :: string
  req_ssh_user :: string

record enrollment =
  node_id :: string
  host :: string
  port :: int
  tunnel_host :: string
  tunnel_ssh_port :: int
  tunnel_user :: string
  remote_session :: string
  controller_public_key :: string
  runtime :: runtime_descriptor
  tunnel_host_key :: string

section \<open>Validators\<close>

definition desc_is_zero :: "runtime_descriptor \<Rightarrow> bool" where
  "desc_is_zero d \<longleftrightarrow> schema d = 0 \<and> desc_installable d = []"

definition descriptor_schema :: int where
  "descriptor_schema = 1"

definition desc_validate :: "runtime_descriptor \<Rightarrow> goerr + unit" where
  "desc_validate d =
     (if desc_is_zero d then Inl ErrNoRuntimeDescriptor
      else if schema d \<noteq> descriptor_schema
        then Inl (errorf ''unsupported runtime descriptor schema %d (this client understands schema %d only)''
                    [itoa (schema d), itoa descriptor_schema])
      else if desc_installable d = [] then Inl (errorf ''runtime descriptor omits installable'' [])
      else if \<not> full_match runtime_installable_re (desc_installable d)
        then Inl (errorf ''runtime installable %q must be github:gisikw/familiar/<40-hex-commit>#familiar-worker-runtime; branch or tag references are not accepted''
                    [desc_installable d])
      else Inr ())"

definition valid_host :: "string \<Rightarrow> bool" where
  "valid_host s \<longleftrightarrow>
     parse_ip s \<noteq> None
     \<or> \<not> (length s > 253 \<or> prefix ''.'' s \<or> suffix ''.'' s)
        \<and> list_all (full_match host_part_re) (split_on (CHR ''.'') s)"

definition validate_machine_name :: "string \<Rightarrow> goerr + unit" where
  "validate_machine_name n =
     guard (full_match label_re n)
       (errorf ''use a 1-63 character DNS label containing only letters, digits, or interior hyphens'' [])"

definition validate_enrollment_request :: "enrollment_request \<Rightarrow> goerr + unit" where
  "validate_enrollment_request r =
     bind_ok (map_err (wrapf ''invalid requested host label: %w'' []) (validate_machine_name (req_host r))) (\<lambda>_.
     bind_ok (guard (full_match user_re (req_ssh_user r)) (errorf ''invalid local SSH user'' [])) (\<lambda>_.
     bind_ok (map_err (wrapf ''tunnel public key: %w'' []) (validate_public_key (req_tunnel_public_key r))) (\<lambda>_.
     map_err (wrapf ''SSH host public key: %w'' []) (validate_public_key (req_ssh_host_public_key r)))))"

definition validate_enrollment :: "enrollment \<Rightarrow> goerr + unit" where
  "validate_enrollment e =
     bind_ok (guard (full_match node_id_re (node_id e)) (errorf ''invalid node_id'' [])) (\<lambda>_.
     bind_ok (guard (full_match label_re (host e)) (errorf ''invalid host label'' [])) (\<lambda>_.
     bind_ok (guard (\<not> (port e < 1 \<or> port e > 65535)) (errorf ''invalid reverse port'' [])) (\<lambda>_.
     bind_ok (guard (valid_host (tunnel_host e)) (errorf ''invalid tunnel host'' [])) (\<lambda>_.
     bind_ok (guard (\<not> (tunnel_ssh_port e < 1 \<or> tunnel_ssh_port e > 65535)) (errorf ''invalid tunnel SSH port'' [])) (\<lambda>_.
     bind_ok (guard (full_match user_re (tunnel_user e)) (errorf ''invalid tunnel user'' [])) (\<lambda>_.
     bind_ok (guard (\<not> (\<not> full_match session_re (remote_session e) \<or> remote_session e \<noteq> ''familiar-fleet''))
                (errorf ''remote session must be familiar-fleet'' [])) (\<lambda>_.
     bind_ok (map_err (wrapf ''controller public key: %w'' []) (validate_public_key (controller_public_key e))) (\<lambda>_.
     bind_ok (map_err (\<lambda>x. if errors_is x ErrNoRuntimeDescriptor then x else wrapf ''runtime descriptor: %w'' [] x)
                (desc_validate (runtime e))) (\<lambda>_.
     if tunnel_host_key e \<noteq> []
     then map_err (wrapf ''tunnel host key: %w'' []) (validate_public_key (tunnel_host_key e))
     else Inr ())))))))))"

section \<open>What validation establishes\<close>

lemma hex_value_char: "is_hex c \<Longrightarrow> is_alnum c"
  by (auto simp: is_hex_def hex_value_def Let_def char_class_defs split: if_splits)

definition ip_char :: "char \<Rightarrow> bool" where
  "ip_char c \<longleftrightarrow> is_alnum c \<or> c = CHR ''.'' \<or> c = CHR '':''"

lemma parse_ipv4_chars: "parse_ipv4 xs v n s = Some q \<Longrightarrow> list_all ip_char s"
  by (induction xs v n s rule: parse_ipv4.induct)
    (auto simp: ip_char_def is_alnum_def Let_def split: if_splits)

lemma parse_ipv4_octets:
  "parse_ipv4 xs v n s = Some q \<Longrightarrow> length xs \<le> 3 \<Longrightarrow> v \<le> 255 \<Longrightarrow> list_all (\<lambda>b. b \<le> 255) xs \<Longrightarrow>
     length q = 4 \<and> list_all (\<lambda>b. b \<le> 255) q"
  by (induction xs v n s rule: parse_ipv4.induct) (auto simp: Let_def split: if_splits)

lemma parse_groups_chars: "parse_groups ip ell s = Some r \<Longrightarrow> list_all ip_char s"
proof (induction ip ell s rule: parse_groups.induct)
  case (1 ip ell s)
  let ?h = "takeWhile is_hex s" and ?r = "dropWhile is_hex s"
  have h: "list_all ip_char ?h"
    by (auto simp: list_all_iff ip_char_def hex_value_char dest: set_takeWhileD)
  have s: "list_all ip_char s" if "list_all ip_char ?r"
    using h that list_all_append [of ip_char ?h ?r] by simp
  note e = "1.prems" [unfolded parse_groups.simps [of ip ell s] Let_def]
  show ?case
  proof (cases "length ip \<ge> 16")
    case True
    with e show ?thesis by (simp split: if_splits)
  next
    case F: False
    with e have h4: "\<not> (?h = [] \<or> length ?h > 4)" by (auto split: if_splits)
    show ?thesis
    proof (cases "?r \<noteq> [] \<and> hd ?r = CHR ''.''")
      case True
      with e F h4 show ?thesis by (auto split: if_splits option.splits dest: parse_ipv4_chars)
    next
      case nd: False
      show ?thesis
      proof (cases "?r")
        case Nil
        show ?thesis by (rule s) (simp only: Nil list.pred_inject)
      next
        case (Cons c u)
        with e F h4 nd have c: "c = CHR '':''" "u \<noteq> []" by (auto split: if_splits)
        have u: "list_all ip_char u"
        proof (cases "hd u = CHR '':''")
          case True
          with e F h4 nd Cons c have "tl u = [] \<or> list_all ip_char (tl u)"
            using "1.IH"(1) [OF F refl refl h4 nd refl] by (auto split: if_splits)
          with True c(2) show ?thesis by (cases u) (auto simp: ip_char_def)
        next
          case False
          with e F h4 nd Cons c show ?thesis
            using "1.IH"(2) [OF F refl refl h4 nd refl] by (auto split: if_splits)
        qed
        moreover have "ip_char (CHR '':'')" by (simp add: ip_char_def)
        ultimately show ?thesis using s Cons c by simp
      qed
    qed
  qed
qed

lemma parse_ip_chars: "parse_ip s = Some b \<Longrightarrow> list_all ip_char s"
proof -
  have v6: "list_all ip_char s" if "parse_ipv6 s = Some b" for b
  proof (cases "prefix ''::'' s")
    case True
    then obtain t where s: "s = ''::'' @ t" by (auto simp: prefix_def)
    have "list_all ip_char t"
    proof (cases "t = []")
      case False
      with that s True obtain r where "parse_groups [] (Some 0) t = Some r"
        by (auto simp: parse_ipv6_def Let_def split: if_splits option.splits)
      then show ?thesis by (rule parse_groups_chars)
    qed simp
    then show ?thesis by (simp add: s ip_char_def)
  next
    case False
    with that obtain r where "parse_groups [] None s = Some r"
      by (auto simp: parse_ipv6_def Let_def split: if_splits option.splits)
    then show ?thesis by (rule parse_groups_chars)
  qed
  assume "parse_ip s = Some b"
  then show ?thesis
    by (auto simp: parse_ip_def split: option.splits if_splits dest: v6 parse_ipv4_chars)
qed

lemma label_chars: "full_match label_re s \<Longrightarrow> c \<in> set s \<Longrightarrow> is_alnum c \<or> c = CHR ''-''"
  by (simp add: label_re_iff)

text \<open>A tunnel host is made of letters, digits, dots, colons and hyphens, and starts with no hyphen.\<close>

lemma valid_host_chars [ok_dest]:
  assumes "valid_host s"
  shows "s \<noteq> [] \<and> hd s \<noteq> CHR ''-'' \<and> list_all (\<lambda>c. ip_char c \<or> c = CHR ''-'') s"
proof (cases "parse_ip s")
  case None
  with assms have l: "\<forall>p \<in> set (split_on (CHR ''.'') s). full_match label_re p"
    by (auto simp: valid_host_def list_all_iff host_part_re_eq)
  have s: "s = join [CHR ''.''] (split_on (CHR ''.'') s)" by (simp add: join_split_on)
  then have "set s \<subseteq> {CHR ''.''} \<union> \<Union> (set ` set (split_on (CHR ''.'') s))"
    using set_join_subset [of "[CHR ''.'']" "split_on (CHR ''.'') s"] by simp
  then have "list_all (\<lambda>c. ip_char c \<or> c = CHR ''-'') s"
    using l label_chars by (fastforce simp: list_all_iff ip_char_def)
  moreover obtain p ps where ps: "split_on (CHR ''.'') s = p # ps"
    using split_on_nonempty [of "CHR ''.''" s] by (cases "split_on (CHR ''.'') s") auto
  then have p: "p \<noteq> []" "is_alnum (hd p)" using l by (auto simp: label_re_iff)
  then have "s \<noteq> [] \<and> hd s = hd p" using s ps by (cases ps) (auto simp: hd_append)
  ultimately show ?thesis using p by auto
next
  case (Some b)
  then have c: "list_all ip_char s" by (rule parse_ip_chars)
  moreover have "s \<noteq> []" using Some by (auto simp: parse_ip_def)
  moreover have "\<not> ip_char (CHR ''-'')" by (simp add: ip_char_def)
  ultimately show ?thesis by (cases s) (auto simp: list_all_iff)
qed

lemma user_chars [ok_dest]:
  "full_match user_re s \<Longrightarrow> s \<noteq> [] \<and> hd s \<noteq> CHR ''-''
     \<and> list_all (\<lambda>c. is_alnum c \<or> c \<in> {CHR ''_'', CHR ''.'', CHR ''-''}) s"
  by (cases s) (auto simp: user_re_iff list_all_iff is_alpha_def char_class_defs)

lemma desc_validate_ok [ok_dest]:
  "desc_validate d = Inr u \<longleftrightarrow> schema d = 1 \<and>
     (\<exists>h. desc_installable d = ''github:gisikw/familiar/'' @ h @ ''#familiar-worker-runtime''
        \<and> length h = 40 \<and> list_all is_lower_hex h)"
proof -
  have "full_match runtime_installable_re (desc_installable d) \<Longrightarrow> desc_installable d \<noteq> []"
    by (auto simp: installable_re_iff)
  then have "desc_validate d = Inr u \<longleftrightarrow> schema d = 1 \<and> full_match runtime_installable_re (desc_installable d)"
    by (auto simp: desc_validate_def desc_is_zero_def descriptor_schema_def)
  then show ?thesis by (simp only: installable_re_iff)
qed

text \<open>
  A descriptor is accepted exactly when its schema is 1 and its installable names one commit of
  Familiar by 40 lower-case hexadecimal digits: no branch, tag or abbreviated commit passes.
\<close>

theorem descriptor_pins_commit:
  "is_ok (desc_validate d) \<longleftrightarrow> schema d = 1 \<and>
     (\<exists>commit. desc_installable d = ''github:gisikw/familiar/'' @ commit @ ''#familiar-worker-runtime''
        \<and> length commit = 40 \<and> list_all is_lower_hex commit)"
  by (simp add: is_ok_iff desc_validate_ok)


definition demo_enrollment :: enrollment where
  "demo_enrollment =
     \<lparr>node_id = ''node-1'', host = ''box'', port = 20022, tunnel_host = ''gw.example'', tunnel_ssh_port = 2222,
      tunnel_user = ''tunnel'', remote_session = ''familiar-fleet'', controller_public_key = demo_key,
      runtime = \<lparr>schema = 1, desc_installable =
        ''github:gisikw/familiar/0123456789abcdef0123456789abcdef01234567#familiar-worker-runtime''\<rparr>,
      tunnel_host_key = demo_key\<rparr>"

lemma demo_enrollment_ok: "validate_enrollment demo_enrollment = Inr ()"
proof -
  have "\<exists>h. desc_installable (runtime demo_enrollment) = ''github:gisikw/familiar/'' @ h @ ''#familiar-worker-runtime''
      \<and> length h = 40 \<and> list_all is_lower_hex h"
    by (rule exI [of _ "''0123456789abcdef0123456789abcdef01234567''"]) code_simp
  then have "desc_validate (runtime demo_enrollment) = Inr ()"
    by (simp add: desc_validate_ok) (simp add: demo_enrollment_def)
  moreover have "full_match node_id_re (node_id demo_enrollment)" "full_match label_re (host demo_enrollment)"
    "valid_host (tunnel_host demo_enrollment)" "full_match user_re (tunnel_user demo_enrollment)"
    "full_match session_re (remote_session demo_enrollment)"
    "validate_public_key (controller_public_key demo_enrollment) = Inr ()"
    "validate_public_key (tunnel_host_key demo_enrollment) = Inr ()"
    "1 \<le> port demo_enrollment" "port demo_enrollment \<le> 65535" "remote_session demo_enrollment = ''familiar-fleet''"
    "1 \<le> tunnel_ssh_port demo_enrollment" "tunnel_ssh_port demo_enrollment \<le> 65535"
    by code_simp+
  ultimately show ?thesis by (simp add: validate_enrollment_def)
qed


end
