(* ===== verification/Resolve.thy ===== *)
theory Resolve
  imports Atomic
begin

text \<open>
  Path resolution through symbolic links, for paths that need not be canonical: where the last element
  ends up, how an entry of a directory is reached, and that a new node changes no path that leads to an
  existing one.  With these a temporary file is invisible wherever \<open>TMPDIR\<close> leads.
\<close>

lemma resolve_last:
  "resolve f fl n cur cs = Inr q \<Longrightarrow> \<not> fl \<Longrightarrow> cs \<noteq> [] \<Longrightarrow> plain (last cs) \<Longrightarrow> q \<noteq> [] \<and> last q = last cs"
proof (induction f fl n cur cs rule: resolve.induct)
  case (2 f fl n cur c cs)
  note IH = "2.IH"
  show ?case
  proof (cases "cs = []")
    case True
    with "2.prems" show ?thesis
      by (auto simp: plain_def split: option.splits node.splits)
  next
    case False
    have t: "last (elems t @ cs) = last cs" for t using False by simp
    show ?thesis
    proof (cases "c = ''.''")
      case True
      with "2.prems" False IH(1) show ?thesis by simp
    next
      case c1: False
      show ?thesis
      proof (cases "c = ''..''")
        case True
        with "2.prems" False IH(2) show ?thesis by simp
      next
        case c2: False
        show ?thesis
        proof (cases "nd f (cur @ [c])")
          case None
          with "2.prems" False c1 c2 show ?thesis by simp
        next
          case (Some x)
          note IHs = IH(3) [OF c1 c2 Some] IH(4) [OF c1 c2 Some]
          show ?thesis
          proof (cases x)
            case (Lnk u)
            with "2.prems" c1 c2 Some False obtain k where k: "n = Suc k" "u \<noteq> []"
              and r: "resolve f fl k (if is_abs u then [] else cur) (elems u @ cs) = Inr q"
              by (cases n) (auto split: if_splits)
            have "q \<noteq> [] \<and> last q = last (elems u @ cs)"
              by (rule IHs(2)) (use Lnk k r False "2.prems" in simp_all)
            then show ?thesis using False by simp
          qed (use "2.prems" False c1 c2 Some IHs(1) in \<open>auto split: if_splits\<close>)
        qed
      qed
    qed
  qed
qed simp

text \<open>Where a directory leads, an entry of it leads one step further.\<close>

lemma resolve_entry:
  "resolve f True n cur cs = Inr q \<Longrightarrow> nd f q = Some (Dir m) \<Longrightarrow> plain c \<Longrightarrow> \<forall>t. nd f (q @ [c]) \<noteq> Some (Lnk t) \<Longrightarrow>
     resolve f fl n cur (cs @ [c]) = Inr (q @ [c])"
proof (induction f True n cur cs rule: resolve.induct)
  case (1 f n cur)
  then show ?case by (auto simp: plain_def split: option.splits node.splits)
next
  case (2 f n cur a cs)
  note IH = "2.hyps"
  show ?case
  proof (cases "a = ''.''")
    case True
    with "2.prems" IH(1) show ?thesis by simp
  next
    case c1: False
    show ?thesis
    proof (cases "a = ''..''")
      case True
      with "2.prems" IH(2) show ?thesis by simp
    next
      case c2: False
      show ?thesis
      proof (cases "nd f (cur @ [a])")
        case None
        with "2.prems" c1 c2 show ?thesis by (auto split: if_splits)
      next
        case (Some x)
        note IHs = IH(3) [OF c1 c2 Some] IH(4) [OF c1 c2 Some]
        show ?thesis
        proof (cases x)
          case (Lnk t)
          with "2.prems" c1 c2 Some obtain k where k: "n = Suc k" "t \<noteq> []"
            and r: "resolve f True k (if is_abs t then [] else cur) (elems t @ cs) = Inr q"
            by (cases n) (auto split: if_splits)
          have "resolve f fl k (if is_abs t then [] else cur) ((elems t @ cs) @ [c]) = Inr (q @ [c])"
            by (rule IHs(2)) (use Lnk k r "2.prems" in simp_all)
          with Lnk k c1 c2 Some show ?thesis by simp
        qed (use "2.prems" c1 c2 Some IHs(1) in \<open>auto split: if_splits\<close>)
      qed
    qed
  qed
qed

text \<open>A new node changes nothing about a path that leads to an existing one.\<close>

lemma resolve_upd:
  "resolve f fl n cur cs = Inr q \<Longrightarrow> nd f q \<noteq> None \<Longrightarrow> nd f p = None \<Longrightarrow> p \<noteq> [] \<Longrightarrow>
     resolve (fs_upd p x f) fl n cur cs = Inr q"
proof (induction f fl n cur cs rule: resolve.induct)
  case (2 f fl n cur a cs)
  note IH = "2.IH"
  show ?case
  proof (cases "a = ''.''")
    case True
    with "2.prems" IH(1) show ?thesis by simp
  next
    case c1: False
    show ?thesis
    proof (cases "a = ''..''")
      case True
      with "2.prems" IH(2) show ?thesis by simp
    next
      case c2: False
      show ?thesis
      proof (cases "nd f (cur @ [a])")
        case None
        with "2.prems" c1 c2 show ?thesis by (auto split: if_splits)
      next
        case (Some y)
        then have "cur @ [a] \<noteq> p" using "2.prems"(3) by auto
        note new = this
        note IHs = IH(3) [OF c1 c2 Some] IH(4) [OF c1 c2 Some]
        show ?thesis
        proof (cases y)
          case (Lnk t)
          show ?thesis
          proof (cases "cs = [] \<and> \<not> fl")
            case True
            with Lnk "2.prems" c1 c2 Some new show ?thesis by simp
          next
            case False
            with Lnk "2.prems" c1 c2 Some obtain k where k: "n = Suc k" "t \<noteq> []"
              and r: "resolve f fl k (if is_abs t then [] else cur) (elems t @ cs) = Inr q"
              by (cases n) (auto split: if_splits)
            have "resolve (fs_upd p x f) fl k (if is_abs t then [] else cur) (elems t @ cs) = Inr q"
              by (rule IHs(2)) (use Lnk k r False "2.prems" in simp_all)
            moreover have "nd (fs_upd p x f) (cur @ [a]) = Some (Lnk t)"
              using Some Lnk new "2.prems"(4) by simp
            ultimately show ?thesis using k c1 c2 False by auto
          qed
        qed (use "2.prems" c1 c2 Some new IHs(1) in \<open>auto split: if_splits\<close>)
      qed
    qed
  qed
qed simp

section \<open>Temporaries in any directory\<close>

definition temp_path :: "string \<Rightarrow> bool" where
  "temp_path t \<longleftrightarrow> t \<noteq> [] \<and> elems t \<noteq> [] \<and> plain (last (elems t)) \<and> temp_name (last (elems t))"

lemma temp_path_located:
  assumes "temp_path t" "locate f wd False t = Inr q"
  shows "hidden q"
proof -
  have "q \<noteq> [] \<and> last q = last (elems t)"
    using assms resolve_last [of f False max_links _ "elems t" q] by (auto simp: temp_path_def locate_def)
  then have "q = butlast q @ [last (elems t)]" by (metis append_butlast_last_id)
  moreover have "hidden (butlast q @ [last (elems t)])" using assms(1) by (simp add: temp_path_def)
  ultimately show ?thesis by metis
qed

lemma wp_remove_temp:
  assumes "temp_path t"
  shows "wp (os_remove t) (\<lambda>_. quietly w) (\<lambda>_. quietly w) w"
  unfolding os_remove_def
proof (rule wp_mutate)
  fix x g u w'
  assume a: "same w u" "moved g w w'"
    and f: "at_path False t (\<lambda>q n. case n of
       None \<Rightarrow> Inl ENOENT
     | Some (Dir _) \<Rightarrow> if list_ex (\<lambda>(r, _). strict_prefix q r) (fs u) then Inl ENOTEMPTY
         else Inr ((), fs_del q (fs u))
     | Some _ \<Rightarrow> Inr ((), fs_del q (fs u))) u = Inr (x, g)"
  from f obtain q where l: "locate (fs u) (cwd u) False t = Inr q"
    and c: "(case nd (fs u) q of
       None \<Rightarrow> Inl ENOENT
     | Some (Dir _) \<Rightarrow> if list_ex (\<lambda>(r, _). strict_prefix q r) (fs u) then Inl ENOTEMPTY
         else Inr ((), fs_del q (fs u))
     | Some _ \<Rightarrow> Inr ((), fs_del q (fs u))) = Inr (x, g)"
    unfolding at_path_def bind_ok_eq_Inr by blast
  from c have "g = fs_del q (fs w)"
    unfolding same_fs [OF a(1)] by (simp split: option.splits node.splits if_splits)
  with l temp_path_located [OF assms] show "quietly w w'" by (intro moved_quietly [OF a(2)]) simp
qed (rule same_quietly)

lemma is_abs_append: "d \<noteq> [] \<Longrightarrow> is_abs (d @ x) = is_abs d"
  by (cases d) simp_all

lemma in_dir_elems:
  assumes "d \<noteq> []" "plain c"
  shows "elems (in_dir d c) = elems d @ [c] \<and> is_abs (in_dir d c) = is_abs d \<and> in_dir d c \<noteq> []"
proof (cases "suffix [SLASH] d")
  case True
  then obtain ys where ys: "d = ys @ [SLASH]" by (auto simp: suffix_def)
  then have "elems d = elems ys" using elems_append_slash [of ys "[]"] by simp
  with True ys assms show ?thesis
    using is_abs_append [OF assms(1), of c] by (simp add: in_dir_def elems_append_slash elems_plain)
next
  case False
  with assms show ?thesis
    by (simp add: in_dir_def elems_append_slash elems_plain is_abs_append)
qed

definition at_temp :: "world \<Rightarrow> string \<Rightarrow> bool" where
  "at_temp w t \<longleftrightarrow> temp_path t \<and> (\<exists>q. locate (fs w) (cwd w) True t = Inr q \<and> hidden q)"

lemma wp_make_temp_any:
  assumes "d \<noteq> []" "temp_name pre" "SLASH \<notin> set pre" "\<forall>t. n \<noteq> Lnk t"
  shows "wp (make_temp n d pre) (\<lambda>t w'. quietly w w' \<and> at_temp w' t) (\<lambda>_. quietly w) w"
proof -
  let ?f = "\<lambda>w. bind_ok (locate (fs w) (cwd w) True d) (\<lambda>q.
      case nd (fs w) q of
        Some (Dir _) \<Rightarrow> (case free_name (fs w) q pre (names w) of
            None \<Rightarrow> Inl EEXIST
          | Some (c, ks) \<Rightarrow> Inr ((c, ks), fs_upd (q @ [c]) n (fs w)))
      | Some _ \<Rightarrow> Inl ENOTDIR
      | None \<Rightarrow> Inl ENOENT)"
  have "wp (mutate ?f) (\<lambda>(c, ks) w'. quietly w w' \<and> at_temp w' (in_dir d c)) (\<lambda>_. quietly w) w"
  proof (rule wp_mutate)
    fix x g u w'
    assume a: "same w u" "?f u = Inr (x, g)" "moved g w w'"
    obtain c ks where x: "x = (c, ks)" by (cases x)
    have u: "cwd u = cwd w" using a(1) by (simp add: same_def)
    from a(2) obtain q where l: "locate (fs w) (cwd w) True d = Inr q"
      and q: "(case nd (fs w) q of
        Some (Dir _) \<Rightarrow> (case free_name (fs w) q pre (names u) of
            None \<Rightarrow> Inl EEXIST
          | Some (c, ks) \<Rightarrow> Inr ((c, ks), fs_upd (q @ [c]) n (fs w)))
      | Some _ \<Rightarrow> Inl ENOTDIR
      | None \<Rightarrow> Inl ENOENT) = Inr ((c, ks), g)"
      unfolding bind_ok_eq_Inr x same_fs [OF a(1)] u by blast
    from q obtain m where m: "nd (fs w) q = Some (Dir m)"
      and fr: "free_name (fs w) q pre (names u) = Some (c, ks)" and g: "g = fs_upd (q @ [c]) n (fs w)"
      by (cases "nd (fs w) q"; cases "the (nd (fs w) q)"; cases "free_name (fs w) q pre (names u)") auto
    from fr obtain k where k: "c = pre @ nat_str k" "nd (fs w) (q @ [c]) = None"
      using free_name_Some by blast
    have c: "plain c" "temp_name c"
      using k(1) assms(2,3) plain_temp_name [of pre k] temp_name_length by auto
    note e = in_dir_elems [OF assms(1) c(1)]
    let ?cur = "if is_abs d then [] else cwd w"
    from l assms(1) have "resolve (fs w) True max_links ?cur (elems d) = Inr q"
      by (simp add: locate_def)
    then have "resolve g True max_links ?cur (elems d) = Inr q"
      unfolding g using m k(2) by (intro resolve_upd) simp_all
    then have "resolve g True max_links ?cur (elems d @ [c]) = Inr (q @ [c])"
      by (rule resolve_entry) (use m c(1) g assms(4) in simp_all)
    then have "locate g (cwd w) True (in_dir d c) = Inr (q @ [c])"
      using e by (simp add: locate_def)
    moreover have "hidden (q @ [c])" using c by simp
    ultimately have "at_temp w' (in_dir d c)"
      using a(3) e c by (auto simp: at_temp_def temp_path_def moved_def)
    moreover have "quietly w w'"
      using c g by (intro moved_quietly [OF a(3)]) simp
    ultimately show "(case x of (c, ks) \<Rightarrow> \<lambda>w'. quietly w w' \<and> at_temp w' (in_dir d c)) w'" by (simp add: x)
  qed (rule same_quietly)
  moreover have "quietly w (w'\<lparr>names := ks\<rparr>)" "at_temp (w'\<lparr>names := ks\<rparr>) t = at_temp w' t"
    if "quietly w w'" for w' ks t
    using that by (simp_all add: quietly_def step_ok_def at_temp_def)
  ultimately show ?thesis
    by (fastforce simp: wp_def make_temp_def split: prod.splits sum.splits)
qed

lemma wp_write_temp:
  assumes "at_temp w t"
  shows "wp (os_write t s) (\<lambda>_. quietly w) (\<lambda>_. quietly w) w"
  unfolding os_write_def
proof (rule wp_mutate)
  fix x g u w'
  assume a: "same w u" "moved g w w'"
    and f: "at_path True t (\<lambda>q n. case n of
       None \<Rightarrow> Inl ENOENT
     | Some (Reg m r) \<Rightarrow> Inr ((), fs_upd q (Reg m (r @ s)) (fs u))
     | Some _ \<Rightarrow> Inl EINVAL) u = Inr (x, g)"
  from assms a(1) obtain q where "locate (fs u) (cwd u) True t = Inr q" "hidden q"
    by (auto simp: at_temp_def same_def)
  with f have "\<exists>y. g = fs_upd q y (fs w)"
    by (auto simp: at_path_def same_fs [OF a(1)] split: option.splits node.splits)
  then obtain y where "g = fs_upd q y (fs w)" ..
  with \<open>hidden q\<close> show "quietly w w'" by (intro moved_quietly [OF a(2)]) simp
qed (rule same_quietly)

end
