(* ===== verification/Apply.thy ===== *)
theory Apply
  imports StoreFacts Enrollment Resolve
begin

text \<open>
  \<open>RuntimeApplier\<close> of \<open>internal/client/runtimeapply.go\<close>: the one path by which a runtime becomes the
  active one, used by \<open>runtime apply\<close> and by the true-up to the enrolled descriptor.  It composes the
  operations of the runtime store; Nix, \<open>nix-store\<close> and \<open>pi\<close> are the parameter \<open>ex\<close>, and what the
  theorems need of them is the hypothesis \<open>respectful\<close>.  The narration (\<open>Progress\<close>) is not modelled;
  the line of \<open>LogRuntimeResult\<close> is in the theory \<open>Cli\<close>.
\<close>

section \<open>The operations\<close>

text \<open>\<open>Lookup\<close> only reads: it resolves an executable name in the world as it is.\<close>

record applier =
  runtime_dir :: string
  nix_name :: string
  nix_store_name :: string
  lookup_fn :: "string \<Rightarrow> world \<Rightarrow> goerr + string"

record apply_result =
  res_target :: string
  res_changed :: bool
  res_skipped :: bool

definition applier_store :: "applier \<Rightarrow> store" where
  "applier_store a = \<lparr>sdir = runtime_dir a\<rparr>"

definition lookup_io :: "applier \<Rightarrow> string \<Rightarrow> string io" where
  "lookup_io a n = (\<lambda>w. (lookup_fn a n w, w))"

definition satisfied_by :: "applier \<Rightarrow> string \<Rightarrow> string option io" where
  "satisfied_by a inst =
     (let s = applier_store a in
      seq (applied s) (\<lambda>r.
      case r of
        None \<Rightarrow> ret None
      | Some rec \<Rightarrow>
          if installable rec \<noteq> inst then ret None
          else
            seq (attempt (pointer s current_name)) (\<lambda>c.
            if c \<noteq> Inr (target rec) then ret None
            else
              seq (attempt (validate (target rec))) (\<lambda>v.
              ret (if is_ok v then Some (target rec) else None)))))"

definition retain :: "prog \<Rightarrow> applier \<Rightarrow> string \<Rightarrow> unit io" where
  "retain ex a t =
     only_if (is_store_path t)
       (seq (lookup_io a (nix_store_name a)) (\<lambda>ns.
        wrap (wrapf ''retain runtime: %w'' []) (register_gc_root ex (applier_store a) ns t)))"

definition switch_over :: "applier \<Rightarrow> string \<Rightarrow> string \<Rightarrow> apply_result io" where
  "switch_over a inst t =
     (let s = applier_store a in
      seq (activate s t) (\<lambda>changed.
      seq (wrap (wrapf ''runtime activated, but pruning old GC roots failed: %w'' []) (prune_gc_roots s)) (\<lambda>_.
      seq (wrap (wrapf ''record applied runtime: %w'' []) (record_applied s \<lparr>installable = inst, target = t\<rparr>)) (\<lambda>_.
      ret \<lparr>res_target = t, res_changed = changed, res_skipped = False\<rparr>))))"

text \<open>What a built runtime must pass before it may be activated.\<close>

definition vet :: "prog \<Rightarrow> applier \<Rightarrow> string \<Rightarrow> unit io" where
  "vet ex a t =
     seq (validate t) (\<lambda>_.
     seq (wrap (wrapf ''runtime failed validation; not activated: %w'' []) (smoke ex t)) (\<lambda>_.
     retain ex a t))"

definition realize :: "prog \<Rightarrow> applier \<Rightarrow> string \<Rightarrow> string io" where
  "realize ex a inst =
     seq (if \<not> is_abs inst then lookup_io a (nix_name a) else ret (nix_name a)) (\<lambda>nix.
     seq (build ex nix inst) (\<lambda>t.
     seq (vet ex a t) (\<lambda>_.
     ret t)))"

definition apply_runtime :: "prog \<Rightarrow> applier \<Rightarrow> string \<Rightarrow> apply_result io" where
  "apply_runtime ex a inst =
     seq (satisfied_by a inst) (\<lambda>sat.
     case sat of
       Some t \<Rightarrow> ret \<lparr>res_target = t, res_changed = False, res_skipped = True\<rparr>
     | None \<Rightarrow> seq (realize ex a inst) (switch_over a inst))"

definition true_up :: "prog \<Rightarrow> applier \<Rightarrow> runtime_descriptor \<Rightarrow> apply_result io" where
  "true_up ex a d =
     seq (lift (map_err (wrapf ''enrolled runtime descriptor: %w'' []) (desc_validate d))) (\<lambda>_.
     wrap (wrapf ''true up to the enrolled runtime %s: %w'' [desc_installable d])
       (apply_runtime ex a (desc_installable d)))"

lemma true_up_ok:
  "true_up ex a d w = (Inr r, w') \<Longrightarrow> desc_validate d = Inr () \<and> apply_runtime ex a (desc_installable d) w = (Inr r, w')"
  by (cases "desc_validate d") (auto simp: true_up_def seq_def lift_def wrap_def split: sum.splits prod.splits)

section \<open>Paths that are left alone\<close>

definition keeps :: "path set \<Rightarrow> world \<Rightarrow> world \<Rightarrow> bool" where
  "keeps S w w' \<longleftrightarrow> (\<forall>p \<in> S. vis (fs w') p = vis (fs w) p)
     \<and> step_ok (\<lambda>f. \<forall>p \<in> S. vis f p = vis (fs w) p) w w'"

lemma keeps_refl [simp, intro]: "keeps S w w"
  by (simp add: keeps_def)

lemma keeps_trans: "keeps S u v \<Longrightarrow> keeps S v w \<Longrightarrow> keeps S u w"
  unfolding keeps_def by (auto intro: step_ok_trans elim!: step_ok_mono)

lemma quietly_keeps: "quietly w w' \<Longrightarrow> keeps S w w'"
  unfolding keeps_def quietly_def by (auto elim: step_ok_mono)

lemma same_keeps: "same w w' \<Longrightarrow> keeps S w w'"
  by (intro quietly_keeps same_quietly)

text \<open>The paths that decide what the store says: its directory, its pointers, its record and roots.\<close>

definition protected :: "store \<Rightarrow> path set" where
  "protected s = {p. prefix p (elems (sdir s))} \<union> loc s ` {''current'', ''previous'', ''applied.json'', ''gcroots''}"

text \<open>
  What is asked of Nix, \<open>nix-store\<close> and \<open>pi\<close>: none of them touches the pointers, the record, or the
  directories they are in.  They may do as they like elsewhere, in \<open>gcroots\<close> for one.
\<close>

definition respectful :: "prog \<Rightarrow> store \<Rightarrow> bool" where
  "respectful ex s \<longleftrightarrow> (\<forall>c w. \<forall>p \<in> protected s. vis (snd (ex c w)) p = vis (fs w) p)"

lemma wp_exec:
  assumes "respectful ex s" and "\<And>r w'. keeps (protected s) w w' \<Longrightarrow> ex c w = (r, fs w') \<Longrightarrow> Q r w'"
  shows "wp (exec ex c) Q E w"
proof -
  obtain r g where e: "ex c w = (r, g)" by (cases "ex c w")
  have "keeps (protected s) w (w\<lparr>fs := g, hist := g # hist w\<rparr>)"
    using assms(1) [unfolded respectful_def, rule_format, of _ c w] e by (simp add: keeps_def step_ok_def)
  with assms(2) [of "w\<lparr>fs := g, hist := g # hist w\<rparr>" r] e show ?thesis
    by (simp add: wp_def exec_def)
qed

lemma protected_dir: "prefix p (elems (sdir s)) \<Longrightarrow> p \<in> protected s"
  by (simp add: protected_def)

lemma protected_loc: "n \<in> {''current'', ''previous'', ''applied.json'', ''gcroots''} \<Longrightarrow> loc s n \<in> protected s"
  by (auto simp: protected_def)

lemma keeps_store_ok: "keeps (protected s) w w' \<Longrightarrow> store_ok s (vis (fs w)) \<Longrightarrow> store_ok s (vis (fs w'))"
  by (simp add: keeps_def store_ok_def real_dir_def protected_dir)

lemma keeps_gc_ok: "keeps (protected s) w w' \<Longrightarrow> gc_ok s (vis (fs w)) \<Longrightarrow> gc_ok s (vis (fs w'))"
  by (erule gc_ok_cong) (auto simp: keeps_def loc_def prefix_snoc intro!: protected_dir
      protected_loc [of "''gcroots''", unfolded loc_def])

lemma keeps_loc:
  "keeps (protected s) w w' \<Longrightarrow> n \<in> {''current'', ''previous'', ''applied.json''} \<Longrightarrow>
     vis (fs w') (loc s n) = vis (fs w) (loc s n)"
  by (auto simp: keeps_def protected_loc)

lemma keeps_link:
  "keeps (protected s) w w' \<Longrightarrow> n \<in> {''current'', ''previous''} \<Longrightarrow>
     link_of (vis (fs w')) s n = link_of (vis (fs w)) s n"
  using keeps_loc [of s w w' n] by (auto simp: link_of_def)

section \<open>Up to the switch\<close>

lemma look_closed_keeps [simp]: "look_closed (keeps S w)"
  unfolding look_closed_def using keeps_trans same_keeps by blast

lemma stays_keeps: "(\<And>w. wp m (\<lambda>_. keeps S w) (\<lambda>_. keeps S w) w) \<Longrightarrow> stays (keeps S u) m"
  by (rule staysI) (rule wp_mono, assumption, (rule keeps_trans, assumption, assumption)+)

lemma stays_quietly: "(\<And>w. wp m (\<lambda>_. quietly w) (\<lambda>_. quietly w) w) \<Longrightarrow> stays (keeps S u) m"
  by (rule stays_keeps) (rule wp_mono, assumption, (rule quietly_keeps, assumption)+)

lemma stays_exec [stays]: "respectful ex s \<Longrightarrow> stays (keeps (protected s) u) (exec ex c)"
  by (rule stays_keeps) (auto intro: wp_exec)

lemma stays_validate [stays]: "look_closed I \<Longrightarrow> stays I (validate t)"
  unfolding validate_def by (intro stays)

lemma stays_lookup_io [stays]: "stays I (lookup_io a n)"
  by (auto simp: stays_def wp_def lookup_io_def split: sum.split)

lemma wp_smoke:
  assumes r: "respectful ex s"
  shows "wp (smoke ex t) (\<lambda>_. keeps (protected s) w) (\<lambda>_. keeps (protected s) w) w"
proof -
  let ?K = "keeps (protected s) w" and ?d = "temp_dir (environ w)"
  have call: "stays ?K (seq (wrap g os_close) (\<lambda>_. seq (exec ex c) (\<lambda>(out, err).
      case err of Some e \<Rightarrow> fail (h out e) | None \<Rightarrow> ret ())))" for g c h
    by (intro stays look_closed_keeps r)
  have give_up: "stays ?K (seq (attempt os_close) (\<lambda>_. fail e))" for e
    by (intro stays look_closed_keeps)
  have run: "wp (smoke_run ex es t k) (\<lambda>_. ?K) (\<lambda>_. ?K) w1" if "quietly w w1" "at_temp w1 k" for es k w1
    unfolding smoke_run_def wp_seq [of "attempt (os_write k (''smoke-only'' @ [LF]))"] wp_attempt
    by (rule wp_mono [OF wp_write_temp [OF that(2)]])
      (auto simp del: wp_seq intro!: staysD [OF call] staysD [OF give_up] quietly_keeps
        intro: quietly_trans [OF that(1)])
  have body: "wp (deferring (smoke_run ex (environ w) t k) (os_remove k)) (\<lambda>_. ?K) (\<lambda>_. ?K) w1"
    if "quietly w w1 \<and> at_temp w1 k" for k w1
  proof -
    have "stays ?K (os_remove k)"
      using that by (intro stays_quietly wp_remove_temp) (simp add: at_temp_def)
    then show ?thesis
      unfolding wp_deferring using that by (intro wp_mono [OF run]) (auto intro: staysD)
  qed
  have "wp (os_create_temp ?d ''familiar-fleet-smoke-token-'')
      (\<lambda>t w'. quietly w w' \<and> at_temp w' t) (\<lambda>_. quietly w) w"
    unfolding os_create_temp_def by (rule wp_make_temp_any) (simp_all add: temp_dir_def Let_def)
  then have "wp (seq (wrap (wrapf ''create smoke-test token: %w'' []) (os_create_temp ?d ''familiar-fleet-smoke-token-''))
      (\<lambda>k. deferring (smoke_run ex (environ w) t k) (os_remove k))) (\<lambda>_. ?K) (\<lambda>_. ?K) w"
    unfolding wp_seq wp_wrap by (rule wp_mono) (use body quietly_keeps in blast)+
  then show ?thesis by (simp only: wp_def smoke_def)
qed

lemmas stays_smoke [stays] = stays_keeps [OF wp_smoke]

text \<open>With the roots directory in place, registering a root leaves everything protected alone.\<close>

lemma stays_register_gc_root:
  assumes r: "respectful ex s" and g: "gc_ok s (vis (fs u))"
  shows "stays (keeps (protected s) u) (register_gc_root ex s ns t)"
proof -
  have "stays (keeps (protected s) u) (os_mkdir_all (gc_roots s) o700)"
  proof (rule staysI)
    fix w
    assume k: "keeps (protected s) u w"
    then have "gc_ok s (vis (fs w))" using g by (rule keeps_gc_ok)
    then have "wp (os_mkdir_all (gc_roots s) o700) (\<lambda>_. idle w) (\<lambda>_. idle w) w"
      using store_path [of s "vis (fs w)" "''gcroots''"]
      by (intro wp_mkdir_all_real) (simp_all add: gc_ok_def gc_roots_def)
    then show "wp (os_mkdir_all (gc_roots s) o700) (\<lambda>_. keeps (protected s) u) (\<lambda>_. keeps (protected s) u) w"
      by (rule wp_mono) (rule keeps_trans [OF k quietly_keeps [OF idle_quietly]], assumption)+
  qed
  then show ?thesis
    unfolding register_gc_root_def by (intro stays look_closed_keeps r)
qed

lemma stays_retain:
  assumes "respectful ex (applier_store a)" "gc_ok (applier_store a) (vis (fs u))"
  shows "stays (keeps (protected (applier_store a)) u) (retain ex a t)"
  unfolding retain_def by (intro stays stays_register_gc_root assms)

text \<open>What \<open>Build\<close> may return: the cleaned path itself, or the one output path Nix printed.\<close>

definition realized :: "prog \<Rightarrow> string \<Rightarrow> string \<Rightarrow> bool" where
  "realized ex inst t \<longleftrightarrow>
     (if is_abs inst then t = clean inst
      else \<exists>nix w out. fst (ex (build_cmd nix inst) w) = (out, None) \<and> split_fields out = [t])"

lemma wp_build:
  assumes r: "respectful ex s"
  shows "wp (build ex nix inst) (\<lambda>t w'. keeps (protected s) w w' \<and> realized ex inst t) (\<lambda>_. keeps (protected s) w) w"
proof -
  have "wp (exec ex (build_cmd nix inst)) (\<lambda>(out, err). wp (case err of
          Some e \<Rightarrow> fail (wrapf ''nix build %s: %w'' [inst] e)
        | None \<Rightarrow> (case split_fields out of [p] \<Rightarrow> ret p
             | ps \<Rightarrow> fail (errorf ''nix build %s produced %d output paths; expected exactly one''
                             [inst, nat_str (length ps)])))
      (\<lambda>t w'. keeps (protected s) w w' \<and> realized ex inst t) (\<lambda>_. keeps (protected s) w)) (\<lambda>_. keeps (protected s) w) w"
    if "\<not> is_abs inst"
  proof (rule wp_exec [OF r])
    fix r w'
    assume k: "keeps (protected s) w w'" and e: "ex (build_cmd nix inst) w = (r, fs w')"
    obtain out err where ro: "r = (out, err)" by (cases r)
    have "realized ex inst p" if "err = None" "split_fields out = [p]" for p
      using that \<open>\<not> is_abs inst\<close> e ro unfolding realized_def by (metis fst_conv)
    with k ro show "(case r of (out, err) \<Rightarrow> wp (case err of
          Some e \<Rightarrow> fail (wrapf ''nix build %s: %w'' [inst] e)
        | None \<Rightarrow> (case split_fields out of [p] \<Rightarrow> ret p
             | ps \<Rightarrow> fail (errorf ''nix build %s produced %d output paths; expected exactly one''
                             [inst, nat_str (length ps)])))
      (\<lambda>t w'. keeps (protected s) w w' \<and> realized ex inst t) (\<lambda>_. keeps (protected s) w)) w'"
      by (simp split: option.split list.split)
  qed
  then show ?thesis
    by (simp add: build_def realized_def split_def)
qed

lemma stays_vet:
  assumes "respectful ex (applier_store a)" "gc_ok (applier_store a) (vis (fs u))"
  shows "stays (keeps (protected (applier_store a)) u) (vet ex a t)"
  unfolding vet_def by (intro stays stays_retain look_closed_keeps assms)

lemma wp_lookup_io: "(\<And>x. Q x w) \<Longrightarrow> (\<And>e. E e w) \<Longrightarrow> wp (lookup_io a n) Q E w"
  by (cases "lookup_fn a n w") (auto simp: wp_def lookup_io_def)

lemma wp_realize:
  assumes r: "respectful ex (applier_store a)" and g: "gc_ok (applier_store a) (vis (fs w))"
  shows "wp (realize ex a inst)
    (\<lambda>t w'. keeps (protected (applier_store a)) w w' \<and> realized ex inst t)
    (\<lambda>_. keeps (protected (applier_store a)) w) w"
proof -
  let ?K = "keeps (protected (applier_store a)) w"
  have vet: "wp (vet ex a t) (\<lambda>_ w'. ?K w' \<and> realized ex inst t) (\<lambda>_. ?K) w1"
    if "?K w1 \<and> realized ex inst t" for t w1
    using that by (intro wp_mono [OF staysD [OF stays_vet [OF assms]]]) auto
  have "wp (build ex nix inst) (\<lambda>t. wp (vet ex a t) (\<lambda>_ w'. ?K w' \<and> realized ex inst t) (\<lambda>_. ?K)) (\<lambda>_. ?K) w" for nix
    by (rule wp_mono [OF wp_build [OF r]]) (erule vet, assumption)
  then show ?thesis
    unfolding realize_def by (auto intro!: wp_lookup_io)
qed

section \<open>The switch\<close>

text \<open>
  \<open>as_recorded s inst ex u w\<close>: a provenance record is the one of \<open>u\<close>, or it is the new one and
  \<open>current\<close> already names its target.
\<close>

definition as_recorded :: "store \<Rightarrow> prog \<Rightarrow> string \<Rightarrow> view \<Rightarrow> view \<Rightarrow> bool" where
  "as_recorded s ex inst v v' \<longleftrightarrow> v' (loc s ''applied.json'') = v (loc s ''applied.json'')
     \<or> (\<exists>t. realized ex inst t \<and> link_of v' s ''current'' = Some (clean t)
          \<and> v' (loc s ''applied.json'') = Some (Reg o600 (encode_applied \<lparr>installable = inst, target = t\<rparr>)))"

definition tracked :: "store \<Rightarrow> prog \<Rightarrow> string \<Rightarrow> view \<Rightarrow> world \<Rightarrow> world \<Rightarrow> bool" where
  "tracked s ex inst v w w' \<longleftrightarrow> as_recorded s ex inst v (vis (fs w'))
     \<and> step_ok (\<lambda>f. as_recorded s ex inst v (vis f)) w w'"

lemma keeps_tracked:
  "vis (fs w) (loc s ''applied.json'') = v (loc s ''applied.json'') \<Longrightarrow> keeps {loc s ''applied.json''} w w' \<Longrightarrow>
     tracked s ex inst v w w'"
  by (auto simp: tracked_def keeps_def as_recorded_def elim!: step_ok_mono)

lemma tracked_trans: "tracked s ex inst v u w \<Longrightarrow> tracked s ex inst v w w' \<Longrightarrow> tracked s ex inst v u w'"
  unfolding tracked_def by (auto intro: step_ok_trans)

lemma keeps_mono: "keeps S w w' \<Longrightarrow> T \<subseteq> S \<Longrightarrow> keeps T w w'"
  unfolding keeps_def by (auto elim!: step_ok_mono)

definition pointers :: "store \<Rightarrow> path set" where
  "pointers s = {loc s ''current'', loc s ''previous''}"

lemma activation_frame:
  "p \<notin> pointers s \<Longrightarrow> half_activated v s p = v p"
  "p \<notin> pointers s \<Longrightarrow> activated v s t p = v p"
  by (simp_all add: half_activated_facts activated_facts pointers_def)

lemma activate_keeps:
  assumes "store_ok s (vis (fs w))"
  shows "wp (activate s t)
    (\<lambda>_ w'. keeps (- pointers s) w w' \<and> link_of (vis (fs w')) s ''current'' = Some (clean t) \<and> usable w (clean t))
    (\<lambda>_. keeps (- pointers s) w) w"
proof (rule wp_mono [OF wp_activate [OF assms]])
  fix b w'
  assume "usable w (clean t)
       \<and> (b \<longrightarrow> link_of (vis (fs w)) s current_name \<noteq> Some (clean t)
            \<and> vis (fs w') = activated (vis (fs w)) s (clean t)
            \<and> step_ok (\<lambda>f. vis f \<in> {vis (fs w), half_activated (vis (fs w)) s,
                 activated (vis (fs w)) s (clean t)}) w w'
            \<and> (link_of (vis (fs w)) s current_name \<noteq> None \<longrightarrow> (\<exists>f \<in> set (hist w'). vis f = half_activated (vis (fs w)) s)))
       \<and> (\<not> b \<longrightarrow> link_of (vis (fs w)) s current_name = Some (clean t) \<and> idle w w')"
  then show "keeps (- pointers s) w w' \<and> link_of (vis (fs w')) s ''current'' = Some (clean t) \<and> usable w (clean t)"
    by (cases b) (auto simp: keeps_def activated_facts(1) activation_frame idle_def elim!: step_ok_mono)
qed (auto simp: keeps_def activation_frame elim!: step_ok_mono)

definition root_entries :: "store \<Rightarrow> path set" where
  "root_entries s = {loc s ''gcroots'' @ [n] |n. True}"

lemma pruned_frame: "p \<notin> root_entries s \<Longrightarrow> pruned v (loc s ''gcroots'') K ms p = v p"
  by (auto simp: pruned_def root_entries_def)

lemma prune_keeps:
  assumes "gc_ok s (vis (fs w))"
  shows "wp (prune_gc_roots s) (\<lambda>_. keeps (- root_entries s) w) (\<lambda>_. keeps (- root_entries s) w) w"
  by (rule wp_mono [OF wp_prune_gc_roots [OF assms]])
    (auto simp: keeps_def pruning_def pruned_frame elim!: step_ok_mono)

lemma frame_members [simp]:
  "loc s ''applied.json'' \<in> - pointers s" "loc s n \<in> - root_entries s"
  by (auto simp: pointers_def root_entries_def loc_def)

lemma gc_ok_keeps:
  assumes "keeps S w w'" "{p. prefix p (loc s ''gcroots'')} \<subseteq> S" "gc_ok s (vis (fs w))"
  shows "gc_ok s (vis (fs w'))"
  using assms(3) by (rule gc_ok_cong) (use assms(1,2) in \<open>auto simp: keeps_def\<close>)

lemma roots_prefix_frame:
  "{p. prefix p (loc s ''gcroots'')} \<subseteq> - pointers s" "{p. prefix p (loc s ''gcroots'')} \<subseteq> - root_entries s"
  by (auto simp: pointers_def root_entries_def loc_def prefix_snoc dest: prefix_length_le)

text \<open>
  The switch, from a tree whose record is still that of \<open>v\<close>: it ends with the new record and the pointer
  it speaks of, and at no point is there a record whose pointer is not yet in place.
\<close>

lemma wp_switch_over:
  assumes s: "s = applier_store a" and g: "gc_ok s (vis (fs w))" and t: "realized ex inst t"
    and v: "vis (fs w) (loc s ''applied.json'') = v (loc s ''applied.json'')"
  shows "wp (switch_over a inst t)
    (\<lambda>r w'. res_target r = t \<and> \<not> res_skipped r
       \<and> link_of (vis (fs w')) s ''current'' = Some (clean t)
       \<and> vis (fs w') (loc s ''applied.json'') = Some (Reg o600 (encode_applied \<lparr>installable = inst, target = t\<rparr>))
       \<and> gc_ok s (vis (fs w')) \<and> tracked s ex inst v w w')
    (\<lambda>_. tracked s ex inst v w) w"
proof -
  let ?A = "loc s ''applied.json''" and ?C = "loc s ''current''"
  let ?r = "\<lparr>installable = inst, target = t\<rparr>"
  let ?E = "\<lambda>_ :: goerr. tracked s ex inst v w"
  let ?done = "\<lambda>w'. link_of (vis (fs w')) s ''current'' = Some (clean t)
       \<and> vis (fs w') ?A = Some (Reg o600 (encode_applied ?r)) \<and> gc_ok s (vis (fs w')) \<and> tracked s ex inst v w w'"
  have tr: "tracked s ex inst v w w'" if "keeps {?A} w w'" for w'
    using v that by (rule keeps_tracked)
  have rec: "wp (record_applied s ?r) (\<lambda>_. ?done) ?E w2"
    if k: "keeps {?A} w w2" and c: "link_of (vis (fs w2)) s ''current'' = Some (clean t)"
      and g2: "gc_ok s (vis (fs w2))" for w2
  proof (rule wp_mono [OF wp_record_applied])
    show "store_ok s (vis (fs w2))" using g2 by (simp add: gc_ok_def)
  next
    fix u w'
    assume cm: "commits (vis (fs w2)) (loc s applied_name) (Reg o600 (encode_applied ?r)) w2 w'"
    have old: "vis (fs w2) ?A = v ?A" using k v by (simp add: keeps_def)
    let ?v' = "(vis (fs w2))(?A \<mapsto> Reg o600 (encode_applied ?r))"
    have l: "link_of ?v' s ''current'' = Some (clean t)" using c by (simp add: link_of_def)
    then have new: "as_recorded s ex inst v ?v'" using t by (auto simp: as_recorded_def)
    have "as_recorded s ex inst v (vis (fs w2))" using old by (simp add: as_recorded_def)
    with new cm have "tracked s ex inst v w2 w'"
      by (auto simp: commits_def tracked_def elim!: step_ok_mono)
    moreover have "gc_ok s ?v'"
      using g2 by (rule gc_ok_cong) (auto simp: loc_def prefix_snoc dest: prefix_length_le)
    ultimately show "?done w'"
      using cm l tracked_trans [OF tr [OF k]] by (simp add: commits_def)
  next
    fix e w'
    assume "quietly w2 w'"
    then show "?E e w'" using k by (intro tr) (blast intro: keeps_trans quietly_keeps)
  qed
  have pru: "wp (prune_gc_roots s) (\<lambda>_. wp (record_applied s ?r) (\<lambda>_. ?done) ?E) ?E w1"
    if k: "keeps (- pointers s) w w1" and c: "link_of (vis (fs w1)) s ''current'' = Some (clean t)" for w1
  proof -
    have kA: "keeps {?A} w w1" using k by (rule keeps_mono) (simp add: pointers_def)
    have g1: "gc_ok s (vis (fs w1))" by (rule gc_ok_keeps [OF k roots_prefix_frame(1) g])
    have kk: "keeps {?A} w w2" if "keeps (- root_entries s) w1 w2" for w2
      by (rule keeps_trans [OF kA keeps_mono [OF that]]) (simp add: frame_members(2) [simplified])
    show ?thesis
    proof (rule wp_mono [OF prune_keeps [OF g1]])
      fix u w2
      assume k2: "keeps (- root_entries s) w1 w2"
      then have "vis (fs w2) ?C = vis (fs w1) ?C"
        using frame_members(2) unfolding keeps_def by blast
      then have "link_of (vis (fs w2)) s ''current'' = Some (clean t)" using c by (simp add: link_of_def)
      then show "wp (record_applied s ?r) (\<lambda>_. ?done) ?E w2"
        using k2 kk g1 by (intro rec gc_ok_keeps [OF k2 roots_prefix_frame(2)])
    qed (auto intro: tr kk)
  qed
  have "wp (activate s t) (\<lambda>_. wp (prune_gc_roots s) (\<lambda>_. wp (record_applied s ?r) (\<lambda>_. ?done) ?E) ?E) ?E w"
  proof (rule wp_mono [OF activate_keeps])
    fix e w'
    assume "keeps (- pointers s) w w'"
    then have "keeps {?A} w w'" by (rule keeps_mono) (simp add: pointers_def)
    then show "?E e w'" by (rule tr)
  qed (use g pru in \<open>auto simp: gc_ok_def\<close>)
  then show ?thesis
    unfolding switch_over_def Let_def s by simp
qed

section \<open>Applying\<close>

text \<open>The cheap path only looks, cannot fail, and answers with a usable current runtime.\<close>

lemma wp_satisfied_by:
  assumes st: "store_ok (applier_store a) (vis (fs w))"
  shows "wp (satisfied_by a inst)
    (\<lambda>r w'. same w w' \<and> (\<forall>t. r = Some t \<longrightarrow> link_of (vis (fs w)) (applier_store a) ''current'' = Some t \<and> usable w t))
    (\<lambda>_ _. False) w"
    (is "wp _ ?Q ?E w")
proof -
  let ?s = "applier_store a"
  have v: "wp (validate t) (\<lambda>_. ?Q (Some t)) (\<lambda>_. ?Q None) w1"
    if "same w w1" "link_of (vis (fs w)) ?s ''current'' = Some t" for t w1
    by (rule wp_validate) (use that usable_same in \<open>auto intro: same_trans\<close>)
  have c: "wp (attempt (pointer ?s current_name)) (\<lambda>c. wp (if c \<noteq> Inr t then ret None
      else seq (attempt (validate t)) (\<lambda>v. ret (if is_ok v then Some t else None))) ?Q ?E) ?E w1"
    if s: "same w w1" for t w1
    unfolding wp_attempt
  proof (rule wp_pointer)
    fix x w'
    assume "same w1 w'" "vis (fs w1) (loc ?s current_name) = Some (Lnk x)"
    then show "wp (if Inr x \<noteq> Inr t then ret None
      else seq (attempt (validate t)) (\<lambda>v. ret (if is_ok v then Some t else None))) ?Q ?E w'"
      using v [OF same_trans [OF s]] same_trans [OF s] by (auto simp: link_of_def same_fs [OF s])
  qed (use st in \<open>auto simp: same_fs [OF s] temp_name_def intro: same_trans [OF s]\<close>)
  have go: "wp (case r of None \<Rightarrow> ret None
      | Some rec \<Rightarrow>
          if installable rec \<noteq> inst then ret None
          else seq (attempt (pointer ?s current_name)) (\<lambda>c. if c \<noteq> Inr (target rec) then ret None
            else seq (attempt (validate (target rec))) (\<lambda>v.
              ret (if is_ok v then Some (target rec) else None)))) ?Q ?E w1"
    if "same w w1" for r w1
    using c [OF that] that by (cases r) (auto simp del: wp_attempt)
  show ?thesis
    unfolding satisfied_by_def applied_def Let_def wp_seq wp_attempt
    by (rule wp_readfile) (auto simp del: wp_seq wp_attempt simp: wp_seq [of _ ret] intro!: go)
qed

lemma tracked_from_start:
  assumes "keeps (protected s) w w1" "tracked s ex inst (vis (fs w)) w1 w'"
  shows "tracked s ex inst (vis (fs w)) w w'"
proof -
  have "keeps {loc s ''applied.json''} w w1" using assms(1) by (rule keeps_mono) (simp add: protected_def)
  with assms(2) show ?thesis by (blast intro: tracked_trans keeps_tracked)
qed

lemma wp_apply_runtime:
  assumes r: "respectful ex (applier_store a)" and g: "gc_ok (applier_store a) (vis (fs w))"
  defines "s \<equiv> applier_store a"
  shows "wp (apply_runtime ex a inst)
    (\<lambda>r w'. (if res_skipped r
        then fs w' = fs w \<and> \<not> res_changed r \<and> link_of (vis (fs w)) s ''current'' = Some (res_target r) \<and> usable w (res_target r)
        else realized ex inst (res_target r) \<and> link_of (vis (fs w')) s ''current'' = Some (clean (res_target r))
          \<and> vis (fs w') (loc s ''applied.json'') = Some (Reg o600 (encode_applied \<lparr>installable = inst, target = res_target r\<rparr>)))
      \<and> gc_ok s (vis (fs w')) \<and> tracked s ex inst (vis (fs w)) w w')
    (\<lambda>_. tracked s ex inst (vis (fs w)) w) w"
    (is "wp _ ?Q ?E w")
proof -
  have quiet: "tracked s ex inst (vis (fs w)) w w'" if "same w w'" for w'
    using that by (intro keeps_tracked same_keeps) simp_all
  have sw: "wp (switch_over a inst t) ?Q ?E w2"
    if k: "keeps (protected s) w w2" and t: "realized ex inst t" for t w2
  proof -
    have "gc_ok s (vis (fs w2))" using keeps_gc_ok [OF k] g by (simp add: s_def)
    moreover have "vis (fs w2) (loc s ''applied.json'') = vis (fs w) (loc s ''applied.json'')"
      by (rule keeps_loc [OF k]) simp
    ultimately show ?thesis
      by (intro wp_mono [OF wp_switch_over [OF s_def [THEN meta_eq_to_obj_eq] _ t]])
        (use t tracked_from_start [OF k] in auto)
  qed
  have rz: "wp (seq (realize ex a inst) (switch_over a inst)) ?Q ?E w1" if s1: "same w w1" for w1
  proof -
    have g1: "gc_ok (applier_store a) (vis (fs w1))" using g s1 by (simp add: same_fs)
    show ?thesis
      unfolding wp_seq
    proof (rule wp_mono [OF wp_realize [OF r g1]])
      fix t w2
      assume "keeps (protected (applier_store a)) w1 w2 \<and> realized ex inst t"
      then show "wp (switch_over a inst t) ?Q ?E w2"
        using keeps_trans [OF same_keeps [OF s1]] by (intro sw) (auto simp: s_def)
    next
      fix e w2
      assume "keeps (protected (applier_store a)) w1 w2"
      then have k: "keeps (protected s) w w2"
        using keeps_trans [OF same_keeps [OF s1]] by (auto simp: s_def)
      have "keeps {loc s ''applied.json''} w w2" using k by (rule keeps_mono) (simp add: protected_def)
      then show "?E e w2" by (simp add: keeps_tracked)
    qed
  qed
  have st: "store_ok (applier_store a) (vis (fs w))" using g by (simp add: gc_ok_def)
  show ?thesis
    unfolding apply_runtime_def wp_seq [of "satisfied_by a inst"]
  proof (rule wp_mono [OF wp_satisfied_by [OF st]])
    fix r w'
    assume h: "same w w' \<and> (\<forall>t. r = Some t \<longrightarrow> link_of (vis (fs w)) (applier_store a) ''current'' = Some t \<and> usable w t)"
    show "wp (case r of None \<Rightarrow> seq (realize ex a inst) (switch_over a inst)
       | Some t \<Rightarrow> ret \<lparr>res_target = t, res_changed = False, res_skipped = True\<rparr>) ?Q ?E w'"
    proof (cases r)
      case None
      then show ?thesis using rz h by simp
    next
      case (Some t)
      moreover have "fs w' = fs w" using h by (simp add: same_fs)
      ultimately show ?thesis using h quiet g by (simp add: s_def)
    qed
  qed simp
qed

end
