(* ===== verification/StoreSpec.thy ===== *)
theory StoreSpec
  imports StoreFacts
begin

text \<open>
  What the runtime store promises, said without a file system: two slots, one for the current and one
  for the previous runtime.  \<open>Activate\<close> and \<open>Rollback\<close> on the real tree refine this specification, one
  operation at a time and so in every sequence.
\<close>

section \<open>The specification\<close>

type_synonym slots = "string option \<times> string option"

datatype store_op = Switch string | SwapBack

fun switch_slots :: "string \<Rightarrow> slots \<Rightarrow> slots" where
  "switch_slots t (c, p) = (if c = Some t then (c, p) else (Some t, case c of None \<Rightarrow> p | Some old \<Rightarrow> Some old))"

fun spec_step :: "store_op \<Rightarrow> slots \<Rightarrow> slots" where
  "spec_step (Switch t) sl = switch_slots (clean t) sl"
| "spec_step SwapBack (c, p) = (case p of None \<Rightarrow> (c, p) | Some b \<Rightarrow> switch_slots (clean b) (c, p))"

text \<open>An operation that fails has done nothing, or has only noted the current runtime as the previous one.\<close>

definition spec_half :: "slots \<Rightarrow> slots" where
  "spec_half sl = (fst sl, case fst sl of None \<Rightarrow> snd sl | Some old \<Rightarrow> Some old)"

fun spec_allows :: "store_op \<Rightarrow> bool \<Rightarrow> slots \<Rightarrow> slots \<Rightarrow> bool" where
  "spec_allows op True sl sl' \<longleftrightarrow> sl' = spec_step op sl"
| "spec_allows op False sl sl' \<longleftrightarrow> sl' \<in> {sl, spec_half sl}"

section \<open>The store as an implementation\<close>

definition slots_in :: "store \<Rightarrow> view \<Rightarrow> slots" where
  "slots_in s v = (link_of v s ''current'', link_of v s ''previous'')"

definition slots_of :: "store \<Rightarrow> world \<Rightarrow> slots" where
  "slots_of s w = slots_in s (vis (fs w))"

fun store_op_run :: "store \<Rightarrow> store_op \<Rightarrow> unit io" where
  "store_op_run s (Switch t) = seq (activate s t) (\<lambda>_. ret ())"
| "store_op_run s SwapBack = seq (rollback s) (\<lambda>_. ret ())"

fun store_run :: "store \<Rightarrow> store_op list \<Rightarrow> world \<Rightarrow> (bool \<times> world) list" where
  "store_run s [] w = []"
| "store_run s (op # ops) w =
     (let (r, w') = store_op_run s op w in (is_ok r, w') # store_run s ops w')"

fun spec_trace :: "store_op list \<Rightarrow> slots \<Rightarrow> (bool \<times> slots) list \<Rightarrow> bool" where
  "spec_trace [] sl tr \<longleftrightarrow> tr = []"
| "spec_trace (op # ops) sl [] \<longleftrightarrow> False"
| "spec_trace (op # ops) sl ((ok, sl') # tr) \<longleftrightarrow> spec_allows op ok sl sl' \<and> spec_trace ops sl' tr"

lemma slots_half: "slots_in s (half_activated v s) = spec_half (slots_in s v)"
  by (simp add: slots_in_def spec_half_def half_activated_facts split: option.split)

lemma slots_activated:
  "link_of v s ''current'' \<noteq> Some t \<Longrightarrow> slots_in s (activated v s t) = switch_slots t (slots_in s v)"
  by (simp add: slots_in_def activated_facts half_activated_facts split: option.split)

lemma slots_kept: "link_of v s ''current'' = Some t \<Longrightarrow> switch_slots t (slots_in s v) = slots_in s v"
  by (simp add: slots_in_def)

lemma slots_swap: "link_of v s ''previous'' = Some p \<Longrightarrow> spec_step SwapBack (slots_in s v) = switch_slots (clean p) (slots_in s v)"
  by (simp add: slots_in_def)

lemmas slots_rules = slots_half slots_activated slots_kept slots_swap

lemma store_ok_half: "store_ok s v \<Longrightarrow> store_ok s (half_activated v s)"
  by (auto simp: half_activated_def split: option.split)

lemma wp_store_op:
  assumes "store_ok s (vis (fs w))"
  shows "wp (store_op_run s op)
    (\<lambda>_ w'. slots_of s w' = spec_step op (slots_of s w) \<and> store_ok s (vis (fs w')))
    (\<lambda>_ w'. slots_of s w' \<in> {slots_of s w, spec_half (slots_of s w)} \<and> store_ok s (vis (fs w'))) w"
proof (cases op)
  case (Switch t)
  show ?thesis unfolding Switch store_op_run.simps wp_seq wp_ret slots_of_def
    by (rule wp_mono [OF wp_activate [OF assms]])
      (use assms in \<open>auto simp: slots_rules store_ok_activated store_ok_half idle_def
         simp del: switch_slots.simps\<close>)
next
  case SwapBack
  show ?thesis unfolding SwapBack store_op_run.simps wp_seq wp_ret slots_of_def
    by (rule wp_mono [OF wp_rollback [OF assms]])
      (use assms in \<open>auto simp: slots_rules store_ok_activated store_ok_half rolled_back_def
         simp del: switch_slots.simps\<close>)
qed

text \<open>
  C2. In every sequence of \<open>Activate\<close> and \<open>Rollback\<close> calls, some of which may fail at any system call,
  the two pointers move exactly as the two-slot specification allows: a success is the specified
  step, and a failure changes nothing or only notes the current runtime as the previous one too.
\<close>

theorem store_refines:
  assumes "store_ok s (vis (fs w))"
  shows "spec_trace ops (slots_of s w) (map (\<lambda>(ok, w'). (ok, slots_of s w')) (store_run s ops w))"
  using assms
proof (induction ops arbitrary: w)
  case (Cons op ops)
  obtain r w' where run: "store_op_run s op w = (r, w')" by (rule prod.exhaust)
  from wp_run [OF wp_store_op [OF Cons.prems] run]
  have "spec_allows op (is_ok r) (slots_of s w) (slots_of s w')" "store_ok s (vis (fs w'))"
    by (cases r; simp)+
  with Cons.IH [of w'] run show ?case by simp
qed simp

end
