(* ===== verification/StoreProps.thy ===== *)
theory StoreProps
  imports StoreSpec
begin

text \<open>
  The properties of the runtime store, with a small concrete world on which each is applied: a store
  in \<open>/s\<close> and two runtimes, \<open>/a\<close> and \<open>/b\<close>.
\<close>

section \<open>A concrete world\<close>

definition demo_tree :: "(path \<times> node) list \<Rightarrow> world" where
  "demo_tree extra =
     \<lparr>fs = extra @
        [([''s''], Dir o700), ([''s'', ''gcroots''], Dir o700), ([''tmp''], Dir o777),
         ([''a''], Dir o755), ([''a'', ''bin''], Dir o755), ([''a'', ''bin'', ''pi''], Reg o755 []),
         ([''b''], Dir o755), ([''b'', ''bin''], Dir o755), ([''b'', ''bin'', ''pi''], Reg o755 [])],
      cwd = [], environ = [''PATH=/bin''], faults = [], names = [0, 1, 2, 3, 4, 5, 6, 7], hist = []\<rparr>"

definition demo :: world where
  "demo = demo_tree [([''s'', ''current''], Lnk ''/a''), ([''s'', ''previous''], Lnk ''/b'')]"

definition demo_store :: store where
  "demo_store = \<lparr>sdir = ''/s''\<rparr>"

lemma demo_ok: "store_ok demo_store (vis (fs demo))" "gc_ok demo_store (vis (fs demo))"
  by code_simp+

lemma demo_links:
  "link_of (vis (fs demo)) demo_store ''current'' = Some ''/a''"
  "link_of (vis (fs demo)) demo_store ''previous'' = Some ''/b''"
  by code_simp+

lemma demo_clean: "clean ''/a'' = ''/a''" "clean ''/b'' = ''/b''"
  by code_simp+

lemma demo_activate: "fst (activate demo_store ''/b'' demo) = Inr True"
  by code_simp

lemma demo_rollback: "fst (rollback demo_store demo) = Inr ''/b''"
  by code_simp

lemma run_split: "fst x = r \<Longrightarrow> x = (r, snd x)"
  by auto

section \<open>Activation\<close>

lemmas activate_run = wp_run [OF wp_activate]

text \<open>
  C1. A successful \<open>Activate\<close> leaves \<open>current\<close> pointing at the cleaned target, which is a usable
  runtime; \<open>changed\<close> says whether it pointed elsewhere before; when it did, the old current runtime
  is the new \<open>previous\<close>; and no other visible path of the tree has changed.
\<close>

theorem activate_success:
  assumes "store_ok s (vis (fs w))" "activate s t w = (Inr changed, w')"
  shows "usable w (clean t)
    \<and> link_of (vis (fs w')) s ''current'' = Some (clean t)
    \<and> changed = (link_of (vis (fs w)) s ''current'' \<noteq> Some (clean t))
    \<and> link_of (vis (fs w')) s ''previous'' =
        (case link_of (vis (fs w)) s ''current'' of
           Some old \<Rightarrow> if changed then Some old else link_of (vis (fs w)) s ''previous''
         | None \<Rightarrow> link_of (vis (fs w)) s ''previous'')
    \<and> (\<forall>p. p \<notin> {loc s ''current'', loc s ''previous''} \<longrightarrow> vis (fs w') p = vis (fs w) p)"
  using activate_run [OF assms]
  by (cases changed) (auto simp: activated_facts half_activated_facts idle_def split: option.split)

theorem activate_success_witness:
  "link_of (vis (fs (snd (activate demo_store ''/b'' demo)))) demo_store ''previous'' = Some ''/a''"
  using activate_success [OF demo_ok(1) run_split [OF demo_activate]] by (simp add: demo_links)

text \<open>
  C11. An \<open>Activate\<close> that fails, at whatever step and for whatever reason, leaves \<open>current\<close> alone:
  the visible tree is the old one, or the old one with \<open>previous\<close> naming the current runtime.
\<close>

theorem activate_failure:
  assumes "store_ok s (vis (fs w))" "activate s t w = (Inl e, w')"
  shows "vis (fs w') = vis (fs w)
    \<or> (\<exists>old. link_of (vis (fs w)) s ''current'' = Some old
         \<and> vis (fs w') = (vis (fs w))(loc s ''previous'' \<mapsto> Lnk old))"
  using activate_run [OF assms] by (auto simp: half_activated_def split: option.splits)

definition demo_faulty :: world where
  "demo_faulty = demo\<lparr>faults := replicate 10 None @ [Some EIO]\<rparr>"

theorem activate_failure_witness:
  "vis (fs (snd (activate demo_store ''/c'' demo))) = vis (fs demo)
    \<or> (\<exists>old. link_of (vis (fs demo)) demo_store ''current'' = Some old
         \<and> vis (fs (snd (activate demo_store ''/c'' demo))) = (vis (fs demo))(loc demo_store ''previous'' \<mapsto> Lnk old))"
proof -
  have "fst (activate demo_store ''/c'' demo)
      = Inl (wrapf ''runtime %s: %w'' [''/c''] (Errno ENOENT))" by code_simp
  from activate_failure [OF demo_ok(1) run_split [OF this]] show ?thesis .
qed

text \<open>
  C7. Every file system that exists while \<open>Activate\<close> runs, and so every state a crash can leave,
  shows one of three views: the old one, the old one with \<open>previous\<close> naming the current runtime, or
  the finished one.  In none of them is \<open>current\<close> missing or anything but the old or new target.
\<close>

theorem activate_crash:
  assumes "store_ok s (vis (fs w))" "activate s t w = (r, w')" "hist w' = hs @ hist w" "f \<in> set hs"
  shows "vis f \<in> {vis (fs w), half_activated (vis (fs w)) s, activated (vis (fs w)) s (clean t)}"
proof -
  have "step_ok (\<lambda>f. vis f \<in> {vis (fs w), half_activated (vis (fs w)) s, activated (vis (fs w)) s (clean t)}) w w'"
  proof (cases r)
    case (Inl e)
    with activate_run [OF assms(1,2)] show ?thesis by (auto elim: step_ok_mono)
  next
    case (Inr b)
    with activate_run [OF assms(1,2)] show ?thesis
      by (cases b) (auto simp: idle_def elim: step_ok_mono)
  qed
  with assms(3,4) show ?thesis by (auto simp: step_ok_def)
qed

theorem activate_crash_witness:
  "vis (hist (snd (activate demo_store ''/b'' demo)) ! 3) \<in>
     {vis (fs demo), half_activated (vis (fs demo)) demo_store, activated (vis (fs demo)) demo_store ''/b''}"
proof -
  have "hist demo = []" "3 < length (hist (snd (activate demo_store ''/b'' demo)))" by code_simp+
  then show ?thesis
    using activate_crash [OF demo_ok(1) run_split [OF demo_activate], of _ "hist (snd (activate demo_store ''/b'' demo)) ! 3"]
    by (simp add: demo_clean)
qed

text \<open>
  The middle view is reached: whenever \<open>Activate\<close> moves \<open>current\<close> away from a runtime, there is a
  moment at which both pointers name that runtime and the earlier \<open>previous\<close> is named by neither.
  A crash there leaves the pointers neither untouched nor fully updated.
\<close>

theorem activate_passes_through_half:
  assumes "store_ok s (vis (fs w))" "activate s t w = (Inr True, w')" "hist w = []"
    and "link_of (vis (fs w)) s ''current'' = Some old"
  shows "\<exists>f \<in> set (hist w'). link_of (vis f) s ''current'' = Some old
    \<and> link_of (vis f) s ''previous'' = Some old \<and> old \<noteq> clean t"
proof -
  from activate_run [OF assms(1,2)] assms(4) obtain f
    where f: "f \<in> set (hist w')" "vis f = half_activated (vis (fs w)) s" and "old \<noteq> clean t" by auto
  then show ?thesis using assms(4) by (auto simp: half_activated_facts intro!: bexI [OF _ f(1)])
qed

theorem activate_passes_through_half_witness:
  "\<exists>f \<in> set (hist (snd (activate demo_store ''/b'' demo))). link_of (vis f) demo_store ''current'' = Some ''/a''
    \<and> link_of (vis f) demo_store ''previous'' = Some ''/a'' \<and> ''/a'' \<noteq> clean ''/b''"
  using activate_passes_through_half [OF demo_ok(1) run_split [OF demo_activate] _ demo_links(1)]
  by (simp add: demo_def demo_tree_def)

text \<open>
  \<open>Activate\<close> is idempotent: activating what was just activated reports no change and leaves
  every file of the tree as it is.
\<close>

theorem activate_idempotent:
  assumes "store_ok s (vis (fs w))" "activate s t w = (Inr b, w1)" "activate s t w1 = (Inr b', w2)"
  shows "\<not> b' \<and> fs w2 = fs w1"
proof -
  note r1 = activate_run [OF assms(1,2)]
  have l: "link_of (vis (fs w1)) s ''current'' = Some (clean t)" and st: "store_ok s (vis (fs w1))"
    using r1 assms(1) by (cases b; simp add: activated_facts store_ok_activated idle_def)+
  from activate_run [OF st assms(3)] l show ?thesis by (cases b') (auto simp: idle_def)
qed

theorem activate_idempotent_witness:
  "fs (snd (activate demo_store ''/b'' (snd (activate demo_store ''/b'' demo))))
     = fs (snd (activate demo_store ''/b'' demo))"
proof -
  have "fst (activate demo_store ''/b'' (snd (activate demo_store ''/b'' demo))) = Inr False" by code_simp
  from activate_idempotent [OF demo_ok(1) run_split [OF demo_activate] run_split [OF this]] show ?thesis by simp
qed

section \<open>Rollback\<close>

lemmas rollback_run = wp_run [OF wp_rollback]

lemma rollback_exchange:
  assumes "store_ok s (vis (fs w))" "rollback s w = (Inr p, w')"
    and "link_of (vis (fs w)) s ''current'' = Some a" "link_of (vis (fs w)) s ''previous'' = Some b" "a \<noteq> clean b"
  shows "p = b \<and> usable w b
    \<and> vis (fs w') = (vis (fs w))(loc s ''previous'' \<mapsto> Lnk a, loc s ''current'' \<mapsto> Lnk (clean b))"
  using rollback_run [OF assms(1,2)] assms(3-)
  by (auto simp: rolled_back_def activated_def half_activated_def)

text \<open>
  C15. A successful \<open>Rollback\<close> from current \<open>a\<close> to a different previous runtime \<open>b\<close> swaps the
  pointers, and \<open>b\<close> was usable; nothing else in the visible tree changes.
\<close>

theorem rollback_swaps:
  assumes "store_ok s (vis (fs w))" "rollback s w = (Inr p, w')"
    and "link_of (vis (fs w)) s ''current'' = Some a" "link_of (vis (fs w)) s ''previous'' = Some b" "a \<noteq> clean b"
  shows "p = b \<and> usable w b
    \<and> vis (fs w') = (vis (fs w))(loc s ''previous'' \<mapsto> Lnk a, loc s ''current'' \<mapsto> Lnk (clean b))"
  using assms by (rule rollback_exchange)

theorem rollback_swaps_witness:
  "link_of (vis (fs (snd (rollback demo_store demo)))) demo_store ''current'' = Some ''/b''
    \<and> link_of (vis (fs (snd (rollback demo_store demo)))) demo_store ''previous'' = Some ''/a''"
  using rollback_swaps [OF demo_ok(1) run_split [OF demo_rollback] demo_links]
  by (simp add: demo_clean)

text \<open>
  Rolling back twice restores the visible tree, when both pointers hold canonical paths, as
  \<open>Activate\<close> leaves them.
\<close>

theorem rollback_twice:
  assumes "store_ok s (vis (fs w))"
    and "link_of (vis (fs w)) s ''current'' = Some a" "link_of (vis (fs w)) s ''previous'' = Some b"
    and "canonical a" "canonical b" "a \<noteq> b"
    and "rollback s w = (Inr p, w1)" "rollback s w1 = (Inr q, w2)"
  shows "p = b \<and> q = a \<and> vis (fs w2) = vis (fs w)"
proof -
  have c: "clean a = a" "clean b = b" using assms(4,5) by (simp_all add: canonical_def)
  from rollback_exchange [OF assms(1,7,2,3)] c assms(6)
  have p: "p = b" and v: "vis (fs w1) = (vis (fs w))(loc s ''previous'' \<mapsto> Lnk a, loc s ''current'' \<mapsto> Lnk b)"
    by auto
  have "store_ok s (vis (fs w1))" using assms(1) v by simp
  moreover have "link_of (vis (fs w1)) s ''current'' = Some b" "link_of (vis (fs w1)) s ''previous'' = Some a"
    using v by simp_all
  ultimately have "q = a"
    and "vis (fs w2) = (vis (fs w1))(loc s ''previous'' \<mapsto> Lnk b, loc s ''current'' \<mapsto> Lnk a)"
    using rollback_exchange [OF _ assms(8), of b a] c assms(6) by auto
  moreover have "vis (fs w) (loc s ''current'') = Some (Lnk a)" "vis (fs w) (loc s ''previous'') = Some (Lnk b)"
    using assms(2,3) by (auto simp: link_of_def split: option.splits node.splits)
  ultimately show ?thesis using p v by (auto simp: fun_eq_iff)
qed

theorem rollback_twice_witness:
  "vis (fs (snd (rollback demo_store (snd (rollback demo_store demo))))) = vis (fs demo)"
proof -
  have "fst (rollback demo_store (snd (rollback demo_store demo))) = Inr ''/a''" by code_simp
  moreover have "canonical ''/a''" "canonical ''/b''" by code_simp+
  ultimately show ?thesis
    using rollback_twice [OF demo_ok(1) demo_links _ _ _ run_split [OF demo_rollback] run_split] by simp
qed

text \<open>\<open>Rollback\<close> onto a previous runtime that is not usable fails and changes nothing visible.\<close>

theorem rollback_refuses_unusable:
  assumes "store_ok s (vis (fs w))" "link_of (vis (fs w)) s ''previous'' = Some p" "\<not> usable w p"
  shows "\<not> is_ok (fst (rollback s w)) \<and> vis (fs (snd (rollback s w))) = vis (fs w)"
proof (cases "rollback s w")
  case (Pair r w')
  with rollback_run [OF assms(1) Pair] assms(2,3) show ?thesis by (cases r) auto
qed

definition demo_gone :: world where
  "demo_gone = demo_tree [([''s'', ''current''], Lnk ''/a''), ([''s'', ''previous''], Lnk ''/c'')]"

theorem rollback_refuses_unusable_witness:
  "fst (rollback demo_store demo_gone) \<noteq> Inr ''/c''
    \<and> vis (fs (snd (rollback demo_store demo_gone))) = vis (fs demo_gone)"
proof -
  have "store_ok demo_store (vis (fs demo_gone))"
    "link_of (vis (fs demo_gone)) demo_store ''previous'' = Some ''/c''" "\<not> usable demo_gone ''/c''"
    by code_simp+
  from rollback_refuses_unusable [OF this] show ?thesis by auto
qed

section \<open>Validation and readiness\<close>



lemma wp_ready:
  assumes "store_ok s (vis (fs w))"
  shows "wp (ready s) (\<lambda>c w'. same w w' \<and> link_of (vis (fs w)) s ''current'' = Some c \<and> usable w c)
    (\<lambda>e w'. same w w' \<and> (errors_is e ErrNoRuntime \<longrightarrow> vis (fs w) (loc s ''current'') = None)) w"
    (is "wp _ ?Q ?E w")
proof -
  have v: "wp (wrap (wrapf f xs) (validate c)) (\<lambda>_. wp (ret c) ?Q ?E) ?E w1"
    if s: "same w w1" and c: "link_of (vis (fs w)) s ''current'' = Some c" for w1 c f xs
    unfolding wp_wrap
    by (rule wp_validate) (use c same_trans [OF s] usable_same [OF s] in \<open>auto simp: wrapf_def\<close>)
  show ?thesis
    unfolding ready_def wp_seq wp_attempt
    by (rule wp_pointer [OF assms])
      (use v in \<open>auto simp: temp_name_def wrapf_def link_of_def\<close>)
qed

text \<open>
  \<open>Ready\<close> succeeds only with the target of \<open>current\<close>, and only if it is usable at that moment; it
  never changes the tree.  Its error wraps \<open>ErrNoRuntime\<close> only when no runtime was ever activated.
\<close>

theorem ready_current:
  assumes "store_ok s (vis (fs w))" "ready s w = (r, w')"
  shows "fs w' = fs w \<and> (case r of
     Inr c \<Rightarrow> link_of (vis (fs w)) s ''current'' = Some c \<and> usable w c
   | Inl e \<Rightarrow> errors_is e ErrNoRuntime \<longrightarrow> vis (fs w) (loc s ''current'') = None)"
  using wp_run [OF wp_ready [OF assms(1)] assms(2)] by (cases r) (auto simp: same_fs)

theorem ready_current_witness:
  "usable demo ''/a'' \<and> link_of (vis (fs demo)) demo_store ''current'' = Some ''/a''"
proof -
  have "fst (ready demo_store demo) = Inr ''/a''" by code_simp
  from ready_current [OF demo_ok(1) run_split [OF this]] show ?thesis by simp
qed

section \<open>Garbage-collector roots\<close>

lemmas prune_run = wp_run [OF wp_prune_gc_roots]

text \<open>
  A successful \<open>PruneGCRoots\<close> leaves exactly the roots whose target is \<open>current\<close> or \<open>previous\<close>:
  those stay, every other link of the directory goes, and no other visible path changes.
\<close>

theorem prune_exact:
  assumes "gc_ok s (vis (fs w))" "prune_gc_roots s w = (Inr u, w')"
  shows "vis (fs w') p =
    (if \<exists>n t. plain n \<and> p = loc s ''gcroots'' @ [n] \<and> vis (fs w) p = Some (Lnk t)
        \<and> link_of (vis (fs w)) s ''current'' \<noteq> Some t \<and> link_of (vis (fs w)) s ''previous'' \<noteq> Some t
     then None else vis (fs w) p)"
  using prune_run [OF assms] by (auto simp: pruned_def pointed_def)

definition demo_roots :: world where
  "demo_roots = demo_tree [([''s'', ''current''], Lnk ''/a''), ([''s'', ''previous''], Lnk ''/b''),
     ([''s'', ''gcroots'', ''a''], Lnk ''/a''), ([''s'', ''gcroots'', ''x''], Lnk ''/x'')]"

theorem prune_exact_witness:
  "vis (fs (snd (prune_gc_roots demo_store demo_roots))) [''s'', ''gcroots'', ''x''] = None
    \<and> vis (fs (snd (prune_gc_roots demo_store demo_roots))) [''s'', ''gcroots'', ''a''] = Some (Lnk ''/a'')"
proof -
  have ok: "gc_ok demo_store (vis (fs demo_roots))"
    and run: "fst (prune_gc_roots demo_store demo_roots) = Inr ()"
    and l: "loc demo_store ''gcroots'' = [''s'', ''gcroots'']"
      "link_of (vis (fs demo_roots)) demo_store ''current'' = Some ''/a''"
      "link_of (vis (fs demo_roots)) demo_store ''previous'' = Some ''/b''"
      "vis (fs demo_roots) [''s'', ''gcroots'', ''x''] = Some (Lnk ''/x'')"
      "vis (fs demo_roots) [''s'', ''gcroots'', ''a''] = Some (Lnk ''/a'')"
    by code_simp+
  show ?thesis
    using prune_exact [OF ok run_split [OF run], of "[''s'', ''gcroots'', ''x'']"]
      prune_exact [OF ok run_split [OF run], of "[''s'', ''gcroots'', ''a'']"] l by (simp add: plain_def)
qed

text \<open>
  C17. However \<open>PruneGCRoots\<close> ends, the roots of the runtimes that \<open>current\<close> and \<open>previous\<close> name are
  still there, and so are both pointers.
\<close>

theorem prune_safe:
  assumes "gc_ok s (vis (fs w))" "prune_gc_roots s w = (r, w')"
    and "vis (fs w) p = Some (Lnk t)"
    and "p \<in> {loc s ''current'', loc s ''previous''}
      \<or> link_of (vis (fs w)) s ''current'' = Some t \<or> link_of (vis (fs w)) s ''previous'' = Some t"
  shows "vis (fs w') p = Some (Lnk t)"
proof -
  have "\<exists>ms. vis (fs w') = pruned (vis (fs w)) (loc s ''gcroots'') (pointed (vis (fs w)) s) ms"
    using prune_run [OF assms(1,2)] by (cases r) (auto simp: pruning_def)
  then show ?thesis
    using assms(3,4) by (auto simp: pruned_def pointed_def loc_def)
qed

theorem prune_safe_witness:
  "vis (fs (snd (prune_gc_roots demo_store (demo_roots\<lparr>faults := replicate 7 None @ [Some EIO]\<rparr>))))
     [''s'', ''gcroots'', ''a''] = Some (Lnk ''/a'')"
proof -
  let ?w = "demo_roots\<lparr>faults := replicate 7 None @ [Some EIO]\<rparr>"
  have ok: "gc_ok demo_store (vis (fs ?w))"
    and l: "vis (fs ?w) [''s'', ''gcroots'', ''a''] = Some (Lnk ''/a'')"
      "link_of (vis (fs ?w)) demo_store ''current'' = Some ''/a''"
    by code_simp+
  show ?thesis by (rule prune_safe [OF ok surjective_pairing l(1)]) (use l(2) in simp)
qed

section \<open>Provenance\<close>

lemma locate_visible_file:
  assumes "store_ok s (vis (fs w))" "plain n" "\<not> temp_name n" "vis (fs w) (loc s n) = Some (Reg m d)"
  shows "node_at True (path_join [sdir s, n]) w = Inr (Reg m d)"
proof -
  have nd: "nd (fs w) (loc s n) = Some (Reg m d)" using assms(4) vis_Some by blast
  have "locate (fs w) (cwd w) True (path_join [sdir s, n]) = Inr (elems (sdir s) @ [n])"
    using entry_locate_follow [OF store_entry [OF assms(1,2)]] nd by (simp add: loc_def)
  with nd show ?thesis by (simp add: node_at_def loc_def)
qed

text \<open>
  What \<open>RecordApplied\<close> stores is what \<open>Applied\<close> reads back, for every record whose strings are
  non-empty UTF-8, in any later world with the same tree in which reading does not fail.
\<close>

theorem record_roundtrip:
  assumes "store_ok s (vis (fs w))" "record_applied s r w = (Inr u, w1)"
    and "valid_utf8 (installable r)" "valid_utf8 (target r)" "installable r \<noteq> []" "target r \<noteq> []"
    and "fs w2 = fs w1" "faults w2 = []"
  shows "applied s w2 = (Inr (Some r), w2)"
proof -
  from wp_run [OF wp_record_applied [OF assms(1)] assms(2)]
  have v: "vis (fs w2) = (vis (fs w))(loc s ''applied.json'' \<mapsto> Reg o600 (encode_applied r))"
    using assms(7) by (simp add: commits_def)
  have "store_ok s (vis (fs w2))" using assms(1) by (simp add: v)
  then have "node_at True (applied_path s) w2 = Inr (Reg o600 (encode_applied r))"
    unfolding applied_path_def by (rule locate_visible_file) (simp_all add: v temp_name_def)
  then show ?thesis
    using assms(8) decode_encode_applied [OF assms(3-6)]
    by (simp add: applied_def seq_def attempt_def ret_def os_readfile_def calm_query)
qed

definition demo_record :: applied_record where
  "demo_record = \<lparr>installable = ''github:x/y'', target = ''/a''\<rparr>"

theorem record_roundtrip_witness:
  "fst (applied demo_store (snd (record_applied demo_store demo_record demo))) = Inr (Some demo_record)"
proof -
  have "fst (record_applied demo_store demo_record demo) = Inr ()"
    "valid_utf8 (installable demo_record)" "valid_utf8 (target demo_record)"
    "installable demo_record \<noteq> []" "target demo_record \<noteq> []"
    "faults (snd (record_applied demo_store demo_record demo)) = []"
    by code_simp+
  from record_roundtrip [OF demo_ok(1) run_split [OF this(1)] this(2-5) refl this(6)] show ?thesis by simp
qed

section \<open>The current pointer as its own target\<close>

lemma resolve_self_loop:
  assumes "real_dir (nd f) d" "\<forall>e \<in> set (d @ [c]). plain e" "nd f (d @ [c]) = Some (Lnk t)"
    and "is_abs t" "elems t = d @ [c]"
  shows "resolve f True n [] (d @ [c]) = Inl ELOOP"
proof (induction n)
  have step: "resolve f True n [] (d @ [c]) = resolve f True n d [c]" for n
    using resolve_real [of d f "[]" True n "[c]"] assms(1,2) by (simp add: real_dir_def)
  have c: "c \<noteq> ''.''" "c \<noteq> ''..''" using assms(2) by (auto simp: plain_def)
  {
    case 0
    show ?case using step [of 0] c assms(3) by simp
  next
    case (Suc n)
    have "t \<noteq> []" using assms(4) by auto
    with Suc show ?case using step [of "Suc n"] c assms(3-5) by simp
  }
qed

text \<open>
  \<open>Activate\<close> accepts the store's own \<open>current\<close> path as a target while that path leads to a usable
  runtime, and when it moves \<open>current\<close> there, the pointer names itself: it resolves to no directory, and
  no runtime is usable through it any more.
\<close>

theorem activate_own_pointer:
  assumes "store_ok s (vis (fs w))" "activate s (store_current s) w = (Inr True, w')"
  shows "usable w (store_current s)
    \<and> link_of (vis (fs w')) s ''current'' = Some (store_current s)
    \<and> node_at True (store_current s) w' = Inl ELOOP \<and> \<not> usable w' (store_current s)"
proof -
  have p: "canonical (store_current s)" "elems (store_current s) = loc s ''current''"
    using store_path [OF assms(1)] by (simp_all add: store_current_def)
  then have c: "clean (store_current s) = store_current s" "is_abs (store_current s)" "store_current s \<noteq> []"
    by (auto simp: canonical_def)
  from activate_run [OF assms] c
  have u: "usable w (store_current s)" and v: "vis (fs w') = activated (vis (fs w)) s (store_current s)"
    by simp_all
  have st: "store_ok s (vis (fs w'))" using assms(1) by (simp add: v store_ok_activated)
  have "nd (fs w') (elems (sdir s) @ [''current'']) = Some (Lnk (store_current s))"
    using vis_loc(1) [OF st, of "''current''"] v by (simp add: activated_def temp_name_def) (simp add: loc_def)
  moreover have "\<forall>e \<in> set (elems (sdir s) @ [''current'']). plain e"
    using canonical_elems [OF p(1)] p(2) by (simp add: loc_def)
  moreover have "real_dir (nd (fs w')) (elems (sdir s))"
    using st real_dir_nd by (auto simp: store_ok_def)
  ultimately have "resolve (fs w') True max_links [] (elems (sdir s) @ [''current'']) = Inl ELOOP"
    using c p(2) by (intro resolve_self_loop) (auto simp: loc_def)
  then have n: "node_at True (store_current s) w' = Inl ELOOP"
    using c p(2) by (simp add: node_at_def locate_def loc_def)
  with u v show ?thesis by (simp add: activated_facts usable_def)
qed

theorem activate_own_pointer_witness:
  "usable demo ''/s/current''
    \<and> node_at True ''/s/current'' (snd (activate demo_store ''/s/current'' demo)) = Inl ELOOP"
proof -
  have run: "fst (activate demo_store ''/s/current'' demo) = Inr True" by code_simp
  have c: "store_current demo_store = ''/s/current''" by code_simp
  show ?thesis
    using activate_own_pointer [OF demo_ok(1), of "snd (activate demo_store ''/s/current'' demo)"] run_split [OF run]
    unfolding c by simp
qed

section \<open>The smoke test's environment\<close>

lemma cut_key: "CHR ''='' \<notin> set k \<Longrightarrow> fst (cut (CHR ''='') (k @ CHR ''='' # v)) = k"
  by (induction k) (auto split: prod.splits)

text \<open>
  In the environment of the smoke test every override has its value, once, and no entry of the
  surrounding environment survives under an overridden name; the others keep their order.
\<close>

theorem smoke_env_overrides:
  assumes "distinct (map fst ov)" "\<forall>(k, v) \<in> set ov. CHR ''='' \<notin> set k"
  shows "(\<forall>(k, v) \<in> set ov. filter (\<lambda>e. fst (cut (CHR ''='') e) = k) (smoke_env es ov) = [k @ ''='' @ v])
    \<and> filter (\<lambda>e. fst (cut (CHR ''='') e) \<notin> fst ` set ov) (smoke_env es ov)
      = filter (\<lambda>e. fst (cut (CHR ''='') e) \<notin> fst ` set ov) es"
proof -
  let ?key = "\<lambda>e. fst (cut (CHR ''='') e)"
  have one: "filter (\<lambda>e. ?key e = k) (map (\<lambda>(k, v). k @ ''='' @ v) ps) = [k @ ''='' @ v]"
    if "(k, v) \<in> set ps" "distinct (map fst ps)" "\<forall>(k, v) \<in> set ps. CHR ''='' \<notin> set k" for k v ps
    using that
  proof (induction ps)
    case (Cons p ps)
    obtain k' v' where p: "p = (k', v')" by (cases p)
    have none: "filter (\<lambda>e. ?key e = k) (map (\<lambda>(k, v). k @ ''='' @ v) qs) = []"
      if "k \<notin> fst ` set qs" "\<forall>(k, v) \<in> set qs. CHR ''='' \<notin> set k" for qs
      using that by (induction qs) (auto simp: cut_key)
    show ?case
    proof (cases "k = k'")
      case True
      with Cons.prems p have "v = v'" "k \<notin> fst ` set ps" by (auto simp: image_iff)
      with True p Cons.prems none [of ps] show ?thesis by (simp add: cut_key)
    next
      case False
      with Cons p show ?thesis by (auto simp: cut_key)
    qed
  qed simp
  have kept: "filter (\<lambda>e. ?key e = k) (filter (\<lambda>e. ?key e \<notin> fst ` set ov) es) = []"
    if "(k, v) \<in> set ov" for k v
    using that by (force simp: filter_empty_conv)
  have "\<forall>(k, v) \<in> set ov. filter (\<lambda>e. ?key e = k) (smoke_env es ov) = [k @ ''='' @ v]"
    using one [OF _ assms] kept by (auto simp: smoke_env_def)
  moreover have "filter (\<lambda>e. ?key e \<notin> fst ` set ov) (map (\<lambda>(k, v). k @ ''='' @ v) ov) = []"
    using assms(2) by (force simp: filter_empty_conv cut_key)
  ultimately show ?thesis by (simp add: smoke_env_def)
qed

theorem smoke_env_overrides_witness:
  "filter (\<lambda>e. fst (cut (CHR ''='') e) = ''A'') (smoke_env [''A=1'', ''B=2'', ''A=3''] [(''A'', ''x'')]) = [''A=x'']"
  using smoke_env_overrides [of "[(''A'', ''x'')]" "[''A=1'', ''B=2'', ''A=3'']"] by simp

section \<open>Refinement\<close>

theorem store_refines_witness:
  "spec_trace [Switch ''/b'', SwapBack, Switch ''/c''] (Some ''/a'', Some ''/b'')
     (map (\<lambda>(ok, w'). (ok, slots_of demo_store w')) (store_run demo_store [Switch ''/b'', SwapBack, Switch ''/c''] demo))"
  using store_refines [OF demo_ok(1), of "[Switch ''/b'', SwapBack, Switch ''/c'']"]
  by (simp add: slots_of_def slots_in_def demo_links del: store_run.simps spec_trace.simps)

end
