(* ===== verification/ApplyProps.thy ===== *)
theory ApplyProps
  imports Apply StoreProps
begin

text \<open>
  The properties of applying a runtime: what a success establishes, what every crash leaves of the
  provenance record, that applying again does nothing, and that the automatic path only ever realizes
  an installable pinned to one commit.
\<close>

section \<open>A concrete node\<close>

definition demo_prog :: prog where
  "demo_prog c w = (([], None), fs w)"

definition demo_applier :: applier where
  "demo_applier = \<lparr>runtime_dir = ''/s'', nix_name = ''nix'', nix_store_name = ''nix-store'',
     lookup_fn = (\<lambda>n w. Inr (''/bin/'' @ n))\<rparr>"

lemma demo_applier_store: "applier_store demo_applier = demo_store"
  by (simp add: applier_store_def demo_applier_def demo_store_def)

lemma demo_respectful: "respectful demo_prog s"
  by (simp add: respectful_def demo_prog_def)

lemma demo_run:
  "(case apply_runtime demo_prog demo_applier ''/b'' demo of (r, w) \<Rightarrow>
      r = Inr \<lparr>res_target = ''/b'', res_changed = True, res_skipped = False\<rparr>
      \<and> faults w = [] \<and> usable w ''/b'')"
  by code_simp

lemma demo_apply: "fst (apply_runtime demo_prog demo_applier ''/b'' demo)
    = Inr \<lparr>res_target = ''/b'', res_changed = True, res_skipped = False\<rparr>"
  using demo_run by (simp add: split_beta)

definition demo_done :: world where
  "demo_done = snd (apply_runtime demo_prog demo_applier ''/b'' demo)"

lemma demo_done_facts: "faults demo_done = []" "usable demo_done ''/b''"
  "apply_runtime demo_prog demo_applier ''/b'' demo
     = (Inr \<lparr>res_target = ''/b'', res_changed = True, res_skipped = False\<rparr>, demo_done)"
  using demo_run by (simp_all only: demo_done_def split_beta prod_eq_iff fst_conv snd_conv)

section \<open>Success\<close>

lemmas apply_run = wp_run [OF wp_apply_runtime]



text \<open>
  C5. However \<open>Apply\<close> ends, and wherever it crashes, the provenance record on disk is either the one
  that was there before, or it names this installable and a runtime that was really built from it and
  that \<open>current\<close> already points at.  So no later true-up can skip work that was not done.
\<close>

theorem apply_provenance:
  assumes "respectful ex (applier_store a)" "gc_ok (applier_store a) (vis (fs w))"
    and "apply_runtime ex a inst w = (r, w')" "hist w' = hs @ hist w" "f \<in> set hs \<or> f = fs w'"
  shows "vis f (loc (applier_store a) ''applied.json'') = vis (fs w) (loc (applier_store a) ''applied.json'')
    \<or> (\<exists>t. realized ex inst t \<and> link_of (vis f) (applier_store a) ''current'' = Some (clean t)
         \<and> vis f (loc (applier_store a) ''applied.json'')
             = Some (Reg o600 (encode_applied \<lparr>installable = inst, target = t\<rparr>)))"
proof -
  have "tracked (applier_store a) ex inst (vis (fs w)) w w'"
    using apply_run [OF assms(1-3)] by (cases r) auto
  with assms(4,5) show ?thesis by (auto simp: tracked_def as_recorded_def step_ok_def)
qed

theorem apply_provenance_witness:
  "vis (fs (snd (apply_runtime demo_prog demo_applier ''/b'' demo))) [''s'', ''applied.json'']
      = vis (fs demo) [''s'', ''applied.json'']
    \<or> link_of (vis (fs (snd (apply_runtime demo_prog demo_applier ''/b'' demo)))) demo_store ''current'' = Some ''/b''"
proof -
  have h: "hist demo = []" by (simp add: demo_def demo_tree_def)
  have l: "loc demo_store ''applied.json'' = [''s'', ''applied.json'']" by code_simp
  have a: "is_abs ''/b''" by simp
  from apply_provenance [OF demo_respectful [of "applier_store demo_applier"] _ surjective_pairing _ disjI2 [OF refl],
      of demo "''/b''"] demo_ok(2) show ?thesis
    by (auto simp: h l demo_applier_store realized_def demo_clean)
qed

section \<open>Applying again\<close>

lemma pointer_calm:
  assumes "store_ok s (vis (fs w))" "plain n" "\<not> temp_name n" "faults w = []"
    and "vis (fs w) (loc s n) = Some (Lnk t)" "is_abs t"
  shows "pointer s n w = (Inr t, w)"
proof -
  have "node_at False (path_join [sdir s, n]) w = Inr (Lnk t)"
    using pointer_node [OF assms(1-3)] assms(5) by simp
  then show ?thesis
    using assms(4,6)
    by (simp add: pointer_def Let_def seq_def attempt_def ret_def os_lstat_def os_readlink_def calm_query)
qed

lemma skips_when_satisfied:
  assumes "store_ok (applier_store a) (vis (fs w))" "faults w = []"
    and "vis (fs w) (loc (applier_store a) ''applied.json'') = Some (Reg m b)" "decode_applied b = Some rec"
    and "installable rec = inst"
    and "link_of (vis (fs w)) (applier_store a) ''current'' = Some (target rec)" "usable w (target rec)"
  shows "apply_runtime ex a inst w = (Inr \<lparr>res_target = target rec, res_changed = False, res_skipped = True\<rparr>, w)"
proof -
  let ?s = "applier_store a"
  have "node_at True (applied_path ?s) w = Inr (Reg m b)"
    unfolding applied_path_def using assms(1,3)
    by (intro locate_visible_file) (simp_all add: temp_name_def)
  then have a: "applied ?s w = (Inr (Some rec), w)"
    using assms(2,4) by (simp add: applied_def seq_def attempt_def ret_def os_readfile_def calm_query)
  have p: "pointer ?s current_name w = (Inr (target rec), w)"
    using assms(1,2,6,7)
    by (intro pointer_calm) (auto simp: temp_name_def link_of_def usable_def split: option.splits node.splits)
  have "validate (target rec) w = (Inr (), w)" using validate_decides [OF assms(2)] assms(7) by simp
  with a p assms(5) have "satisfied_by a inst w = (Inr (Some (target rec)), w)"
    by (simp add: satisfied_by_def Let_def seq_def attempt_def ret_def)
  then show ?thesis by (simp add: apply_runtime_def seq_def ret_def)
qed

text \<open>
  When the recorded provenance matches the installable and \<open>current\<close> names the recorded, still
  usable target, \<open>Apply\<close> does nothing at all: it returns that target as skipped, the world is the same,
  and no external program has been run, whatever these programs are.
\<close>

theorem apply_skips:
  assumes "store_ok (applier_store a) (vis (fs w))" "faults w = []"
    and "vis (fs w) (loc (applier_store a) ''applied.json'') = Some (Reg m b)" "decode_applied b = Some rec"
    and "installable rec = inst"
    and "link_of (vis (fs w)) (applier_store a) ''current'' = Some (target rec)" "usable w (target rec)"
  shows "apply_runtime ex a inst w = (Inr \<lparr>res_target = target rec, res_changed = False, res_skipped = True\<rparr>, w)"
  using assms by (rule skips_when_satisfied)

definition demo_applied :: world where
  "demo_applied = demo_tree [([''s'', ''current''], Lnk ''/a''),
     ([''s'', ''applied.json''], Reg o600 (encode_applied demo_record))]"

lemma demo_applied_facts:
  "store_ok demo_store (vis (fs demo_applied))" "faults demo_applied = []"
  "vis (fs demo_applied) (loc demo_store ''applied.json'') = Some (Reg o600 (encode_applied demo_record))"
  "link_of (vis (fs demo_applied)) demo_store ''current'' = Some (target demo_record)"
  "usable demo_applied (target demo_record)"
  by code_simp+

theorem apply_skips_witness:
  "apply_runtime demo_prog demo_applier ''github:x/y'' demo_applied
     = (Inr \<lparr>res_target = ''/a'', res_changed = False, res_skipped = True\<rparr>, demo_applied)"
proof -
  have d: "decode_applied (encode_applied demo_record) = Some demo_record" by code_simp
  from apply_skips [of demo_applier demo_applied _ _ demo_record "''github:x/y''" demo_prog, unfolded demo_applier_store,
      OF demo_applied_facts(1-3) d _ demo_applied_facts(4,5)]
  show ?thesis by (simp add: demo_record_def)
qed

text \<open>
  Applying twice works once: after an \<open>Apply\<close> that was not skipped, a second \<open>Apply\<close> of the same
  installable in the resulting tree is skipped and changes nothing, as long as the runtime is usable.
  The output path must be clean and, like the installable, UTF-8: Nix store paths are.
\<close>

theorem apply_again:
  assumes "respectful ex (applier_store a)" "gc_ok (applier_store a) (vis (fs w))"
    and "apply_runtime ex a inst w = (Inr r, w1)" "\<not> res_skipped r"
    and "valid_utf8 inst" "inst \<noteq> []" "valid_utf8 (res_target r)" "canonical (res_target r)"
    and "fs w2 = fs w1" "faults w2 = []" "usable w2 (res_target r)"
  shows "apply_runtime ex' a inst w2 = (Inr \<lparr>res_target = res_target r, res_changed = False, res_skipped = True\<rparr>, w2)"
proof -
  let ?rec = "\<lparr>installable = inst, target = res_target r\<rparr>"
  from apply_run [OF assms(1-3)] assms(4)
  have l: "link_of (vis (fs w2)) (applier_store a) ''current'' = Some (res_target r)"
    and rec: "vis (fs w2) (loc (applier_store a) ''applied.json'') = Some (Reg o600 (encode_applied ?rec))"
    and g: "gc_ok (applier_store a) (vis (fs w2))"
    using assms(8,9) by (auto simp: canonical_def)
  have "decode_applied (encode_applied ?rec) = Some ?rec"
    using assms(5-8) canonical_nonempty by (intro decode_encode_applied) auto
  from skips_when_satisfied [OF _ assms(10) rec this] g l assms(11) show ?thesis
    by (simp add: gc_ok_def)
qed

theorem apply_again_witness:
  "apply_runtime demo_prog demo_applier ''/b'' demo_done
     = (Inr \<lparr>res_target = ''/b'', res_changed = False, res_skipped = True\<rparr>, demo_done)"
proof -
  let ?r = "\<lparr>res_target = ''/b'', res_changed = True, res_skipped = False\<rparr>"
  have v: "valid_utf8 ''/b''" "canonical ''/b''" by code_simp+
  have "gc_ok (applier_store demo_applier) (vis (fs demo))" using demo_ok(2) by (simp only: demo_applier_store)
  from apply_again [OF demo_respectful this demo_done_facts(3) _ v(1) _ _ _ refl demo_done_facts(1)] v demo_done_facts(2)
  show ?thesis by (simp only: apply_result.simps simp_thms list.distinct)
qed

section \<open>True-up\<close>

text \<open>
  \<open>TrueUp\<close> obeys the descriptor: with a descriptor that is not pinned to one Familiar commit it
  fails before it looks at anything; and what it activates or leaves active is the pinned installable's.
\<close>

theorem true_up_pinned:
  assumes "true_up ex a d w = (r, w')"
  shows "if is_ok (desc_validate d)
    then (case r of Inr x \<Rightarrow> apply_runtime ex a (desc_installable d) w = (Inr x, w')
          | Inl e \<Rightarrow> \<exists>e'. apply_runtime ex a (desc_installable d) w = (Inl e', w')
                 \<and> e = wrapf ''true up to the enrolled runtime %s: %w'' [desc_installable d] e')
    else \<not> is_ok r \<and> w' = w"
  using assms
  by (cases "desc_validate d"; cases "apply_runtime ex a (desc_installable d) w")
    (auto simp: true_up_def seq_def lift_def wrap_def map_err_def split: sum.splits)

theorem true_up_pinned_witness:
  "snd (true_up demo_prog demo_applier \<lparr>schema = 1, desc_installable = ''github:gisikw/familiar/main#familiar-worker-runtime''\<rparr> demo) = demo"
proof -
  let ?d = "\<lparr>schema = 1, desc_installable = ''github:gisikw/familiar/main#familiar-worker-runtime''\<rparr>"
  have "\<not> is_ok (desc_validate ?d)" by code_simp
  with true_up_pinned [of demo_prog demo_applier ?d demo, OF surjective_pairing] show ?thesis by simp
qed

end
