(* ===== verification/StatePaths.thy ===== *)
theory StatePaths
  imports Resolve
begin

text \<open>
  The state directory of \<open>internal/client/state.go\<close>: where it is (\<open>ResolveStateDir\<close>, \<open>StatePaths\<close>),
  the files it holds (\<open>Paths\<close>) and how it is secured (\<open>EnsureStateDir\<close>).  The effective user id
  is a parameter; environment and working directory are the world's.
\<close>

record paths =
  p_dir :: string
  p_state :: string
  p_log :: string
  p_tunnel_key :: string
  p_tunnel_public_key :: string
  p_host_key :: string
  p_host_public_key :: string
  p_authorized_keys :: string
  p_known_hosts :: string
  p_sshd_config :: string
  p_sshd_pid :: string
  p_herdr_wrapper :: string
  p_ssh_bridge :: string
  p_runtime_dir :: string
  p_pi_dir :: string
  p_pane_shell :: string
  p_herdr_config :: string
  p_secrets_dir :: string
  p_tiamat_url_file :: string
  p_tiamat_token_file :: string

definition resolve_state_dir :: "string \<Rightarrow> nat \<Rightarrow> string \<Rightarrow> string \<Rightarrow> goerr + string" where
  "resolve_state_dir override euid xdg home =
     (if override \<noteq> [] then Inr override
      else if euid = 0 then Inr ''/var/lib/familiar-fleet''
      else if xdg \<noteq> [] then Inr (path_join [xdg, ''familiar-fleet''])
      else if home = [] then Inl (errorf ''home directory is empty'' [])
      else Inr (path_join [home, ''.local'', ''state'', ''familiar-fleet'']))"

text \<open>\<open>filepath.Abs\<close>, and the paths below an absolute directory.\<close>

definition file_abs :: "path \<Rightarrow> string \<Rightarrow> string" where
  "file_abs wd p = (if is_abs p then clean p else path_join [render True wd, p])"

definition paths_in :: "string \<Rightarrow> paths" where
  "paths_in d =
     \<lparr>p_dir = d,
      p_state = path_join [d, ''state.json''], p_log = path_join [d, ''familiar-fleet.log''],
      p_tunnel_key = path_join [d, ''tunnel_ed25519''],
      p_tunnel_public_key = path_join [d, ''tunnel_ed25519.pub''],
      p_host_key = path_join [d, ''sshd_host_ed25519''],
      p_host_public_key = path_join [d, ''sshd_host_ed25519.pub''],
      p_authorized_keys = path_join [d, ''authorized_keys''],
      p_known_hosts = path_join [d, ''known_hosts''],
      p_sshd_config = path_join [d, ''sshd_config''], p_sshd_pid = path_join [d, ''sshd.pid''],
      p_herdr_wrapper = path_join [d, ''herdr''], p_ssh_bridge = path_join [d, ''ssh-bridge''],
      p_runtime_dir = path_join [d, ''runtime''], p_pi_dir = path_join [d, ''runtime'', ''pi''],
      p_pane_shell = path_join [d, ''pane-shell''], p_herdr_config = path_join [d, ''herdr-config.toml''],
      p_secrets_dir = path_join [d, ''secrets''],
      p_tiamat_url_file = path_join [d, ''secrets'', ''tiamat.url''],
      p_tiamat_token_file = path_join [d, ''secrets'', ''tiamat.token'']\<rparr>"

definition state_paths :: "string \<Rightarrow> nat \<Rightarrow> paths io" where
  "state_paths override euid = (\<lambda>w.
     let xdg = getenv (environ w) ''XDG_STATE_HOME'';
         home = getenv (environ w) ''HOME'';
         need_home = override = [] \<and> euid \<noteq> 0 \<and> xdg = [] in
     lift
       (bind_ok (guard (\<not> (need_home \<and> home = []))
           (wrapf ''find home directory: %w'' [] (errorf ''$HOME is not defined'' []))) (\<lambda>_.
        bind_ok (resolve_state_dir override euid xdg (if need_home then home else [])) (\<lambda>d.
        let a = file_abs (cwd w) d in
        if contains_any a [CHR '':'', SQUOTE] \<or> has_control a
        then Inl (errorf ''state directory must not contain a colon, single quote, or control character'' [])
        else Inr (paths_in a)))) w)"

definition ensure_state_dir :: "string \<Rightarrow> unit io" where
  "ensure_state_dir d =
     seq (os_mkdir_all d o700) (\<lambda>_.
     seq (os_lstat d) (\<lambda>info.
     if fkind info \<noteq> KDir then fail (errorf ''state path is not a real directory'' [])
     else if fperm info AND o077 \<noteq> 0
       then wrap (wrapf ''secure state directory: %w'' []) (os_chmod d o700)
     else ret ()))"

section \<open>The layout\<close>

text \<open>The directory a run may use: canonical, and free of what quoting or PATH cannot carry.\<close>

definition state_dir_ok :: "string \<Rightarrow> bool" where
  "state_dir_ok d \<longleftrightarrow> canonical d \<and> \<not> contains_any d [CHR '':'', SQUOTE] \<and> \<not> has_control d"

lemma file_abs_canonical:
  assumes "\<forall>e \<in> set wd. plain e"
  shows "canonical (file_abs wd p)"
proof (cases "is_abs p")
  case True
  then show ?thesis by (simp add: file_abs_def clean_canonical)
next
  case False
  have r: "is_abs (render True wd)" "render True wd \<noteq> []" by (auto simp: render_def)
  then have "is_abs (join [SLASH] [render True wd, p])"
    by (cases "render True wd") auto
  with False r show ?thesis
    by (simp add: file_abs_def path_join.simps clean_canonical)
qed

lemma p_dir_paths_in [simp]: "p_dir (paths_in d) = d"
  by (simp add: paths_in_def)

lemma state_paths_ok:
  assumes "state_paths override euid w = (Inr p, w')" "\<forall>e \<in> set (cwd w). plain e"
  shows "w' = w \<and> p = paths_in (p_dir p) \<and> state_dir_ok (p_dir p)"
  using assms file_abs_canonical [OF assms(2)]
  by (auto simp: state_paths_def lift_def Let_def state_dir_ok_def split: if_splits)

lemma state_path:
  assumes "canonical d" "plain n"
  shows "canonical (path_join [d, n]) \<and> elems (path_join [d, n]) = elems d @ [n]"
  using path_join_canonical [of d "[n]"] assms by simp

end
