(* ===== verification/Files.thy ===== *)
theory Files
  imports Atomic StatePaths
begin

text \<open>
  Several files replaced one after the other.  Each replacement is atomic, the sequence is not: what
  holds at every moment is that each of the files is the old one or the complete new one, and that
  nothing else has changed.  The generated files of the program (configuration of \<open>sshd\<close>, launchers,
  Herdr configuration) are written in this way.
\<close>

section \<open>Partly installed\<close>

definition partly :: "(path \<Rightarrow> node option) \<Rightarrow> view \<Rightarrow> view \<Rightarrow> bool" where
  "partly W v u \<longleftrightarrow> (\<forall>p. u p = v p \<or> (W p \<noteq> None \<and> u p = W p))"

definition installing :: "(path \<Rightarrow> node option) \<Rightarrow> world \<Rightarrow> world \<Rightarrow> bool" where
  "installing W w0 w \<longleftrightarrow> partly W (vis (fs w0)) (vis (fs w))
     \<and> step_ok (\<lambda>f. partly W (vis (fs w0)) (vis f)) w0 w"

lemma partly_refl [simp, intro]: "partly W v v"
  by (simp add: partly_def)

lemma partly_upd: "partly W v u \<Longrightarrow> W p = Some n \<Longrightarrow> partly W v (u(p \<mapsto> n))"
  by (auto simp: partly_def)

lemma partly_frame: "partly W v u \<Longrightarrow> W p = None \<Longrightarrow> u p = v p"
  by (auto simp: partly_def)

lemma partly_file: "partly W v u \<Longrightarrow> u p = v p \<or> u p = W p"
  by (auto simp: partly_def)

lemma installing_refl [simp, intro]: "installing W w w"
  by (simp add: installing_def)

lemma installing_partly: "installing W w0 w \<Longrightarrow> partly W (vis (fs w0)) (vis (fs w))"
  by (simp add: installing_def)

lemma installing_history:
  "installing W w0 w \<Longrightarrow> hist w = hs @ hist w0 \<Longrightarrow> f \<in> set hs \<Longrightarrow> partly W (vis (fs w0)) (vis f)"
  by (auto simp: installing_def step_ok_def)

lemma quietly_installing: "installing W w0 w \<Longrightarrow> quietly w w' \<Longrightarrow> installing W w0 w'"
  unfolding installing_def quietly_def
  by (auto elim!: step_ok_trans elim: step_ok_mono)

lemma same_installing: "installing W w0 w \<Longrightarrow> same w w' \<Longrightarrow> installing W w0 w'"
  by (rule quietly_installing [OF _ same_quietly])

lemma commits_installing:
  "installing W w0 w \<Longrightarrow> commits (vis (fs w)) p n w w' \<Longrightarrow> W p = Some n \<Longrightarrow> installing W w0 w'"
  unfolding installing_def commits_def
  by (auto elim!: step_ok_trans elim: step_ok_mono simp: partly_upd)

lemma commits_vis: "commits v p n w w' \<Longrightarrow> vis (fs w') = v(p \<mapsto> n)"
  by (simp add: commits_def)

section \<open>Files of a directory\<close>

text \<open>
  \<open>in_dir_files d W\<close>: the new nodes are files, not directories, and lie in \<open>d\<close>.  Then \<open>d\<close> is a real
  directory as long as it was one, and each of its files can be replaced.
\<close>

definition in_dir_files :: "string \<Rightarrow> (path \<Rightarrow> node option) \<Rightarrow> bool" where
  "in_dir_files d W \<longleftrightarrow> (\<forall>p. prefix p (elems d) \<longrightarrow> W p = None)"

definition state_ready :: "string \<Rightarrow> view \<Rightarrow> bool" where
  "state_ready d v \<longleftrightarrow> state_dir_ok d \<and> real_dir v (elems d)"

lemma state_ready_partly: "state_ready d v \<Longrightarrow> partly W v u \<Longrightarrow> in_dir_files d W \<Longrightarrow> state_ready d u"
  unfolding state_ready_def real_dir_def in_dir_files_def by (metis partly_frame)

lemma state_file_ready:
  assumes "state_ready d v" "plain n" "\<not> temp_name n"
  shows "file_ready (path_join [d, n]) v"
  using assms state_path [of d n] by (auto simp: file_ready_def state_ready_def state_dir_ok_def)

lemma state_file_elems: "state_ready d v \<Longrightarrow> plain n \<Longrightarrow> elems (path_join [d, n]) = elems d @ [n]"
  using state_path [of d n] by (simp add: state_ready_def state_dir_ok_def)

lemma wp_install_one:
  assumes i: "installing W w0 w" and d: "state_ready d (vis (fs w0))" "in_dir_files d W"
    and n: "plain n" "\<not> temp_name n" "W (elems d @ [n]) = Some (Reg mode data)"
  shows "wp (atomic_write (path_join [d, n]) data mode)
    (\<lambda>_ w'. installing W w0 w' \<and> vis (fs w') = (vis (fs w))(elems d @ [n] \<mapsto> Reg mode data))
    (\<lambda>_ w'. installing W w0 w') w"
proof -
  have "state_ready d (vis (fs w))" using state_ready_partly [OF d(1) _ d(2)] i by (simp add: installing_def)
  note atomic = wp_atomic_write [OF state_file_ready [OF this n(1,2)], of data mode]
  show ?thesis
    by (rule wp_mono [OF atomic])
      (simp_all add: state_file_elems [OF d(1) n(1)] commits_installing [OF i _ n(3)]
        commits_vis quietly_installing [OF i])
qed

end
