(* ===== verification/Config.thy ===== *)
theory Config
  imports Files Enrollment
begin

text \<open>
  \<open>internal/client/config.go\<close>: the files that the callback \<open>sshd\<close> and the reverse tunnel run from
  (\<open>WriteRuntimeConfig\<close>), the two quoting functions, and the argument vector of the tunnel.
\<close>

section \<open>Quoting\<close>

definition sshd_quote :: "string \<Rightarrow> string" where
  "sshd_quote s =
     DQUOTE # replace_bytes [(BSLASH, [BSLASH, BSLASH]), (DQUOTE, [BSLASH, DQUOTE])] s @ [DQUOTE]"

definition shell_quote :: "string \<Rightarrow> string" where
  "shell_quote s = SQUOTE # replace_all [SQUOTE] [SQUOTE, BSLASH, SQUOTE, SQUOTE] s @ [SQUOTE]"

section \<open>The generated files\<close>

definition authorized_line :: "string \<Rightarrow> string" where
  "authorized_line controller =
     ''no-port-forwarding,no-agent-forwarding,no-X11-forwarding,no-pty '' @ controller
       @ '' familiar-fleet-controller'' @ [LF]"

definition known_name :: "enrollment \<Rightarrow> string" where
  "known_name e =
     (if tunnel_ssh_port e \<noteq> 22 then ''['' @ tunnel_host e @ '']:'' @ itoa (tunnel_ssh_port e)
      else tunnel_host e)"

definition wrapper_script :: "string \<Rightarrow> string" where
  "wrapper_script herdr =
     ''#!/bin/sh'' @ [LF] @ ''exec '' @ shell_quote herdr @ '' '' @ [DQUOTE] @ ''$@'' @ [DQUOTE, LF]"

definition bridge_script :: "string \<Rightarrow> string" where
  "bridge_script dir =
     ''#!/bin/sh'' @ [LF]
     @ ''PATH='' @ shell_quote dir @ '':${PATH:-/usr/local/bin:/usr/bin:/bin:/usr/sbin:/sbin}'' @ [LF]
     @ ''export PATH'' @ [LF]
     @ ''test -n '' @ [DQUOTE] @ ''${SSH_ORIGINAL_COMMAND:-}'' @ [DQUOTE] @ '' || exit 64'' @ [LF]
     @ ''exec /bin/sh -c '' @ [DQUOTE] @ ''$SSH_ORIGINAL_COMMAND'' @ [DQUOTE, LF]"

definition sshd_config_lines :: "paths \<Rightarrow> string \<Rightarrow> int \<Rightarrow> string list" where
  "sshd_config_lines ps user lport =
     [''AddressFamily inet'',
      ''ListenAddress 127.0.0.1'',
      ''Port '' @ itoa lport,
      ''HostKey '' @ sshd_quote (p_host_key ps),
      ''PidFile '' @ sshd_quote (p_sshd_pid ps),
      ''AuthorizedKeysFile '' @ sshd_quote (p_authorized_keys ps),
      ''AllowUsers '' @ user,
      ''AuthenticationMethods publickey'',
      ''PubkeyAuthentication yes'',
      ''PasswordAuthentication no'',
      ''KbdInteractiveAuthentication no'',
      ''ChallengeResponseAuthentication no'',
      ''PermitEmptyPasswords no'',
      ''UsePAM no'',
      ''PermitRootLogin no'',
      ''StrictModes yes'',
      ''AllowAgentForwarding no'',
      ''AllowTcpForwarding no'',
      ''GatewayPorts no'',
      ''X11Forwarding no'',
      ''PermitTunnel no'',
      ''PermitTTY no'',
      ''PermitUserEnvironment no'',
      ''PermitUserRC no'',
      ''ForceCommand '' @ sshd_quote (p_ssh_bridge ps),
      ''LogLevel VERBOSE'',
      ''Subsystem sftp internal-sftp'',
      []]"

definition sshd_config_text :: "paths \<Rightarrow> string \<Rightarrow> int \<Rightarrow> string" where
  "sshd_config_text ps user lport = join [LF] (sshd_config_lines ps user lport)"

definition write_runtime_config :: "paths \<Rightarrow> enrollment \<Rightarrow> string \<Rightarrow> string \<Rightarrow> int \<Rightarrow> unit io" where
  "write_runtime_config ps e user herdr lport =
     (if \<not> full_match user_re user
      then fail (errorf ''local SSH user %q is unsafe or unsupported'' [user])
      else if lport < 1 \<or> lport > 65535 then fail (errorf ''invalid local SSH port'' [])
      else
        seq (lift (normalize_public_key (controller_public_key e))) (\<lambda>controller.
        seq (atomic_write (p_authorized_keys ps) (authorized_line controller) o600) (\<lambda>_.
        seq (lift (map_err (wrapf ''rendezvous host key: %w'' []) (normalize_public_key (tunnel_host_key e)))) (\<lambda>host_key.
        seq (atomic_write (p_known_hosts ps) (known_name e @ '' '' @ host_key @ [LF]) o600) (\<lambda>_.
        if contains_any herdr [CR, LF] then fail (errorf ''invalid herdr path'' [])
        else
          seq (atomic_write (p_herdr_wrapper ps) (wrapper_script herdr) o700) (\<lambda>_.
          seq (atomic_write (p_ssh_bridge ps) (bridge_script (p_dir ps)) o700) (\<lambda>_.
          atomic_write (p_sshd_config ps) (sshd_config_text ps user lport) o600)))))))"

section \<open>The tunnel's arguments\<close>

definition dev_null :: string where
  "dev_null = ''/dev/null''"

definition tunnel_args :: "paths \<Rightarrow> enrollment \<Rightarrow> string list" where
  "tunnel_args ps e =
     [''-F'', dev_null,
      ''-N'', ''-T'',
      ''-o'', ''BatchMode=yes'',
      ''-o'', ''IdentitiesOnly=yes'',
      ''-o'', ''IdentityFile='' @ p_tunnel_key ps,
      ''-o'', ''UserKnownHostsFile='' @ p_known_hosts ps,
      ''-o'', ''GlobalKnownHostsFile='' @ dev_null,
      ''-o'', ''StrictHostKeyChecking=yes'',
      ''-o'', ''CheckHostIP=no'',
      ''-o'', ''ExitOnForwardFailure=yes'',
      ''-o'', ''ServerAliveInterval=15'',
      ''-o'', ''ServerAliveCountMax=3'',
      ''-o'', ''ConnectTimeout=15'',
      ''-o'', ''ConnectionAttempts=1'',
      ''-o'', ''RequestTTY=no'',
      ''-o'', ''ForwardAgent=no'',
      ''-o'', ''ClearAllForwardings=no'',
      ''-p'', itoa (tunnel_ssh_port e),
      ''-R'', ''127.0.0.1:'' @ itoa (port e) @ '':127.0.0.1:%LOCAL_PORT%'',
      ''--'', tunnel_user e @ ''@'' @ tunnel_host e]"

definition tunnel_args_for_port :: "paths \<Rightarrow> enrollment \<Rightarrow> int \<Rightarrow> string list" where
  "tunnel_args_for_port ps e lport =
     map (replace_all ''%LOCAL_PORT%'' (itoa lport)) (tunnel_args ps e)"

section \<open>What the quoting means\<close>

text \<open>
  The reference for quoting: one word of POSIX shell syntax, made of single-quoted parts and of
  characters escaped by a backslash, and one double-quoted argument of \<open>sshd_config\<close>, where a
  backslash escapes a backslash or a double quote.  \<open>None\<close> stands for anything else.
\<close>

fun sh_word :: "bool \<Rightarrow> string \<Rightarrow> string option" where
  "sh_word False [] = Some []"
| "sh_word True [] = None"
| "sh_word True (c # s) =
     (if c = SQUOTE then sh_word False s else map_option ((#) c) (sh_word True s))"
| "sh_word False (c # s) =
     (if c = SQUOTE then sh_word True s
      else if c = BSLASH then (case s of [] \<Rightarrow> None | d # s' \<Rightarrow> map_option ((#) d) (sh_word False s'))
      else None)"

fun sshd_arg :: "string \<Rightarrow> string option" where
  "sshd_arg [] = None"
| "sshd_arg (c # s) =
     (if c = DQUOTE then (if s = [] then Some [] else None)
      else if c = BSLASH
        then (case s of d # s' \<Rightarrow> if d \<in> {DQUOTE, BSLASH} then map_option ((#) d) (sshd_arg s') else None | [] \<Rightarrow> None)
      else map_option ((#) c) (sshd_arg s))"

definition sshd_unquote :: "string \<Rightarrow> string option" where
  "sshd_unquote s = (case s of c # t \<Rightarrow> if c = DQUOTE then sshd_arg t else None | [] \<Rightarrow> None)"

lemma quoted_arg:
  "sshd_arg (replace_bytes [(BSLASH, [BSLASH, BSLASH]), (DQUOTE, [BSLASH, DQUOTE])] s @ [DQUOTE]) = Some s"
  by (induction s) auto

lemma sshd_unquote_quote [simp]: "sshd_unquote (sshd_quote s) = Some s"
  using quoted_arg [of s] by (simp add: sshd_unquote_def sshd_quote_def)

lemma quoted_word:
  "sh_word True (concat (map (\<lambda>x. if x = SQUOTE then [SQUOTE, BSLASH, SQUOTE, SQUOTE] else [x]) s) @ [SQUOTE]) = Some s"
  by (induction s) auto

lemma sh_word_quote [simp]: "sh_word False (shell_quote s) = Some s"
  using quoted_word [of s] by (simp add: shell_quote_def replace_all_byte)

lemma sshd_quote_chars: "set (sshd_quote s) \<subseteq> {DQUOTE, BSLASH} \<union> set s"
  by (induction s) (auto simp: sshd_quote_def split: if_splits)

end
