(* ===== verification/HerdrSession.thy ===== *)
theory HerdrSession
  imports OSFacts GoJson
begin

text \<open>
  \<open>internal/client/herdrsession.go\<close>: the status of the one Herdr session this client owns, and its
  termination.  Herdr is the external program \<open>ex\<close>; a context that ends, or a command that takes too
  long, is one way in which a command fails.  What a \<open>select\<close> receives next (a tick of the poll timer,
  the deadline, the end of the context) is a script; a loop that has used up its script is still
  waiting, and its result is \<open>None\<close>.
\<close>

section \<open>Status\<close>

record herdr_status =
  hs_status :: string
  hs_running :: bool
  hs_version :: string
  hs_socket :: string
  hs_session :: string
  hs_compatible :: "bool option"

definition zero_status :: herdr_status where
  "zero_status = \<lparr>hs_status = [], hs_running = False, hs_version = [], hs_socket = [], hs_session = [],
     hs_compatible = None\<rparr>"

definition into_bool :: "bool \<Rightarrow> json \<Rightarrow> bool option" where
  "into_bool old j = (case j of JBool b \<Rightarrow> Some b | JNull \<Rightarrow> Some old | _ \<Rightarrow> None)"

definition into_bool_ptr :: "json \<Rightarrow> bool option option" where
  "into_bool_ptr j = (case j of JBool b \<Rightarrow> Some (Some b) | JNull \<Rightarrow> Some None | _ \<Rightarrow> None)"

definition put_status :: "string \<Rightarrow> json \<Rightarrow> herdr_status \<Rightarrow> herdr_status option" where
  "put_status f j r =
     (if f = ''status'' then map_option (\<lambda>x. r\<lparr>hs_status := x\<rparr>) (into_string (hs_status r) j)
      else if f = ''running'' then map_option (\<lambda>x. r\<lparr>hs_running := x\<rparr>) (into_bool (hs_running r) j)
      else if f = ''version'' then map_option (\<lambda>x. r\<lparr>hs_version := x\<rparr>) (into_string (hs_version r) j)
      else if f = ''socket'' then map_option (\<lambda>x. r\<lparr>hs_socket := x\<rparr>) (into_string (hs_socket r) j)
      else if f = ''session'' then map_option (\<lambda>x. r\<lparr>hs_session := x\<rparr>) (into_string (hs_session r) j)
      else map_option (\<lambda>x. r\<lparr>hs_compatible := x\<rparr>) (into_bool_ptr j))"

definition parse_status :: "string \<Rightarrow> herdr_status option" where
  "parse_status out =
     (case json_parse out of
        None \<Rightarrow> None
      | Some j \<Rightarrow> into_struct False [''status'', ''running'', ''version'', ''socket'', ''session'', ''compatible'']
          put_status zero_status j)"

definition healthy :: "herdr_status \<Rightarrow> bool" where
  "healthy s \<longleftrightarrow> hs_running s \<and> (hs_compatible s = None \<or> hs_compatible s = Some True)"

section \<open>Commands\<close>

definition herdr_session :: string where
  "herdr_session = ''familiar-fleet''"

definition herdr_server_args :: "string list" where
  "herdr_server_args = [''--session'', herdr_session, ''server'']"

definition herdr_tui_args :: "string list" where
  "herdr_tui_args = [''--session'', herdr_session]"

definition herdr_stop_args :: "string list" where
  "herdr_stop_args = [''--session'', herdr_session, ''server'', ''stop'']"

definition herdr_cmd :: "string \<Rightarrow> string list \<Rightarrow> string list \<Rightarrow> cmd" where
  "herdr_cmd herdr as env = \<lparr>exe = herdr, argv = as, cmd_env = Some env\<rparr>"

definition query_herdr :: "prog \<Rightarrow> string \<Rightarrow> string list \<Rightarrow> herdr_status io" where
  "query_herdr ex herdr env =
     seq (exec ex (herdr_cmd herdr [''--session'', herdr_session, ''status'', ''server'', ''--json''] env)) (\<lambda>(out, err).
     if err \<noteq> None then ret zero_status
     else
       (case parse_status out of
          None \<Rightarrow> fail (errorf ''parse `herdr status server --json`: %w'' [])
        | Some s \<Rightarrow> ret s))"

datatype poll = PollTick | PollDeadline | PollCtxDone

fun await_stopped :: "prog \<Rightarrow> string \<Rightarrow> string list \<Rightarrow> string \<times> goerr option \<Rightarrow> poll list \<Rightarrow> unit option io" where
  "await_stopped ex herdr env stop es =
     seq (attempt (query_herdr ex herdr env)) (\<lambda>q.
     if (case q of Inr s \<Rightarrow> \<not> hs_running s | Inl _ \<Rightarrow> False) then ret (Some ())
     else
       (case es of
          [] \<Rightarrow> ret None
        | PollTick # es' \<Rightarrow> await_stopped ex herdr env stop es'
        | PollDeadline # _ \<Rightarrow>
            (case snd stop of
               Some e \<Rightarrow> fail (wrapf ''stop Herdr session %s: %w: %s'' [herdr_session, trim_space (fst stop)] e)
             | None \<Rightarrow> fail (errorf ''Herdr session %s did not stop'' [herdr_session]))
        | PollCtxDone # _ \<Rightarrow> fail ErrContext))"

declare await_stopped.simps [simp del]

definition stop_herdr_session :: "prog \<Rightarrow> string \<Rightarrow> string list \<Rightarrow> poll list \<Rightarrow> unit option io" where
  "stop_herdr_session ex herdr env es =
     seq (query_herdr ex herdr env) (\<lambda>s.
     if \<not> hs_running s then ret (Some ())
     else
       seq (exec ex (herdr_cmd herdr herdr_stop_args env)) (\<lambda>stop.
       await_stopped ex herdr env stop es))"

section \<open>What a stop does\<close>

definition scoped :: "string \<Rightarrow> cmd \<Rightarrow> bool" where
  "scoped herdr c \<longleftrightarrow> exe c = herdr \<and> take 2 (argv c) = [''--session'', herdr_session]"

lemma scoped_cmds [simp]:
  "scoped herdr (herdr_cmd herdr (''--session'' # herdr_session # as) env)"
  "scoped herdr (herdr_cmd herdr herdr_stop_args env)"
  by (simp_all add: scoped_def herdr_cmd_def herdr_stop_args_def)

lemma exec_cong: "ex c = ex' c \<Longrightarrow> exec ex c = exec ex' c"
  by (simp add: exec_def)

lemma query_herdr_cong:
  assumes "\<And>c. scoped herdr c \<Longrightarrow> ex c = ex' c"
  shows "query_herdr ex herdr env = query_herdr ex' herdr env"
  unfolding query_herdr_def exec_cong [of ex _ ex', OF assms [OF scoped_cmds(1)]] ..

lemma await_stopped_cong:
  assumes "\<And>c. scoped herdr c \<Longrightarrow> ex c = ex' c"
  shows "await_stopped ex herdr env stop es = await_stopped ex' herdr env stop es"
proof -
  have q: "query_herdr ex herdr env = query_herdr ex' herdr env"
    by (rule query_herdr_cong) (rule assms)
  show ?thesis
  proof (induction es)
    case Nil
    show ?case unfolding await_stopped.simps [of _ _ _ _ "[]"] q by (simp cong: if_cong)
  next
    case (Cons e es)
    then show ?case unfolding await_stopped.simps [of _ _ _ _ "e # es"] q by (cases e) (simp_all cong: if_cong)
  qed
qed

text \<open>
  C22. A stop runs no command but those that name the \<open>familiar-fleet\<close> session of the given Herdr
  executable: two machines on which these commands behave alike, and all others may differ, see the
  same stop.  So no other Herdr session is inspected or terminated.
\<close>

theorem stop_is_scoped:
  assumes "\<And>c. scoped herdr c \<Longrightarrow> ex c = ex' c"
  shows "stop_herdr_session ex herdr env es = stop_herdr_session ex' herdr env es"
proof -
  have "query_herdr ex herdr env = query_herdr ex' herdr env"
    by (rule query_herdr_cong) (rule assms)
  moreover have "await_stopped ex herdr env stop es = await_stopped ex' herdr env stop es" for stop
    by (rule await_stopped_cong) (rule assms)
  moreover have "exec ex (herdr_cmd herdr herdr_stop_args env) = exec ex' (herdr_cmd herdr herdr_stop_args env)"
    by (rule exec_cong) (rule assms, simp)
  ultimately show ?thesis by (simp add: stop_herdr_session_def cong: if_cong)
qed

text \<open>What a status query reports: the parsed output, or the zero status when the command failed.\<close>

lemma query_herdr_eq:
  "query_herdr ex herdr env w =
     (case ex (herdr_cmd herdr [''--session'', herdr_session, ''status'', ''server'', ''--json''] env) w of
        ((out, err), g) \<Rightarrow>
          (if err \<noteq> None then Inr zero_status
           else case parse_status out of
               None \<Rightarrow> Inl (errorf ''parse `herdr status server --json`: %w'' [])
             | Some s \<Rightarrow> Inr s,
           w\<lparr>fs := g, hist := g # hist w\<rparr>))"
  by (simp add: query_herdr_def seq_def exec_def ret_def fail_def split: prod.split option.split)


definition not_running :: "prog \<Rightarrow> string \<Rightarrow> string list \<Rightarrow> world \<Rightarrow> bool" where
  "not_running ex herdr env w \<longleftrightarrow>
     (case fst (query_herdr ex herdr env w) of Inr s \<Rightarrow> \<not> hs_running s | Inl _ \<Rightarrow> False)"

definition seen_stopped :: "prog \<Rightarrow> string \<Rightarrow> string list \<Rightarrow> world \<Rightarrow> bool" where
  "seen_stopped ex herdr env w' \<longleftrightarrow>
     (\<exists>u. not_running ex herdr env u \<and> w' = snd (query_herdr ex herdr env u))"

lemma wp_exec_any: "(\<And>r w'. Q r w') \<Longrightarrow> wp (exec ex c) Q E w"
  by (simp add: wp_def exec_def split: prod.split)

lemma wp_query_seen:
  assumes "\<And>s w'. fst (query_herdr ex herdr env w) = Inr s \<Longrightarrow> w' = snd (query_herdr ex herdr env w)
      \<Longrightarrow> (\<not> hs_running s \<Longrightarrow> seen_stopped ex herdr env w') \<Longrightarrow> Q s w'"
    and "\<And>e w'. E e w'"
  shows "wp (query_herdr ex herdr env) Q E w"
proof (rule wpI)
  fix r w'
  assume run: "query_herdr ex herdr env w = (r, w')"
  show "case r of Inl e \<Rightarrow> E e w' | Inr x \<Rightarrow> Q x w'"
  proof (cases r)
    case (Inr s)
    have "seen_stopped ex herdr env w'" if "\<not> hs_running s"
      unfolding seen_stopped_def using run Inr that by (intro exI [of _ w]) (simp add: not_running_def)
    with Inr run assms(1) show ?thesis by simp
  qed (simp add: assms(2))
qed

lemma wp_await_stopped:
  "wp (await_stopped ex herdr env stop es) (\<lambda>r w'. r \<noteq> None \<longrightarrow> seen_stopped ex herdr env w') (\<lambda>_ _. True) w"
proof (induction es arbitrary: w)
  case Nil
  show ?case
    by (subst await_stopped.simps) (auto intro!: wp_query_seen)
next
  case (Cons e es)
  then show ?case
    by (subst await_stopped.simps) (auto intro!: wp_query_seen split: poll.split option.split)
qed

text \<open>
  A stop that reports success has seen the session not running: its last command was a status query
  that failed or answered that the server is not running.  A session that is not running at first is
  left alone: that query is then the only command.
\<close>

theorem stop_success:
  assumes "stop_herdr_session ex herdr env es w = (Inr (Some u), w')"
  shows "seen_stopped ex herdr env w'
    \<and> (not_running ex herdr env w \<longrightarrow> w' = snd (query_herdr ex herdr env w))"
proof -
  have "wp (stop_herdr_session ex herdr env es) (\<lambda>r w'. (r \<noteq> None \<longrightarrow> seen_stopped ex herdr env w')
      \<and> (not_running ex herdr env w \<longrightarrow> w' = snd (query_herdr ex herdr env w))) (\<lambda>_ _. True) w"
    unfolding stop_herdr_session_def wp_seq
  proof (rule wp_query_seen)
    fix s w1
    assume q: "fst (query_herdr ex herdr env w) = Inr s" "w1 = snd (query_herdr ex herdr env w)"
      and seen: "\<not> hs_running s \<Longrightarrow> seen_stopped ex herdr env w1"
    show "wp (if \<not> hs_running s then ret (Some ())
        else seq (exec ex (herdr_cmd herdr herdr_stop_args env)) (\<lambda>stop. await_stopped ex herdr env stop es))
      (\<lambda>r w'. (r \<noteq> None \<longrightarrow> seen_stopped ex herdr env w')
        \<and> (not_running ex herdr env w \<longrightarrow> w' = snd (query_herdr ex herdr env w))) (\<lambda>_ _. True) w1"
    proof (cases "hs_running s")
      case True
      then have "\<not> not_running ex herdr env w" using q by (simp add: not_running_def)
      then show ?thesis
        using True wp_await_stopped by (auto intro!: wp_exec_any)
    qed (use q seen in auto)
  qed simp
  from wp_run [OF this assms] show ?thesis by simp
qed

lemma stop_returns:
  assumes "e \<in> set es" "e \<noteq> PollTick"
  shows "fst (stop_herdr_session ex herdr env es w) \<noteq> Inr None"
proof -
  have q: "wp (query_herdr ex herdr env) (\<lambda>_ _. True) (\<lambda>_ _. True) w" for w
    by (simp add: wp_def split: prod.split sum.split)
  have "wp (await_stopped ex herdr env stop es) (\<lambda>r _. r \<noteq> None) (\<lambda>_ _. True) w" for stop w
    using assms
  proof (induction es arbitrary: w)
    case (Cons d es)
    then show ?case
      by (subst await_stopped.simps)
        (auto intro!: wp_mono [OF q] split: poll.split option.split sum.splits)
  qed simp
  then have "wp (stop_herdr_session ex herdr env es) (\<lambda>r _. r \<noteq> None) (\<lambda>_ _. True) w"
    unfolding stop_herdr_session_def
    by (auto intro!: wp_mono [OF q] wp_exec_any)
  then show ?thesis by (auto simp: wp_def split: prod.splits sum.splits)
qed

text \<open>
  C23. A stop always ends: once the deadline timer or the end of the context reaches the wait, there is
  a verdict, whatever Herdr answers.
\<close>

theorem stop_ends:
  assumes "e \<in> set es" "e \<noteq> PollTick"
  shows "fst (stop_herdr_session ex herdr env es w) \<noteq> Inr None"
  using assms by (rule stop_returns)

section \<open>Examples\<close>

text \<open>
  A Herdr whose server runs as long as \<open>/run\<close> exists, and whose stop removes it; and one that cannot
  be asked, because its status command fails.
\<close>

definition demo_status :: "bool \<Rightarrow> string" where
  "demo_status b = ''{'' @ [DQUOTE] @ ''running'' @ [DQUOTE] @ '':'' @ (if b then ''true'' else ''false'') @ ''}''"

definition demo_herdr :: prog where
  "demo_herdr c w =
     (if argv c = herdr_stop_args then (([], None), fs_del [''run''] (fs w))
      else ((demo_status (nd (fs w) [''run''] \<noteq> None), None), fs w))"

definition demo_running :: world where
  "demo_running = \<lparr>fs = [([''run''], Special 0)], cwd = [], environ = [], faults = [], names = [], hist = []\<rparr>"

lemma demo_stop: "fst (stop_herdr_session demo_herdr ''/bin/herdr'' [] [PollTick] demo_running) = Inr (Some ())"
  by code_simp

theorem stop_is_scoped_witness:
  "stop_herdr_session demo_herdr ''/bin/herdr'' [] [PollTick]
     = stop_herdr_session (\<lambda>c w. if scoped ''/bin/herdr'' c then demo_herdr c w else (([], None), []))
         ''/bin/herdr'' [] [PollTick]"
  by (rule stop_is_scoped) simp

theorem stop_success_witness:
  "seen_stopped demo_herdr ''/bin/herdr'' []
     (snd (stop_herdr_session demo_herdr ''/bin/herdr'' [] [PollTick] demo_running))"
  using stop_success [of demo_herdr "''/bin/herdr''" "[]" "[PollTick]" demo_running] demo_stop
  by (metis prod.collapse)

theorem stop_ends_witness:
  "fst (stop_herdr_session demo_herdr ''/bin/herdr'' [] [PollTick, PollDeadline] demo_running) \<noteq> Inr None"
  by (rule stop_ends [of PollDeadline]) auto

text \<open>
  A status command that fails is taken for a session that is not running: the stop then reports success
  without having asked the server to stop.
\<close>

theorem stop_trusts_failed_query:
  assumes "ex (herdr_cmd herdr [''--session'', herdr_session, ''status'', ''server'', ''--json''] env) w = ((out, Some e), g)"
  shows "stop_herdr_session ex herdr env es w = (Inr (Some ()), w\<lparr>fs := g, hist := g # hist w\<rparr>)"
  using assms by (simp add: stop_herdr_session_def seq_def query_herdr_eq zero_status_def ret_def)

end
