(* ===== verification/Supervise.thy ===== *)
theory Supervise
  imports Config HerdrSession "HOL-Library.Word"
begin

text \<open>
  \<open>internal/client/supervise.go\<close>: one invocation of the client as a state machine.  The program counter
  \<open>s_pc\<close> is the place the main goroutine has reached and \<open>s_tun\<close> the one of the goroutine that keeps
  the reverse tunnel up; each rule is one step between two blocking points, and its name is the branch
  of the source it is.  The two goroutines, the processes they have started and the context advance in
  any order, so a statement about every reachable state is one about every schedule.

  The Herdr program is the parameter \<open>ex\<close>; the file system is the world of the other theories, and
  the configuration files are written by \<open>WriteRuntimeConfig\<close> itself.  Which free port is picked,
  whether a start succeeds, how a process exits and when a timer fires are choices of the step relation.
\<close>

section \<open>Processes\<close>

datatype signal = SIGTERM | SIGKILL

text \<open>
  A started process: whether signals go to its group, whether it has not been waited for yet (its
  \<open>done\<close> channel is not readable), and whether its \<open>once\<close> has been used.
\<close>

record child =
  c_group :: bool
  c_alive :: bool
  c_once :: bool

definition start_child :: "bool \<Rightarrow> child" where
  "start_child g = \<lparr>c_group = g, c_alive = True, c_once = False\<rparr>"

text \<open>
  \<open>stop\<close>, with the signals it sends; \<open>dies\<close> says whether the process ends within the grace period
  after \<open>SIGTERM\<close>.  It returns only when the process has been waited for.
\<close>

definition stop_child :: "bool \<Rightarrow> child option \<Rightarrow> (bool \<times> signal) list \<times> child option" where
  "stop_child dies c =
     (case c of
        None \<Rightarrow> ([], None)
      | Some p \<Rightarrow>
          if c_once p then ([], Some p)
          else if \<not> c_alive p then ([], Some (p\<lparr>c_once := True\<rparr>))
          else
            ((c_group p, SIGTERM) # (if dies then [] else [(c_group p, SIGKILL)]),
             Some (p\<lparr>c_once := True, c_alive := False\<rparr>)))"

definition exit_error :: "goerr option \<Rightarrow> goerr" where
  "exit_error e = (case e of None \<Rightarrow> errorf ''exit status 0'' [] | Some x \<Rightarrow> x)"

section \<open>Back-off\<close>

text \<open>Durations are 64-bit counts of nanoseconds; \<open>rnd\<close> is \<open>rand.Int63n\<close>.\<close>

definition second :: "64 word" where
  "second = 1000000000"

definition backoff :: "(int \<Rightarrow> int) \<Rightarrow> nat \<Rightarrow> 64 word" where
  "backoff rnd n =
     (let a = (if n > 5 then 5 else n);
          b0 = push_bit a second;
          base = (if sint (30 * second) < sint b0 then 30 * second else b0);
          j0 = word_of_int (sint base div 5);
          max_jitter = (if sint (30 * second) < sint (base + j0) then 30 * second - base else j0) in
      if sint max_jitter \<le> 0 then base
      else base + word_of_int (rnd (sint max_jitter + 1)))"

section \<open>State\<close>

record runtime_cfg =
  r_paths :: paths
  r_enrollment :: enrollment
  r_user :: string
  r_herdr :: string
  r_ssh :: string
  r_sshd :: string
  r_env :: "string list"

datatype mode = Interactive | Service | TunnelOnly

datatype main_pc =
    Begin
  | WaitReady
  | Launching nat "goerr option"
  | Probing nat
  | InfraFailed goerr
  | InfraUp
  | Attached
  | Leaving "goerr option" bool
  | Draining "goerr option" bool
  | Serving
  | Adopted
  | Returned "goerr option"

datatype tunnel_pc = Off | Checking | Connected | Lost | Sleeping | Finished

text \<open>
  \<open>s_ctx\<close> and \<open>s_run\<close>: the context of the invocation is over, and the derived one has been cancelled.
  \<open>s_gone\<close> keeps the processes the program no longer refers to, \<open>s_stops\<close> counts the calls of
  \<open>stopHerdrServer\<close>, \<open>s_starts\<close> the \<open>sshd\<close> processes started, and \<open>s_argv\<close> is the argument vector of
  the latest tunnel.
\<close>

record sup =
  s_pc :: main_pc
  s_tun :: tunnel_pc
  s_ctx :: bool
  s_run :: bool
  s_spawned :: bool
  s_server :: "child option"
  s_sshd :: "child option"
  s_tui :: "child option"
  s_ssh :: "child option"
  s_port :: int
  s_tries :: nat
  s_delay :: "64 word"
  s_argv :: "string list"
  s_world :: world
  s_stops :: nat
  s_starts :: nat
  s_gone :: "child list"

definition run_over :: "sup \<Rightarrow> bool" where
  "run_over s \<longleftrightarrow> s_ctx s \<or> s_run s"

definition stopped :: "bool \<Rightarrow> child option \<Rightarrow> child option" where
  "stopped dies c = snd (stop_child dies c)"

definition drop_child :: "child option \<Rightarrow> child list \<Rightarrow> child list" where
  "drop_child c cs = (case c of None \<Rightarrow> cs | Some p \<Rightarrow> p # cs)"

definition start_state :: "world \<Rightarrow> sup" where
  "start_state w =
     \<lparr>s_pc = Begin, s_tun = Off, s_ctx = False, s_run = False, s_spawned = False,
      s_server = None, s_sshd = None, s_tui = None, s_ssh = None, s_port = 0, s_tries = 0,
      s_delay = 0, s_argv = [], s_world = w, s_stops = 0, s_starts = 0, s_gone = []\<rparr>"


section \<open>The Herdr server\<close>

text \<open>\<open>ensureHerdrServer\<close>; what follows depends on who called it.\<close>

inductive ensure_step :: "mode \<Rightarrow> prog \<Rightarrow> runtime_cfg \<Rightarrow> sup \<Rightarrow> sup \<Rightarrow> bool" for m ex r where
  query_failed:
    "s_pc s = Begin \<Longrightarrow> m \<noteq> TunnelOnly \<Longrightarrow>
     query_herdr ex (r_herdr r) (r_env r) (s_world s) = (Inl e, w') \<Longrightarrow>
     ensure_step m ex r s (s\<lparr>s_pc := Returned (Some e), s_world := w'\<rparr>)"
| reuse:
    "s_pc s = Begin \<Longrightarrow> m \<noteq> TunnelOnly \<Longrightarrow>
     query_herdr ex (r_herdr r) (r_env r) (s_world s) = (Inr st, w') \<Longrightarrow> healthy st \<Longrightarrow>
     ensure_step m ex r s
       (s\<lparr>s_pc := (if m = Interactive then Launching 0 None else Adopted), s_world := w'\<rparr>)"
| incompatible:
    "s_pc s = Begin \<Longrightarrow> m \<noteq> TunnelOnly \<Longrightarrow>
     query_herdr ex (r_herdr r) (r_env r) (s_world s) = (Inr st, w') \<Longrightarrow> \<not> healthy st \<Longrightarrow> hs_running st \<Longrightarrow>
     ensure_step m ex r s
       (s\<lparr>s_pc := Returned (Some (errorf ''Herdr session %s is running an incompatible server (version %s); run: familiar-fleet stop''
            [herdr_session, hs_version st])), s_world := w'\<rparr>)"
| server_start_failed:
    "s_pc s = Begin \<Longrightarrow> m \<noteq> TunnelOnly \<Longrightarrow>
     query_herdr ex (r_herdr r) (r_env r) (s_world s) = (Inr st, w') \<Longrightarrow> \<not> hs_running st \<Longrightarrow>
     ensure_step m ex r s
       (s\<lparr>s_pc := Returned (Some (wrapf ''start Herdr server: %w'' [] e)), s_world := w'\<rparr>)"
| server_started:
    "s_pc s = Begin \<Longrightarrow> m \<noteq> TunnelOnly \<Longrightarrow>
     query_herdr ex (r_herdr r) (r_env r) (s_world s) = (Inr st, w') \<Longrightarrow> \<not> hs_running st \<Longrightarrow>
     ensure_step m ex r s
       (s\<lparr>s_pc := WaitReady, s_server := Some (start_child True), s_world := w'\<rparr>)"

text \<open>\<open>waitHerdrReady\<close>, and what its caller does with the outcome.\<close>

definition herdr_probe :: "runtime_cfg \<Rightarrow> cmd" where
  "herdr_probe r = herdr_cmd (r_herdr r) [''--session'', herdr_session, ''status'', ''server'', ''--json''] (r_env r)"

definition says_running :: "string \<Rightarrow> bool" where
  "says_running out = sublist ([DQUOTE] @ ''running'' @ [DQUOTE] @ '':true'') out"

inductive ready_step :: "mode \<Rightarrow> prog \<Rightarrow> runtime_cfg \<Rightarrow> sup \<Rightarrow> sup \<Rightarrow> bool" for m ex r where
  server_ready:
    "s_pc s = WaitReady \<Longrightarrow> exec ex (herdr_probe r) (s_world s) = (Inr (out, err), w') \<Longrightarrow> says_running out \<Longrightarrow>
     ready_step m ex r s
       (s\<lparr>s_pc := (if m = Interactive then Launching 0 None else Serving), s_spawned := True, s_world := w'\<rparr>)"
| server_not_ready:
    "s_pc s = WaitReady \<Longrightarrow> exec ex (herdr_probe r) (s_world s) = (Inr (out, err), w') \<Longrightarrow> \<not> says_running out \<Longrightarrow>
     ready_step m ex r s (s\<lparr>s_world := w'\<rparr>)"
| server_wait_failed:
    "s_pc s = WaitReady \<Longrightarrow> exec ex (herdr_probe r) (s_world s) = (Inr (out, err), w') \<Longrightarrow> \<not> says_running out \<Longrightarrow>
     (\<exists>c x. s_server s = Some c \<and> \<not> c_alive c
        \<and> e = wrapf ''Herdr server exited before becoming ready: %w'' [] (exit_error x))
       \<or> e = errorf ''timed out waiting for Herdr server'' []
       \<or> s_ctx s \<and> e = ErrContext \<Longrightarrow>
     ready_step m ex r s
       (s\<lparr>s_pc := Returned (Some e), s_server := None,
          s_gone := drop_child (stopped dies (s_server s)) (s_gone s), s_world := w'\<rparr>)"

section \<open>The callback sshd\<close>

text \<open>\<open>startInfrastructure\<close> calls \<open>startSSHD\<close>; on success it starts the tunnel goroutine.\<close>

definition infra_started :: "sup \<Rightarrow> sup" where
  "infra_started s = s\<lparr>s_pc := InfraUp, s_tun := Checking, s_tries := 0\<rparr>"

definition max_sshd :: nat where
  "max_sshd = 5"

inductive sshd_step :: "runtime_cfg \<Rightarrow> sup \<Rightarrow> sup \<Rightarrow> bool" for r where
  no_port:
    "s_pc s = Launching i l \<Longrightarrow> i < max_sshd \<Longrightarrow> sshd_step r s (s\<lparr>s_pc := InfraFailed e\<rparr>)"
| config_failed:
    "s_pc s = Launching i l \<Longrightarrow> i < max_sshd \<Longrightarrow>
     write_runtime_config (r_paths r) (r_enrollment r) (r_user r) (r_herdr r) p (s_world s) = (Inl e, w') \<Longrightarrow>
     sshd_step r s (s\<lparr>s_pc := InfraFailed e, s_world := w'\<rparr>)"
| sshd_start_failed:
    "s_pc s = Launching i l \<Longrightarrow> i < max_sshd \<Longrightarrow>
     write_runtime_config (r_paths r) (r_enrollment r) (r_user r) (r_herdr r) p (s_world s) = (Inr (), w') \<Longrightarrow>
     sshd_step r s (s\<lparr>s_pc := InfraFailed (wrapf ''start sshd: %w'' [] e), s_world := w'\<rparr>)"
| sshd_started:
    "s_pc s = Launching i l \<Longrightarrow> i < max_sshd \<Longrightarrow>
     write_runtime_config (r_paths r) (r_enrollment r) (r_user r) (r_herdr r) p (s_world s) = (Inr (), w') \<Longrightarrow>
     sshd_step r s
       (s\<lparr>s_pc := Probing i, s_sshd := Some (start_child True), s_port := p, s_world := w',
          s_starts := Suc (s_starts s)\<rparr>)"
| sshd_exited_early:
    "s_pc s = Probing i \<Longrightarrow> s_sshd s = Some c \<Longrightarrow> \<not> c_alive c \<Longrightarrow>
     sshd_step r s
       (s\<lparr>s_pc := Launching (Suc i) (Some (wrapf ''sshd exited before becoming ready: %w'' [] (exit_error x))),
          s_sshd := None, s_gone := c # s_gone s\<rparr>)"
| sshd_no_answer:
    "s_pc s = Probing i \<Longrightarrow> sshd_step r s s"
| sshd_answers:
    "s_pc s = Probing i \<Longrightarrow>
     sshd_step r s (infra_started s)"
| sshd_timed_out:
    "s_pc s = Probing i \<Longrightarrow>
     sshd_step r s
       (s\<lparr>s_pc := Launching (Suc i) (Some (errorf ''timed out waiting for sshd'' [])),
          s_sshd := None, s_gone := drop_child (stopped dies (s_sshd s)) (s_gone s)\<rparr>)"
| sshd_cancelled:
    "s_pc s = Probing i \<Longrightarrow> run_over s \<Longrightarrow>
     sshd_step r s
       (s\<lparr>s_pc := InfraFailed ErrContext,
          s_sshd := None, s_gone := drop_child (stopped dies (s_sshd s)) (s_gone s)\<rparr>)"
| sshd_exhausted:
    "s_pc s = Launching i (Some e) \<Longrightarrow> \<not> i < max_sshd \<Longrightarrow>
     sshd_step r s (s\<lparr>s_pc := InfraFailed e\<rparr>)"


section \<open>The main goroutine\<close>

text \<open>
  \<open>stopHerdrServer\<close>: its error is only logged, so what counts is the world after it; \<open>es\<close> is what its
  wait receives, and it has returned.
\<close>

definition herdr_stopped :: "prog \<Rightarrow> runtime_cfg \<Rightarrow> sup \<Rightarrow> sup \<Rightarrow> bool" where
  "herdr_stopped ex r s s' \<longleftrightarrow>
     (\<exists>es res w'. stop_herdr_session ex (r_herdr r) (r_env r) es (s_world s) = (res, w')
        \<and> res \<noteq> Inr None \<and> s' = s\<lparr>s_world := w', s_stops := Suc (s_stops s)\<rparr>)"

text \<open>\<open>cleanup\<close>: a server this invocation spawned is stopped, a reused one is left alone.\<close>

definition cleaned_up :: "prog \<Rightarrow> runtime_cfg \<Rightarrow> sup \<Rightarrow> sup \<Rightarrow> bool" where
  "cleaned_up ex r s s' \<longleftrightarrow>
     (if s_spawned s
      then (\<exists>s1 dies. herdr_stopped ex r s s1 \<and> s' = s1\<lparr>s_server := stopped dies (s_server s1)\<rparr>)
      else s' = s)"

text \<open>
  \<open>RunInteractive\<close> from the outcome of \<open>startInfrastructure\<close> on: the \<open>select\<close> of an attached session,
  \<open>stopInfrastructure\<close> in its two halves, and the return.
\<close>

inductive interactive_step :: "prog \<Rightarrow> runtime_cfg \<Rightarrow> sup \<Rightarrow> sup \<Rightarrow> bool" for ex r where
  infra_failed:
    "s_pc s = InfraFailed e \<Longrightarrow> cleaned_up ex r (s\<lparr>s_run := True\<rparr>) s1 \<Longrightarrow>
     interactive_step ex r s (s1\<lparr>s_pc := Returned (Some e)\<rparr>)"
| tui_start_failed:
    "s_pc s = InfraUp \<Longrightarrow>
     interactive_step ex r s (s\<lparr>s_pc := Leaving (Some (wrapf ''start Herdr TUI: %w'' [] e)) True\<rparr>)"
| tui_started:
    "s_pc s = InfraUp \<Longrightarrow>
     interactive_step ex r s (s\<lparr>s_pc := Attached, s_tui := Some (start_child False)\<rparr>)"
| tui_exited:
    "s_pc s = Attached \<Longrightarrow> s_tui s = Some c \<Longrightarrow> \<not> c_alive c \<Longrightarrow>
     interactive_step ex r s
       (s\<lparr>s_pc := Leaving (map_option (wrapf ''Herdr TUI exited: %w'' []) x) False\<rparr>)"
| server_exited:
    "s_pc s = Attached \<Longrightarrow> s_spawned s \<Longrightarrow> s_server s = Some c \<Longrightarrow> \<not> c_alive c \<Longrightarrow>
     interactive_step ex r s
       (s\<lparr>s_pc := Leaving (Some (wrapf ''Herdr server exited unexpectedly: %w'' [] (exit_error x))) False,
          s_tui := stopped dies (s_tui s)\<rparr>)"
| sshd_exited:
    "s_pc s = Attached \<Longrightarrow> s_sshd s = Some c \<Longrightarrow> \<not> c_alive c \<Longrightarrow>
     interactive_step ex r s
       (s\<lparr>s_pc := Leaving (Some (wrapf ''local sshd exited unexpectedly: %w'' [] (exit_error x))) False,
          s_tui := stopped dies (s_tui s)\<rparr>)"
| ctx_over:
    "s_pc s = Attached \<Longrightarrow> s_ctx s \<Longrightarrow>
     interactive_step ex r s (s\<lparr>s_pc := Leaving None False, s_tui := stopped dies (s_tui s)\<rparr>)"
| infra_stopped:
    "s_pc s = Leaving res c \<Longrightarrow>
     interactive_step ex r s (s\<lparr>s_pc := Draining res c, s_run := True, s_sshd := stopped dies (s_sshd s)\<rparr>)"
| tunnel_drained:
    "s_pc s = Draining res c \<Longrightarrow> s_tun s = Finished \<Longrightarrow>
     (if c then cleaned_up ex r s s1 else s1 = s) \<Longrightarrow>
     interactive_step ex r s (s1\<lparr>s_pc := Returned res\<rparr>)"

text \<open>\<open>RunTunnel\<close>.\<close>

inductive bare_step :: "sup \<Rightarrow> sup \<Rightarrow> bool" where
  bare_begin:
    "s_pc s = Begin \<Longrightarrow> bare_step s (s\<lparr>s_pc := Launching 0 None\<rparr>)"
| bare_failed:
    "s_pc s = InfraFailed e \<Longrightarrow> bare_step s (s\<lparr>s_pc := Returned (Some e), s_run := True\<rparr>)"
| bare_up:
    "s_pc s = InfraUp \<Longrightarrow> bare_step s (s\<lparr>s_pc := Attached\<rparr>)"
| bare_sshd_exited:
    "s_pc s = Attached \<Longrightarrow> s_sshd s = Some c \<Longrightarrow> \<not> c_alive c \<Longrightarrow>
     bare_step s (s\<lparr>s_pc := Leaving (Some (wrapf ''local sshd exited unexpectedly: %w'' [] (exit_error x))) False\<rparr>)"
| bare_ctx_over:
    "s_pc s = Attached \<Longrightarrow> s_ctx s \<Longrightarrow> bare_step s (s\<lparr>s_pc := Leaving None False\<rparr>)"
| bare_stopped:
    "s_pc s = Leaving res c \<Longrightarrow>
     bare_step s (s\<lparr>s_pc := Draining res c, s_run := True, s_sshd := stopped dies (s_sshd s)\<rparr>)"
| bare_drained:
    "s_pc s = Draining res c \<Longrightarrow> s_tun s = Finished \<Longrightarrow> bare_step s (s\<lparr>s_pc := Returned res\<rparr>)"

text \<open>\<open>RunHerdr\<close>, once it has a server of its own.\<close>

inductive served_step :: "prog \<Rightarrow> runtime_cfg \<Rightarrow> sup \<Rightarrow> sup \<Rightarrow> bool" for ex r where
  served_exit:
    "s_pc s = Serving \<Longrightarrow> s_server s = Some c \<Longrightarrow> \<not> c_alive c \<Longrightarrow>
     served_step ex r s
       (s\<lparr>s_pc := Returned (Some (wrapf ''Herdr server exited unexpectedly: %w'' [] (exit_error x)))\<rparr>)"
| served_ctx:
    "s_pc s = Serving \<Longrightarrow> s_ctx s \<Longrightarrow> herdr_stopped ex r s s1 \<Longrightarrow>
     served_step ex r s (s1\<lparr>s_pc := Returned None, s_server := stopped dies (s_server s1)\<rparr>)"

text \<open>\<open>superviseAdoptedHerdr\<close>.\<close>

inductive adopted_step :: "prog \<Rightarrow> runtime_cfg \<Rightarrow> sup \<Rightarrow> sup \<Rightarrow> bool" for ex r where
  adopted_there:
    "s_pc s = Adopted \<Longrightarrow> query_herdr ex (r_herdr r) (r_env r) (s_world s) = (q, w') \<Longrightarrow>
     (case q of Inr st \<Rightarrow> hs_running st | Inl _ \<Rightarrow> True) \<Longrightarrow>
     adopted_step ex r s (s\<lparr>s_world := w'\<rparr>)"
| adopted_gone:
    "s_pc s = Adopted \<Longrightarrow> query_herdr ex (r_herdr r) (r_env r) (s_world s) = (Inr st, w') \<Longrightarrow> \<not> hs_running st \<Longrightarrow>
     adopted_step ex r s
       (s\<lparr>s_pc := Returned (Some (errorf ''adopted Herdr server is no longer running'' [])), s_world := w'\<rparr>)"
| adopted_ctx:
    "s_pc s = Adopted \<Longrightarrow> s_ctx s \<Longrightarrow> herdr_stopped ex r s s1 \<Longrightarrow>
     adopted_step ex r s (s1\<lparr>s_pc := Returned None\<rparr>)"

section \<open>The tunnel goroutine\<close>

text \<open>\<open>tunnelLoop\<close>; \<open>long\<close> says whether the connection lasted two minutes.\<close>

inductive tunnel_step :: "(int \<Rightarrow> int) \<Rightarrow> runtime_cfg \<Rightarrow> sup \<Rightarrow> sup \<Rightarrow> bool" for rnd r where
  halt:
    "s_tun s = Checking \<Longrightarrow> run_over s \<Longrightarrow> tunnel_step rnd r s (s\<lparr>s_tun := Finished\<rparr>)"
| connect_failed:
    "s_tun s = Checking \<Longrightarrow> \<not> run_over s \<Longrightarrow> tunnel_step rnd r s (s\<lparr>s_tun := Lost\<rparr>)"
| connect:
    "s_tun s = Checking \<Longrightarrow> \<not> run_over s \<Longrightarrow>
     tunnel_step rnd r s
       (s\<lparr>s_tun := Connected, s_ssh := Some (start_child True),
          s_argv := tunnel_args_for_port (r_paths r) (r_enrollment r) (s_port s)\<rparr>)"
| lost:
    "s_tun s = Connected \<Longrightarrow> s_ssh s = Some c \<Longrightarrow> \<not> c_alive c \<Longrightarrow>
     tunnel_step rnd r s
       (s\<lparr>s_tun := Lost, s_ssh := None, s_gone := c # s_gone s,
          s_tries := (if long then 0 else s_tries s)\<rparr>)"
| cut_off:
    "s_tun s = Connected \<Longrightarrow> run_over s \<Longrightarrow>
     tunnel_step rnd r s
       (s\<lparr>s_tun := Finished, s_ssh := None, s_gone := drop_child (stopped dies (s_ssh s)) (s_gone s)\<rparr>)"
| give_up:
    "s_tun s = Lost \<Longrightarrow> run_over s \<Longrightarrow> tunnel_step rnd r s (s\<lparr>s_tun := Finished\<rparr>)"
| back_off:
    "s_tun s = Lost \<Longrightarrow> \<not> run_over s \<Longrightarrow>
     tunnel_step rnd r s (s\<lparr>s_tun := Sleeping, s_delay := backoff rnd (s_tries s), s_tries := Suc (s_tries s)\<rparr>)"
| wake:
    "s_tun s = Sleeping \<Longrightarrow> tunnel_step rnd r s (s\<lparr>s_tun := Checking\<rparr>)"
| sleep_cut:
    "s_tun s = Sleeping \<Longrightarrow> run_over s \<Longrightarrow> tunnel_step rnd r s (s\<lparr>s_tun := Finished\<rparr>)"

section \<open>The whole\<close>

definition died :: "child \<Rightarrow> child" where
  "died c = c\<lparr>c_alive := False\<rparr>"

text \<open>What happens without the program: the context ends, a process exits.\<close>

inductive env_step :: "sup \<Rightarrow> sup \<Rightarrow> bool" where
  cancel: "env_step s (s\<lparr>s_ctx := True\<rparr>)"
| server_dies: "env_step s (s\<lparr>s_server := map_option died (s_server s)\<rparr>)"
| sshd_dies: "env_step s (s\<lparr>s_sshd := map_option died (s_sshd s)\<rparr>)"
| tui_dies: "env_step s (s\<lparr>s_tui := map_option died (s_tui s)\<rparr>)"
| ssh_dies: "env_step s (s\<lparr>s_ssh := map_option died (s_ssh s)\<rparr>)"

definition prog_step :: "(int \<Rightarrow> int) \<Rightarrow> mode \<Rightarrow> prog \<Rightarrow> runtime_cfg \<Rightarrow> sup \<Rightarrow> sup \<Rightarrow> bool" where
  "prog_step rnd m ex r s s' \<longleftrightarrow>
     ensure_step m ex r s s' \<or> ready_step m ex r s s' \<or> sshd_step r s s'
     \<or> m = Interactive \<and> interactive_step ex r s s' \<or> m = TunnelOnly \<and> bare_step s s'
     \<or> m = Service \<and> (served_step ex r s s' \<or> adopted_step ex r s s')
     \<or> tunnel_step rnd r s s'"

inductive reachable :: "(int \<Rightarrow> int) \<Rightarrow> mode \<Rightarrow> prog \<Rightarrow> runtime_cfg \<Rightarrow> sup \<Rightarrow> bool" for rnd m ex r where
  start: "reachable rnd m ex r (start_state w)"
| prog: "reachable rnd m ex r s \<Longrightarrow> prog_step rnd m ex r s s' \<Longrightarrow> reachable rnd m ex r s'"
| env: "reachable rnd m ex r s \<Longrightarrow> env_step s s' \<Longrightarrow> reachable rnd m ex r s'"

end
