(* ===== verification/SuperviseFacts.thy ===== *)
theory SuperviseFacts
  imports Supervise
begin

text \<open>
  The invariant of the supervisor: which processes may be alive, and where the tunnel goroutine may be,
  at each place of the main goroutine; every step of every schedule preserves it.
\<close>

section \<open>Stopping a process\<close>

definition down :: "child option \<Rightarrow> bool" where
  "down c = (case c of None \<Rightarrow> True | Some p \<Rightarrow> \<not> c_alive p)"

definition sound :: "child option \<Rightarrow> bool" where
  "sound c = (case c of None \<Rightarrow> True | Some p \<Rightarrow> c_once p \<longrightarrow> \<not> c_alive p)"

lemma down_simps [simp]:
  "down None" "down (Some p) = (\<not> c_alive p)" "down (map_option died c)"
  by (auto simp: down_def died_def split: option.split)

lemma sound_simps [simp]:
  "sound None" "sound (Some (start_child g))" "sound (map_option died c)"
  by (auto simp: sound_def start_child_def died_def split: option.split)

lemma start_child_alive [simp]: "c_alive (start_child g)"
  by (simp add: start_child_def)

lemma stopped_down [simp]: "sound c \<Longrightarrow> down (stopped dies c)"
  by (auto simp: stopped_def stop_child_def sound_def down_def split: option.splits)

lemma stopped_sound [simp]: "sound c \<Longrightarrow> sound (stopped dies c)"
  by (auto simp: stopped_def stop_child_def sound_def split: option.splits)

lemma stopped_None [simp]: "stopped dies c = None \<longleftrightarrow> c = None"
  by (auto simp: stopped_def stop_child_def split: option.splits)

lemma set_drop_child: "set (drop_child c cs) = set_option c \<union> set cs"
  by (auto simp: drop_child_def split: option.split)

lemma down_iff: "down c \<longleftrightarrow> (\<forall>p \<in> set_option c. \<not> c_alive p)"
  by (simp add: down_def split: option.split)

lemma gone_stopped [simp]:
  "sound c \<Longrightarrow> (\<forall>p \<in> set (drop_child (stopped dies c) cs). \<not> c_alive p) \<longleftrightarrow> (\<forall>p \<in> set cs. \<not> c_alive p)"
  using stopped_down [of c dies] unfolding set_drop_child down_iff by blast

section \<open>The invariant\<close>

fun pc_inv :: "mode \<Rightarrow> main_pc \<Rightarrow> sup \<Rightarrow> bool" where
  "pc_inv m Begin s \<longleftrightarrow> s_tun s = Off \<and> s_sshd s = None \<and> s_tui s = None \<and> s_server s = None
     \<and> \<not> s_spawned s \<and> s_starts s = 0 \<and> s_stops s = 0"
| "pc_inv m WaitReady s \<longleftrightarrow> s_tun s = Off \<and> s_sshd s = None \<and> s_tui s = None \<and> s_server s \<noteq> None
     \<and> \<not> s_spawned s \<and> m \<noteq> TunnelOnly \<and> s_starts s = 0 \<and> s_stops s = 0"
| "pc_inv m (Launching i l) s \<longleftrightarrow> s_tun s = Off \<and> s_sshd s = None \<and> s_tui s = None
     \<and> m \<noteq> Service \<and> i \<le> max_sshd \<and> (0 < i \<longrightarrow> l \<noteq> None) \<and> s_starts s = i \<and> s_stops s = 0"
| "pc_inv m (Probing i) s \<longleftrightarrow> s_tun s = Off \<and> s_sshd s \<noteq> None \<and> s_tui s = None
     \<and> m \<noteq> Service \<and> i < max_sshd \<and> s_starts s = Suc i \<and> s_stops s = 0"
| "pc_inv m (InfraFailed e) s \<longleftrightarrow> s_tun s = Off \<and> s_sshd s = None \<and> s_tui s = None \<and> m \<noteq> Service
     \<and> s_starts s \<le> max_sshd \<and> s_stops s = 0"
| "pc_inv m InfraUp s \<longleftrightarrow> s_tun s \<noteq> Off \<and> s_sshd s \<noteq> None \<and> s_tui s = None \<and> m \<noteq> Service
     \<and> s_starts s \<le> max_sshd \<and> s_stops s = 0"
| "pc_inv m Attached s \<longleftrightarrow> s_tun s \<noteq> Off \<and> s_sshd s \<noteq> None \<and> (s_tui s \<noteq> None \<longleftrightarrow> m = Interactive) \<and> m \<noteq> Service
     \<and> s_starts s \<le> max_sshd \<and> s_stops s = 0"
| "pc_inv m (Leaving res c) s \<longleftrightarrow> s_tun s \<noteq> Off \<and> s_sshd s \<noteq> None \<and> down (s_tui s) \<and> m \<noteq> Service
     \<and> (c \<or> s_tui s \<noteq> None \<or> m = TunnelOnly) \<and> s_starts s \<le> max_sshd \<and> s_stops s = 0"
| "pc_inv m (Draining res c) s \<longleftrightarrow> s_tun s \<noteq> Off \<and> down (s_sshd s) \<and> down (s_tui s) \<and> m \<noteq> Service \<and> s_run s
     \<and> (c \<or> s_tui s \<noteq> None \<or> m = TunnelOnly) \<and> s_starts s \<le> max_sshd \<and> s_stops s = 0"
| "pc_inv m Serving s \<longleftrightarrow> s_tun s = Off \<and> s_sshd s = None \<and> s_tui s = None \<and> m = Service \<and> s_spawned s
     \<and> s_starts s = 0 \<and> s_stops s = 0"
| "pc_inv m Adopted s \<longleftrightarrow> s_tun s = Off \<and> s_sshd s = None \<and> s_tui s = None \<and> m = Service \<and> \<not> s_spawned s
     \<and> s_starts s = 0 \<and> s_stops s = 0"
| "pc_inv m (Returned res) s \<longleftrightarrow> s_tun s \<in> {Off, Finished} \<and> down (s_sshd s) \<and> down (s_tui s)
     \<and> (\<not> down (s_server s) \<longrightarrow> m = Interactive \<and> s_tui s \<noteq> None)
     \<and> s_starts s \<le> max_sshd \<and> (s_stops s = 0 \<or> s_spawned s \<or> m = Service) \<and> s_stops s \<le> 1"

definition sup_inv :: "mode \<Rightarrow> sup \<Rightarrow> bool" where
  "sup_inv m s \<longleftrightarrow> pc_inv m (s_pc s) s
     \<and> (\<forall>p \<in> set (s_gone s). \<not> c_alive p)
     \<and> sound (s_server s) \<and> sound (s_sshd s) \<and> sound (s_tui s) \<and> sound (s_ssh s)
     \<and> (s_ssh s \<noteq> None \<longleftrightarrow> s_tun s = Connected)
     \<and> (s_tun s = Finished \<longrightarrow> run_over s)
     \<and> (s_spawned s \<longrightarrow> s_server s \<noteq> None \<and> m \<noteq> TunnelOnly)
     \<and> (s_server s \<noteq> None \<longrightarrow> s_spawned s \<or> s_pc s = WaitReady)"

lemma start_inv: "sup_inv m (start_state w)"
  by (simp add: sup_inv_def start_state_def)

text \<open>A step that is not one of the main goroutine keeps what this goroutine relies on.\<close>

lemma pc_inv_frame:
  assumes "pc_inv m pc s"
    and "s_tun s' = Off \<longleftrightarrow> s_tun s = Off" "s_tun s = Finished \<Longrightarrow> s_tun s' = Finished"
    and "s_sshd s' = None \<longleftrightarrow> s_sshd s = None" "s_tui s' = None \<longleftrightarrow> s_tui s = None" "s_server s' = None \<longleftrightarrow> s_server s = None"
    and "down (s_sshd s) \<Longrightarrow> down (s_sshd s')" "down (s_tui s) \<Longrightarrow> down (s_tui s')" "down (s_server s) \<Longrightarrow> down (s_server s')"
    and "s_spawned s' = s_spawned s" "s_starts s' = s_starts s" "s_stops s' = s_stops s" "s_run s' = s_run s"
  shows "pc_inv m pc s'"
  using assms by (cases pc; simp del: not_None_eq; blast)

lemma env_inv: "env_step s s' \<Longrightarrow> sup_inv m s \<Longrightarrow> sup_inv m s'"
  by (induction rule: env_step.induct; unfold sup_inv_def; elim conjE; intro conjI; (rule pc_inv_frame)?)
    (auto simp: run_over_def)

lemma tunnel_inv: "tunnel_step rnd r s s' \<Longrightarrow> sup_inv m s \<Longrightarrow> sup_inv m s'"
  by (induction rule: tunnel_step.induct; unfold sup_inv_def; elim conjE; intro conjI; (rule pc_inv_frame)?)
    (auto simp: run_over_def)


lemma herdr_stoppedD:
  "herdr_stopped ex r s s' \<Longrightarrow> \<exists>w'. s' = s\<lparr>s_world := w', s_stops := Suc (s_stops s)\<rparr>"
  unfolding herdr_stopped_def by blast

lemma cleaned_upD:
  assumes "cleaned_up ex r s s'"
  shows "\<not> s_spawned s \<and> s' = s
    \<or> s_spawned s \<and> (\<exists>w' dies. s' = s\<lparr>s_world := w', s_stops := Suc (s_stops s), s_server := stopped dies (s_server s)\<rparr>)"
proof (cases "s_spawned s")
  case True
  with assms obtain s1 dies where s1: "herdr_stopped ex r s s1" and s': "s' = s1\<lparr>s_server := stopped dies (s_server s1)\<rparr>"
    unfolding cleaned_up_def by auto
  from herdr_stoppedD [OF s1] obtain w' where "s1 = s\<lparr>s_world := w', s_stops := Suc (s_stops s)\<rparr>" by blast
  with s' have "s' = s\<lparr>s_world := w', s_stops := Suc (s_stops s), s_server := stopped dies (s_server s)\<rparr>" by simp
  with True show ?thesis by blast
qed (use assms in \<open>simp add: cleaned_up_def\<close>)

lemma ensure_inv: "ensure_step m ex r s s' \<Longrightarrow> sup_inv m s \<Longrightarrow> sup_inv m s'"
  by (induction rule: ensure_step.induct; cases m) (auto simp: sup_inv_def run_over_def)

lemma ready_inv: "ready_step m ex r s s' \<Longrightarrow> sup_inv m s \<Longrightarrow> sup_inv m s'"
  by (induction rule: ready_step.induct; cases m) (auto simp: sup_inv_def run_over_def)

lemma sshd_inv: "sshd_step r s s' \<Longrightarrow> sup_inv m s \<Longrightarrow> sup_inv m s'"
  by (induction rule: sshd_step.induct) (auto simp: sup_inv_def run_over_def max_sshd_def infra_started_def)

lemma bare_inv: "bare_step s s' \<Longrightarrow> sup_inv TunnelOnly s \<Longrightarrow> sup_inv TunnelOnly s'"
  by (induction rule: bare_step.induct) (auto simp: sup_inv_def run_over_def)

lemma served_inv: "served_step ex r s s' \<Longrightarrow> sup_inv Service s \<Longrightarrow> sup_inv Service s'"
  by (induction rule: served_step.induct) (auto simp: sup_inv_def run_over_def dest!: herdr_stoppedD)

lemma adopted_inv: "adopted_step ex r s s' \<Longrightarrow> sup_inv Service s \<Longrightarrow> sup_inv Service s'"
  by (induction rule: adopted_step.induct) (auto simp: sup_inv_def run_over_def dest!: herdr_stoppedD)

text \<open>Cleaning up leaves everything but the server and the count of stops as it was.\<close>

lemma cleaned_inv:
  assumes "cleaned_up ex r s s1" "s_server s \<noteq> None \<longrightarrow> s_spawned s" "sound (s_server s)" "s_stops s = 0"
  shows "down (s_server s1) \<and> sound (s_server s1) \<and> (s_server s1 = None \<longleftrightarrow> s_server s = None)
    \<and> (s_stops s1 = 0 \<or> s_spawned s) \<and> s_stops s1 \<le> 1
    \<and> s_tun s1 = s_tun s \<and> s_sshd s1 = s_sshd s \<and> s_tui s1 = s_tui s \<and> s_ssh s1 = s_ssh s
    \<and> s_gone s1 = s_gone s \<and> s_ctx s1 = s_ctx s \<and> s_run s1 = s_run s \<and> s_spawned s1 = s_spawned s
    \<and> s_starts s1 = s_starts s"
  using cleaned_upD [OF assms(1)] assms(2-4) by auto

lemma interactive_inv: "interactive_step ex r s s' \<Longrightarrow> sup_inv Interactive s \<Longrightarrow> sup_inv Interactive s'"
proof (induction rule: interactive_step.induct)
  case (infra_failed s e s1)
  from cleaned_inv [OF infra_failed(2)] infra_failed show ?case
    by (simp add: sup_inv_def run_over_def)
next
  case (tunnel_drained s res c s1)
  show ?case
  proof (cases c)
    case True
    with tunnel_drained have "cleaned_up ex r s s1" by simp
    from cleaned_inv [OF this] tunnel_drained show ?thesis
      by (simp add: sup_inv_def run_over_def)
  next
    case False
    with tunnel_drained show ?thesis by (auto simp: sup_inv_def run_over_def)
  qed
qed (auto simp: sup_inv_def run_over_def)

lemmas step_invs = ensure_inv ready_inv sshd_inv interactive_inv bare_inv served_inv adopted_inv tunnel_inv

lemma prog_inv: "prog_step rnd m ex r s s' \<Longrightarrow> sup_inv m s \<Longrightarrow> sup_inv m s'"
  unfolding prog_step_def by (auto intro: step_invs)

lemma reachable_inv: "reachable rnd m ex r s \<Longrightarrow> sup_inv m s"
  by (induction rule: reachable.induct) (auto intro: start_inv prog_inv env_inv)

end
