(* ===== verification/ConfigProps.thy ===== *)
theory ConfigProps
  imports Config
begin

text \<open>
  The properties of the generated configuration: quoting can be undone, \<open>sshd_config\<close> says what was
  meant whatever the state directory is called, the five files are installed completely or not at all,
  and the tunnel's arguments are the intended ones.
\<close>

section \<open>Lines and settings\<close>

lemma itoa_digits: "0 \<le> i \<Longrightarrow> c \<in> set (itoa i) \<Longrightarrow> is_digit c"
  using nat_str_digits by (simp add: itoa_def)

lemma has_control_line: "\<not> has_control s \<Longrightarrow> LF \<notin> set s \<and> CR \<notin> set s"
  by (induction s rule: has_control.induct) (auto simp: byte_def)

lemma state_path_line:
  assumes "state_dir_ok d" "plain n" "LF \<notin> set n"
  shows "LF \<notin> set (path_join [d, n])"
proof -
  have c: "canonical (path_join [d, n])" and e: "elems (path_join [d, n]) = elems d @ [n]"
    using state_path assms(1,2) by (auto simp: state_dir_ok_def)
  have "LF \<notin> set d" using assms(1) has_control_line by (auto simp: state_dir_ok_def)
  then have "\<forall>x \<in> set (elems d @ [n]). LF \<notin> set x"
    using assms(3) split_on_parts_subset [of _ SLASH d] by (fastforce simp: elems_def)
  moreover have "path_join [d, n] = render True (elems d @ [n])" using canonical_elems [OF c] e by simp
  ultimately show ?thesis
    using set_join_subset [of "[SLASH]" "elems d @ [n]"] by (fastforce simp: render_def)
qed


text \<open>
  A setting of \<open>sshd_config\<close>, read the way \<open>sshd\<close> does: line by line, the keyword ends at the first
  space, and the first value obtained for a keyword is the one used.
\<close>

definition config_entries :: "string \<Rightarrow> (string \<times> string) list" where
  "config_entries text = map (\<lambda>l. case cut (CHR '' '') l of (k, v, _) \<Rightarrow> (k, v)) (split_on LF text)"

definition sshd_setting :: "string \<Rightarrow> string \<Rightarrow> string option" where
  "sshd_setting text k = map_of (config_entries text) k"

lemma sshd_lines_no_newline:
  assumes "state_dir_ok d" "full_match user_re user" "0 \<le> lport"
  shows "\<forall>l \<in> set (sshd_config_lines (paths_in d) user lport). LF \<notin> set l"
proof -
  have "LF \<notin> set (sshd_quote (path_join [d, n]))" if "plain n" "LF \<notin> set n" for n
    using state_path_line [OF assms(1) that] sshd_quote_chars [of "path_join [d, n]"] by auto
  then have q: "LF \<notin> set (sshd_quote (p_host_key (paths_in d)))" "LF \<notin> set (sshd_quote (p_sshd_pid (paths_in d)))"
      "LF \<notin> set (sshd_quote (p_authorized_keys (paths_in d)))" "LF \<notin> set (sshd_quote (p_ssh_bridge (paths_in d)))"
    by (simp_all add: paths_in_def plain_def)
  have "LF \<notin> set user" using user_chars [OF assms(2)] by (auto simp: list_all_iff)
  moreover have "LF \<notin> set (itoa lport)" using itoa_digits [OF assms(3), of LF] by (auto simp: is_digit_def byte_def)
  ultimately show ?thesis using q by (simp add: sshd_config_lines_def)
qed

lemma config_entries_text:
  assumes "state_dir_ok d" "full_match user_re user" "0 \<le> lport"
  shows "config_entries (sshd_config_text (paths_in d) user lport)
    = map (\<lambda>l. case cut (CHR '' '') l of (k, v, _) \<Rightarrow> (k, v)) (sshd_config_lines (paths_in d) user lport)"
proof -
  have "sshd_config_lines (paths_in d) user lport \<noteq> []" by (simp add: sshd_config_lines_def)
  from split_on_join [OF this sshd_lines_no_newline [OF assms]] show ?thesis
    by (simp add: config_entries_def sshd_config_text_def)
qed



text \<open>
  C21. Both quoting functions can be undone: a shell reads the single-quoted word back as the original
  string, and an \<open>sshd_config\<close> argument unquotes to it.
\<close>

theorem quoting_roundtrip:
  "sh_word False (shell_quote s) = Some s \<and> sshd_unquote (sshd_quote s) = Some s"
  by simp


section \<open>The five files\<close>

definition ck_of :: "enrollment \<Rightarrow> string" where
  "ck_of e = projr (normalize_public_key (controller_public_key e))"

definition hk_of :: "enrollment \<Rightarrow> string" where
  "hk_of e = projr (normalize_public_key (tunnel_host_key e))"

definition config_files :: "string \<Rightarrow> enrollment \<Rightarrow> string \<Rightarrow> string \<Rightarrow> int \<Rightarrow> (path \<times> node) list" where
  "config_files d e user herdr lport =
     [(elems d @ [''sshd_config''], Reg o600 (sshd_config_text (paths_in d) user lport)),
      (elems d @ [''ssh-bridge''], Reg o700 (bridge_script d)),
      (elems d @ [''herdr''], Reg o700 (wrapper_script herdr)),
      (elems d @ [''known_hosts''], Reg o600 (known_name e @ '' '' @ hk_of e @ [LF])),
      (elems d @ [''authorized_keys''], Reg o600 (authorized_line (ck_of e)))]"

lemma config_files_in_dir: "in_dir_files d (map_of (config_files d e user herdr lport))"
proof -
  have "p \<noteq> elems d @ [n]" if "prefix p (elems d)" for p n
    using that by (auto simp: prefix_def)
  then show ?thesis by (auto simp: in_dir_files_def config_files_def map_of_eq_None_iff)
qed

lemma config_names [simp]:
  "plain ''sshd_config''" "plain ''ssh-bridge''" "plain ''herdr''" "plain ''known_hosts''" "plain ''authorized_keys''"
  "\<not> temp_name ''sshd_config''" "\<not> temp_name ''ssh-bridge''" "\<not> temp_name ''herdr''"
  "\<not> temp_name ''known_hosts''" "\<not> temp_name ''authorized_keys''"
  by code_simp+

lemma config_lookup:
  "map_of (config_files d e user herdr lport) (elems d @ [''authorized_keys'']) = Some (Reg o600 (authorized_line (ck_of e)))"
  "map_of (config_files d e user herdr lport) (elems d @ [''known_hosts'']) = Some (Reg o600 (known_name e @ '' '' @ hk_of e @ [LF]))"
  "map_of (config_files d e user herdr lport) (elems d @ [''herdr'']) = Some (Reg o700 (wrapper_script herdr))"
  "map_of (config_files d e user herdr lport) (elems d @ [''ssh-bridge'']) = Some (Reg o700 (bridge_script d))"
  "map_of (config_files d e user herdr lport) (elems d @ [''sshd_config'']) = Some (Reg o600 (sshd_config_text (paths_in d) user lport))"
  by (simp_all add: config_files_def)

lemma wp_write_runtime_config:
  assumes d: "state_ready d (vis (fs w))"
    and W: "W = map_of (config_files d e user herdr lport)"
  shows "wp (write_runtime_config (paths_in d) e user herdr lport)
    (\<lambda>_ w'. installing W w w' \<and> vis (fs w') = vis (fs w) ++ W
       \<and> is_ok (normalize_public_key (controller_public_key e)) \<and> is_ok (normalize_public_key (tunnel_host_key e)))
    (\<lambda>_ w'. installing W w w') w"
proof -
  note step = wp_install_one [OF _ d config_files_in_dir, of e user herdr lport, folded W]
  note look = config_lookup [of d e user herdr lport, folded W]
  let ?D = "elems d"
  have all: "vis (fs w) ++ W = (vis (fs w))(?D @ [''authorized_keys''] \<mapsto> Reg o600 (authorized_line (ck_of e)),
      ?D @ [''known_hosts''] \<mapsto> Reg o600 (known_name e @ '' '' @ hk_of e @ [LF]),
      ?D @ [''herdr''] \<mapsto> Reg o700 (wrapper_script herdr), ?D @ [''ssh-bridge''] \<mapsto> Reg o700 (bridge_script d),
      ?D @ [''sshd_config''] \<mapsto> Reg o600 (sshd_config_text (paths_in d) user lport))"
    by (simp add: W config_files_def)
  show ?thesis
  proof (cases "normalize_public_key (controller_public_key e)"; cases "normalize_public_key (tunnel_host_key e)")
    fix ck hk
    assume k: "normalize_public_key (controller_public_key e) = Inr ck" "normalize_public_key (tunnel_host_key e) = Inr hk"
    then have k': "ck_of e = ck" "hk_of e = hk" by (simp_all add: ck_of_def hk_of_def)
    show ?thesis
      unfolding all unfolding write_runtime_config_def
      using k k' look
      by (auto simp: paths_in_def intro!: wp_mono [OF step])
  next
    fix ck x
    assume k: "normalize_public_key (controller_public_key e) = Inr ck" "normalize_public_key (tunnel_host_key e) = Inl x"
    then have "ck_of e = ck" by (simp add: ck_of_def)
    with k look show ?thesis
      unfolding write_runtime_config_def by (auto simp: paths_in_def intro!: wp_mono [OF step])
  qed (auto simp: write_runtime_config_def)
qed


text \<open>
  A successful \<open>WriteRuntimeConfig\<close> has installed the five files with exactly their contents and
  modes, has left every other visible path alone, and has found two well-formed keys.
\<close>

theorem config_written:
  assumes "state_ready d (vis (fs w))"
    and "write_runtime_config (paths_in d) e user herdr lport w = (Inr u, w')"
  shows "vis (fs w') = vis (fs w) ++ map_of (config_files d e user herdr lport)
    \<and> normalize_public_key (controller_public_key e) = Inr (ck_of e)
    \<and> normalize_public_key (tunnel_host_key e) = Inr (hk_of e)"
  using wp_run [OF wp_write_runtime_config [OF assms(1) refl] assms(2)]
  by (auto simp: is_ok_iff ck_of_def hk_of_def)

text \<open>
  However \<open>WriteRuntimeConfig\<close> ends, and in every state a crash can leave, each of the five files
  is the old one or the complete new one and no other visible path differs.
\<close>

theorem config_crash:
  assumes "state_ready d (vis (fs w))"
    and "write_runtime_config (paths_in d) e user herdr lport w = (r, w')"
    and "hist w' = hs @ hist w" "f \<in> set hs \<or> f = fs w'"
  shows "vis f p = vis (fs w) p
    \<or> (p \<in> {elems d @ [n] | n. n \<in> {''authorized_keys'', ''known_hosts'', ''herdr'', ''ssh-bridge'', ''sshd_config''}}
       \<and> vis f p = map_of (config_files d e user herdr lport) p)"
proof -
  let ?W = "map_of (config_files d e user herdr lport)"
  have "installing ?W w w'"
    using wp_run [OF wp_write_runtime_config [OF assms(1) refl] assms(2)] by (auto split: sum.splits)
  then have "partly ?W (vis (fs w)) (vis f)"
    using assms(3,4) installing_history installing_partly by blast
  then have "vis f p = vis (fs w) p \<or> (?W p \<noteq> None \<and> vis f p = ?W p)" by (auto simp: partly_def)
  then show ?thesis by (auto simp: config_files_def split: if_splits)
qed

definition demo_state_dir :: world where
  "demo_state_dir = \<lparr>fs = [([''d''], Dir o700)], cwd = [], environ = [], faults = [], names = [0, 1, 2, 3, 4], hist = []\<rparr>"

lemma demo_state_ready: "state_ready ''/d'' (vis (fs demo_state_dir))"
  by code_simp

lemma demo_five_files:
  "is_ok (fst (seq (atomic_write ''/d/authorized_keys'' t1 o600) (\<lambda>_.
     seq (atomic_write ''/d/known_hosts'' t2 o600) (\<lambda>_.
     seq (atomic_write ''/d/herdr'' t3 o700) (\<lambda>_.
     seq (atomic_write ''/d/ssh-bridge'' t4 o700) (\<lambda>_.
     atomic_write ''/d/sshd_config'' t5 o600)))) (demo_state_dir\<lparr>hist := hs\<rparr>)))"
  by code_simp

lemma demo_config_runs:
  "is_ok (fst (write_runtime_config (paths_in ''/d'') demo_enrollment ''me'' ''/bin/herdr'' 2222 (demo_state_dir\<lparr>hist := hs\<rparr>)))"
proof -
  have k: "normalize_public_key (controller_public_key demo_enrollment) = Inr demo_key"
    "normalize_public_key (tunnel_host_key demo_enrollment) = Inr demo_key"
    "full_match user_re ''me''" "\<not> contains_any ''/bin/herdr'' [CR, LF]" by code_simp+
  have p: "p_authorized_keys (paths_in ''/d'') = ''/d/authorized_keys''" "p_known_hosts (paths_in ''/d'') = ''/d/known_hosts''"
    "p_herdr_wrapper (paths_in ''/d'') = ''/d/herdr''" "p_ssh_bridge (paths_in ''/d'') = ''/d/ssh-bridge''"
    "p_sshd_config (paths_in ''/d'') = ''/d/sshd_config''" by code_simp+
  have l: "seq (lift (Inr x)) g = g x" for x :: 'x and g :: "'x \<Rightarrow> 'y io"
    by (simp add: seq_def lift_def fun_eq_iff)
  show ?thesis
    unfolding write_runtime_config_def k map_err_simps l p using k(3,4) demo_five_files by simp
qed

lemma demo_config_run:
  "is_ok (fst (write_runtime_config (paths_in ''/d'') demo_enrollment ''me'' ''/bin/herdr'' 2222 demo_state_dir))"
  using demo_config_runs [of "[]"] by (simp add: demo_state_dir_def)

theorem config_written_witness:
  "vis (fs (snd (write_runtime_config (paths_in ''/d'') demo_enrollment ''me'' ''/bin/herdr'' 2222 demo_state_dir)))
     [''d'', ''herdr''] = Some (Reg o700 (''#!/bin/sh'' @ [LF] @ ''exec '' @ [SQUOTE] @ ''/bin/herdr'' @ [SQUOTE] @ '' '' @ [DQUOTE] @ ''$@'' @ [DQUOTE, LF]))"
proof -
  obtain u w' where run: "write_runtime_config (paths_in ''/d'') demo_enrollment ''me'' ''/bin/herdr'' 2222 demo_state_dir = (Inr u, w')"
    using demo_config_run by (cases "write_runtime_config (paths_in ''/d'') demo_enrollment ''me'' ''/bin/herdr'' 2222 demo_state_dir")
      (auto simp: is_ok_iff)
  have "elems ''/d'' = [''d'']" "wrapper_script ''/bin/herdr''
      = ''#!/bin/sh'' @ [LF] @ ''exec '' @ [SQUOTE] @ ''/bin/herdr'' @ [SQUOTE] @ '' '' @ [DQUOTE] @ ''$@'' @ [DQUOTE, LF]"
    by code_simp+
  with config_written [OF demo_state_ready run] show ?thesis
    by (simp add: run config_files_def)
qed

theorem config_crash_witness:
  "let w' = snd (write_runtime_config (paths_in ''/d'') demo_enrollment ''me'' ''/bin/herdr'' 2222
      (demo_state_dir\<lparr>faults := replicate 9 None @ [Some ENOSPC]\<rparr>)) in
   vis (fs w') [''x''] = None"
proof -
  let ?w = "demo_state_dir\<lparr>faults := replicate 9 None @ [Some ENOSPC]\<rparr>"
  obtain r w' where run: "write_runtime_config (paths_in ''/d'') demo_enrollment ''me'' ''/bin/herdr'' 2222 ?w = (r, w')"
    by (rule prod.exhaust)
  have "state_ready ''/d'' (vis (fs ?w))" using demo_state_ready by simp
  moreover have "hist w' = hist w' @ hist ?w" by (simp add: demo_state_dir_def)
  moreover have "vis (fs ?w) [''x''] = None" by code_simp
  moreover have "elems ''/d'' = [''d'']" by code_simp
  ultimately show ?thesis
    using config_crash [OF _ run _ disjI2 [OF refl], of "hist w'" "[''x'']"] unfolding run by (simp only: Let_def snd_conv) auto
qed


section \<open>The tunnel\<close>

lemma replace_from_skip:
  "old \<noteq> [] \<Longrightarrow> hd old \<notin> set x \<Longrightarrow> replace_from 0 old new (x @ s) = x @ replace_from 0 old new s"
  by (induction x) (auto simp: neq_Nil_conv)

lemma replace_all_no_head: "old \<noteq> [] \<Longrightarrow> hd old \<notin> set x \<Longrightarrow> replace_all old new x = x"
  using replace_from_skip [of old x new "[]"] by (simp add: replace_all_def)

lemma itoa_no_percent: "CHR ''%'' \<notin> set (itoa i)"
proof -
  have "CHR ''%'' \<notin> set (nat_str n)" for n
    using nat_str_digits [of "CHR ''%''" n] by (auto simp: is_digit_def byte_def)
  then show ?thesis by (simp add: itoa_def)
qed

lemma state_path_chars:
  assumes "state_dir_ok d" "plain n"
  shows "set (path_join [d, n]) \<subseteq> {SLASH} \<union> set d \<union> set n"
proof -
  have c: "canonical (path_join [d, n])" and e: "elems (path_join [d, n]) = elems d @ [n]"
    using state_path assms by (auto simp: state_dir_ok_def)
  have "\<Union> (set ` set (elems d)) \<subseteq> set d"
    using split_on_parts_subset [of _ SLASH d] by (fastforce simp: elems_def)
  moreover have "path_join [d, n] = render True (elems d @ [n])" using canonical_elems [OF c] e by simp
  ultimately show ?thesis
    using set_join_subset [of "[SLASH]" "elems d @ [n]"] by (fastforce simp: render_def)
qed

definition forwarding :: "enrollment \<Rightarrow> string \<Rightarrow> string" where
  "forwarding e target = ''127.0.0.1:'' @ itoa (port e) @ '':127.0.0.1:'' @ target"

lemma tunnel_target_chars:
  assumes "validate_enrollment e = Inr u"
  shows "CHR ''%'' \<notin> set (tunnel_user e @ ''@'' @ tunnel_host e)" "hd (tunnel_user e @ ''@'' @ tunnel_host e) \<noteq> CHR ''-''"
proof -
  have "full_match user_re (tunnel_user e)" "valid_host (tunnel_host e)"
    using assms by (auto simp: validate_enrollment_def)
  from user_chars [OF this(1)] valid_host_chars [OF this(2)]
  show "CHR ''%'' \<notin> set (tunnel_user e @ ''@'' @ tunnel_host e)" "hd (tunnel_user e @ ''@'' @ tunnel_host e) \<noteq> CHR ''-''"
    by (auto simp: list_all_iff ip_char_def)
qed

text \<open>
  For a validated enrollment and a state directory without a percent sign, filling in the local
  port changes one argument only: the remote forwarding, which binds the enrolled port to the callback
  \<open>sshd\<close> on loopback addresses at both ends.  The destination comes last, after \<open>--\<close>, and is no option.
\<close>

theorem tunnel_arguments:
  assumes "validate_enrollment e = Inr u" "state_dir_ok d" "CHR ''%'' \<notin> set d"
  shows "tunnel_args_for_port (paths_in d) e lport
      = map (\<lambda>x. if x = forwarding e ''%LOCAL_PORT%'' then forwarding e (itoa lport) else x) (tunnel_args (paths_in d) e)
    \<and> (''-R'', forwarding e (itoa lport)) \<in> set (zip (tunnel_args_for_port (paths_in d) e lport) (tl (tunnel_args_for_port (paths_in d) e lport)))
    \<and> (\<exists>as. tunnel_args_for_port (paths_in d) e lport = as @ [''--'', tunnel_user e @ ''@'' @ tunnel_host e])
    \<and> hd (tunnel_user e @ ''@'' @ tunnel_host e) \<noteq> CHR ''-''"
proof -
  let ?r = "replace_all ''%LOCAL_PORT%'' (itoa lport)"
  have key: "CHR ''%'' \<notin> set (path_join [d, n])" if "plain n" "CHR ''%'' \<notin> set n" for n
    using state_path_chars [OF assms(2) that(1)] that(2) assms(3) by auto
  have paths: "CHR ''%'' \<notin> set (p_tunnel_key (paths_in d))" "CHR ''%'' \<notin> set (p_known_hosts (paths_in d))"
    by (simp_all add: paths_in_def plain_def key)
  have id: "?r x = x" if "CHR ''%'' \<notin> set x" for x
    using that by (intro replace_all_no_head) auto
  have "?r (''127.0.0.1:'' @ itoa (port e) @ '':127.0.0.1:'' @ ''%LOCAL_PORT%'') = forwarding e (itoa lport)"
    using replace_from_skip [of "''%LOCAL_PORT%''" "''127.0.0.1:'' @ itoa (port e) @ '':127.0.0.1:''" "itoa lport" "''%LOCAL_PORT%''"]
      itoa_no_percent [of "port e"] by (simp add: replace_all_def forwarding_def)
  then have fwd: "?r (forwarding e ''%LOCAL_PORT%'') = forwarding e (itoa lport)" by (simp add: forwarding_def)
  have each: "\<forall>x \<in> set (tunnel_args (paths_in d) e). x = forwarding e ''%LOCAL_PORT%'' \<or> CHR ''%'' \<notin> set x"
    using paths tunnel_target_chars(1) [OF assms(1)] itoa_no_percent
    by (simp add: tunnel_args_def forwarding_def dev_null_def)
  have all: "tunnel_args_for_port (paths_in d) e lport
      = map (\<lambda>x. if x = forwarding e ''%LOCAL_PORT%'' then forwarding e (itoa lport) else x) (tunnel_args (paths_in d) e)"
    using each id fwd by (auto simp: tunnel_args_for_port_def)
  obtain as bs where args: "tunnel_args (paths_in d) e = as @ [''-R'', forwarding e ''%LOCAL_PORT%'', ''--'', tunnel_user e @ ''@'' @ tunnel_host e]"
    by (simp add: tunnel_args_def forwarding_def)
  have "CHR ''%'' \<in> set (forwarding e ''%LOCAL_PORT%'')" by (simp add: forwarding_def)
  then have ne: "forwarding e ''%LOCAL_PORT%'' \<noteq> tunnel_user e @ ''@'' @ tunnel_host e"
      "forwarding e ''%LOCAL_PORT%'' \<noteq> ''-R''" "forwarding e ''%LOCAL_PORT%'' \<noteq> ''--''"
    using tunnel_target_chars(1) [OF assms(1)] by auto
  let ?f = "\<lambda>x. if x = forwarding e ''%LOCAL_PORT%'' then forwarding e (itoa lport) else x"
  have split: "tunnel_args_for_port (paths_in d) e lport
      = map ?f as @ [''-R'', forwarding e (itoa lport), ''--'', tunnel_user e @ ''@'' @ tunnel_host e]"
    unfolding all args using ne by auto
  have pair: "(x, y) \<in> set (zip (zs @ x # y # s) (tl (zs @ x # y # s)))" for x y :: string and zs s
  proof (induction zs)
    case (Cons a zs)
    then show ?case by (cases zs) auto
  qed simp
  from split have last: "tunnel_args_for_port (paths_in d) e lport
      = (map ?f as @ [''-R'', forwarding e (itoa lport)]) @ [''--'', tunnel_user e @ ''@'' @ tunnel_host e]" by simp
  have "(''-R'', forwarding e (itoa lport)) \<in> set (zip (tunnel_args_for_port (paths_in d) e lport)
      (tl (tunnel_args_for_port (paths_in d) e lport)))"
    unfolding split by (rule pair)
  then show ?thesis
    using all last tunnel_target_chars(2) [OF assms(1)] by blast
qed

theorem tunnel_arguments_witness:
  "\<exists>as. tunnel_args_for_port (paths_in ''/d'') demo_enrollment 2222 = as @ [''--'', ''tunnel@gw.example'']"
proof -
  have d: "tunnel_user demo_enrollment @ ''@'' @ tunnel_host demo_enrollment = ''tunnel@gw.example''" by code_simp
  have "state_dir_ok ''/d''" "CHR ''%'' \<notin> set ''/d''" by code_simp+
  from tunnel_arguments [OF demo_enrollment_ok this, of 2222] show ?thesis unfolding d by blast
qed

text \<open>
  With a percent sign the port is also filled into the directory's name: a state directory whose name
  contains the placeholder is accepted, but the tunnel is given the path of another key.
\<close>

theorem tunnel_rewrites_directory:
  "state_dir_ok ''/h/%LOCAL_PORT%''
    \<and> p_tunnel_key (paths_in ''/h/%LOCAL_PORT%'') = ''/h/%LOCAL_PORT%/tunnel_ed25519''
    \<and> ''IdentityFile=/h/2222/tunnel_ed25519'' \<in> set (tunnel_args_for_port (paths_in ''/h/%LOCAL_PORT%'') e 2222)"
proof -
  have "state_dir_ok ''/h/%LOCAL_PORT%''" "p_tunnel_key (paths_in ''/h/%LOCAL_PORT%'') = ''/h/%LOCAL_PORT%/tunnel_ed25519''"
    "replace_all ''%LOCAL_PORT%'' (itoa 2222) ''IdentityFile=/h/%LOCAL_PORT%/tunnel_ed25519''
       = ''IdentityFile=/h/2222/tunnel_ed25519''" by code_simp+
  then show ?thesis by (simp add: tunnel_args_for_port_def tunnel_args_def)
qed

end
