(* ===== verification/Progress.thy ===== *)
theory Progress
  imports Main
begin

text \<open>
  What it means that a state machine with choices comes to an end, and the interface by which a component
  shows it: an invariant under which a step is always possible, and a gauge that every step lowers.
\<close>

text \<open>The goal has been reached, or a step is possible and after each of them it is inevitable.\<close>

inductive inevitable :: "('s \<Rightarrow> 's \<Rightarrow> bool) \<Rightarrow> ('s \<Rightarrow> bool) \<Rightarrow> 's \<Rightarrow> bool" for step goal where
  reached: "goal s \<Longrightarrow> inevitable step goal s"
| onward: "step s t \<Longrightarrow> (\<And>s'. step s s' \<Longrightarrow> inevitable step goal s') \<Longrightarrow> inevitable step goal s"

locale winding_down =
  fixes step :: "'s \<Rightarrow> 's \<Rightarrow> bool" and goal :: "'s \<Rightarrow> bool" and holds :: "'s \<Rightarrow> bool" and gauge :: "'s \<Rightarrow> nat"
  assumes moves: "holds s \<Longrightarrow> \<not> goal s \<Longrightarrow> \<exists>s'. step s s'"
    and closer: "holds s \<Longrightarrow> step s s' \<Longrightarrow> holds s' \<and> gauge s' < gauge s"
begin

lemma comes_to_goal: "holds s \<Longrightarrow> inevitable step goal s"
proof (induction s rule: measure_induct_rule [of gauge])
  case (less s)
  show ?case
  proof (cases "goal s")
    case False
    then obtain t where "step s t" using moves less.prems by blast
    then show ?thesis using closer [OF less.prems] less.IH by (blast intro: onward)
  qed (rule reached)
qed

lemma steps_bounded: "(step ^^ n) s s' \<Longrightarrow> holds s \<Longrightarrow> holds s' \<and> n + gauge s' \<le> gauge s"
proof (induction n arbitrary: s')
  case (Suc n)
  then obtain u where u: "(step ^^ n) s u" "step u s'" by auto
  with Suc have "holds u" "n + gauge u \<le> gauge s" by auto
  with closer [OF this(1) u(2)] show ?case by simp
qed simp

lemma ends_within: "holds s \<Longrightarrow> gauge s \<le> k \<Longrightarrow> inevitable step goal s \<and> (\<forall>n s'. (step ^^ n) s s' \<longrightarrow> n \<le> k)"
  using comes_to_goal steps_bounded by fastforce

end

end
