(* ===== verification/SuperviseProps.thy ===== *)
theory SuperviseProps
  imports SuperviseFacts ConfigProps Progress
begin

text \<open>
  The properties of the supervisor: no process outlives its invocation by accident, a reused Herdr
  server is never stopped by the interactive command, the number of \<open>sshd\<close> attempts and the back-off
  are bounded, and once its context is over every invocation ends.
\<close>

section \<open>Who is left running\<close>

text \<open>
  C6. When an invocation has returned, on whatever schedule, every process it started and gave up is
  dead, \<open>sshd\<close>, the TUI and the tunnel are dead, and the tunnel goroutine is not running.  Only an
  interactive invocation whose TUI had been started leaves a server it spawned alive, as it should.
\<close>

theorem no_process_left:
  assumes "reachable rnd m ex r s" "s_pc s = Returned res"
  shows "(\<forall>p \<in> set (s_gone s). \<not> c_alive p) \<and> down (s_sshd s) \<and> down (s_tui s) \<and> s_ssh s = None
    \<and> s_tun s \<in> {Off, Finished}
    \<and> (\<not> down (s_server s) \<longrightarrow> m = Interactive \<and> s_spawned s \<and> s_tui s \<noteq> None)"
  using reachable_inv [OF assms(1)] assms(2) by (auto simp: sup_inv_def)

text \<open>
  Ownership decides cleanup: an interactive or tunnel invocation that reuses a running server, or
  uses none, never asks Herdr to stop its session; and no invocation does so twice.
\<close>

theorem reused_server_untouched:
  assumes "reachable rnd m ex r s"
  shows "(m \<noteq> Service \<and> \<not> s_spawned s \<longrightarrow> s_stops s = 0) \<and> s_stops s \<le> 1"
  using reachable_inv [OF assms] by (cases "s_pc s") (auto simp: sup_inv_def)

section \<open>Bounds\<close>

text \<open>
  At most five \<open>sshd\<close> processes are started, and whenever an interactive invocation is attached,
  \<open>sshd\<close> and the tunnel goroutine have been started.
\<close>

theorem sshd_attempts_bounded:
  assumes "reachable rnd m ex r s"
  shows "s_starts s \<le> 5 \<and> (s_pc s = Attached \<longrightarrow> s_sshd s \<noteq> None \<and> s_tun s \<noteq> Off)"
  using reachable_inv [OF assms] by (cases "s_pc s") (auto simp: sup_inv_def max_sshd_def)

definition base_seconds :: "nat \<Rightarrow> int" where
  "base_seconds n = [1, 2, 4, 8, 16, 30] ! min n 5"

lemma upto_five: "n < 5 \<Longrightarrow> n \<in> {0, 1, 2, 3, 4 :: nat}"
  by auto

lemma backoff_capped: "\<not> n < 5 \<Longrightarrow> backoff rnd n = word_of_int (30 * 10 ^ 9)"
  by (cases "n = 5") (simp_all add: backoff_def second_def)

lemma backoff_jittered:
  "n < 5 \<Longrightarrow> backoff rnd n = word_of_int (base_seconds n * 10 ^ 9 + rnd (base_seconds n * 200000000 + 1))"
  by (drule upto_five) (auto simp: backoff_def second_def base_seconds_def)

lemma sint_of_int64: "0 \<le> x \<Longrightarrow> x < 2 ^ 63 \<Longrightarrow> sint (word_of_int x :: 64 word) = x"
  by (simp add: sint_sbintrunc' signed_take_bit_int_eq_self)

text \<open>
  C24. The back-off of the tunnel: for a random source that stays below its argument, the delay before
  attempt \<open>n\<close> is at least 1, 2, 4, 8, 16 and then 30 seconds, at most a fifth longer, never more than
  30 seconds, and the 64-bit arithmetic does not overflow.
\<close>

theorem backoff_bounds:
  assumes "\<And>k. 0 < k \<Longrightarrow> 0 \<le> rnd k \<and> rnd k < k"
  shows "base_seconds n * 10 ^ 9 \<le> sint (backoff rnd n)
    \<and> sint (backoff rnd n) \<le> 30 * 10 ^ 9
    \<and> 5 * sint (backoff rnd n) \<le> 6 * (base_seconds n * 10 ^ 9)"
proof (cases "n < 5")
  case False
  then have "base_seconds n = 30" by (simp add: base_seconds_def)
  with False show ?thesis by (simp add: backoff_capped sint_of_int64)
next
  case True
  have b: "base_seconds n \<in> {1, 2, 4, 8, 16}"
    using upto_five [OF True] by (auto simp: base_seconds_def)
  let ?j = "rnd (base_seconds n * 200000000 + 1)"
  have j: "0 \<le> ?j" "?j \<le> base_seconds n * 200000000"
    using assms [of "base_seconds n * 200000000 + 1"] b by auto
  then have "sint (backoff rnd n) = base_seconds n * 10 ^ 9 + ?j"
    unfolding backoff_jittered [OF True] using b by (intro sint_of_int64) auto
  with b j show ?thesis by auto
qed

theorem backoff_bounds_witness:
  "2 * 10 ^ 9 \<le> sint (backoff (\<lambda>k. k div 2) 1) \<and> sint (backoff (\<lambda>k. k div 2) 1) \<le> 30 * 10 ^ 9"
  using backoff_bounds [of "\<lambda>k. k div 2" 1] by (simp add: base_seconds_def)

section \<open>The end\<close>

text \<open>
  A live step moves one of the two goroutines; the others are polls that found nothing new.
\<close>

definition live_step :: "(int \<Rightarrow> int) \<Rightarrow> mode \<Rightarrow> prog \<Rightarrow> runtime_cfg \<Rightarrow> sup \<Rightarrow> sup \<Rightarrow> bool" where
  "live_step rnd m ex r s s' \<longleftrightarrow> prog_step rnd m ex r s s' \<and> (s_pc s' \<noteq> s_pc s \<or> s_tun s' \<noteq> s_tun s)"

definition has_returned :: "sup \<Rightarrow> bool" where
  "has_returned s \<longleftrightarrow> (\<exists>res. s_pc s = Returned res)"

fun main_left :: "main_pc \<Rightarrow> nat" where
  "main_left Begin = 23"
| "main_left WaitReady = 22"
| "main_left (Launching i l) = 10 + 2 * (max_sshd - i)"
| "main_left (Probing i) = 9 + 2 * (max_sshd - i)"
| "main_left InfraUp = 4"
| "main_left Attached = 3"
| "main_left (Leaving res c) = 2"
| "main_left (Returned res) = 0"
| "main_left _ = 1"

fun tunnel_left :: "tunnel_pc \<Rightarrow> nat" where
  "tunnel_left Sleeping = 2"
| "tunnel_left Connected = 2"
| "tunnel_left Checking = 1"
| "tunnel_left Lost = 1"
| "tunnel_left _ = 0"

definition steps_left :: "sup \<Rightarrow> nat" where
  "steps_left s = 4 * main_left (s_pc s) + tunnel_left (s_tun s)"

lemma cleaned_keeps: "cleaned_up ex r s s' \<Longrightarrow> s_tun s' = s_tun s \<and> s_ctx s' = s_ctx s"
  by (drule cleaned_upD) auto

lemma stopped_keeps: "herdr_stopped ex r s s' \<Longrightarrow> s_tun s' = s_tun s \<and> s_ctx s' = s_ctx s"
  by (drule herdr_stoppedD) auto

definition nearer :: "sup \<Rightarrow> sup \<Rightarrow> bool" where
  "nearer s s' \<longleftrightarrow> s_ctx s' \<and> (steps_left s' < steps_left s \<or> s_pc s' = s_pc s \<and> s_tun s' = s_tun s)"

lemma ensure_nearer: "ensure_step m ex r s s' \<Longrightarrow> sup_inv m s \<Longrightarrow> s_ctx s \<Longrightarrow> nearer s s'"
  by (induction rule: ensure_step.induct) (auto simp: nearer_def steps_left_def max_sshd_def)

lemma ready_nearer: "ready_step m ex r s s' \<Longrightarrow> sup_inv m s \<Longrightarrow> s_ctx s \<Longrightarrow> nearer s s'"
  by (induction rule: ready_step.induct) (auto simp: nearer_def steps_left_def max_sshd_def)

lemma sshd_nearer: "sshd_step r s s' \<Longrightarrow> sup_inv m s \<Longrightarrow> s_ctx s \<Longrightarrow> nearer s s'"
  by (induction rule: sshd_step.induct)
    (auto simp: nearer_def steps_left_def max_sshd_def sup_inv_def infra_started_def)

lemma served_nearer: "served_step ex r s s' \<Longrightarrow> sup_inv m s \<Longrightarrow> s_ctx s \<Longrightarrow> nearer s s'"
  by (induction rule: served_step.induct) (auto simp: nearer_def steps_left_def dest!: stopped_keeps)

lemma adopted_nearer: "adopted_step ex r s s' \<Longrightarrow> sup_inv m s \<Longrightarrow> s_ctx s \<Longrightarrow> nearer s s'"
  by (induction rule: adopted_step.induct) (auto simp: nearer_def steps_left_def dest!: stopped_keeps)

lemma tunnel_nearer: "tunnel_step rnd r s s' \<Longrightarrow> sup_inv m s \<Longrightarrow> s_ctx s \<Longrightarrow> nearer s s'"
  by (induction rule: tunnel_step.induct) (auto simp: nearer_def steps_left_def run_over_def)

lemma interactive_nearer: "interactive_step ex r s s' \<Longrightarrow> sup_inv m s \<Longrightarrow> s_ctx s \<Longrightarrow> nearer s s'"
  by (induction rule: interactive_step.induct)
    (auto simp: nearer_def steps_left_def max_sshd_def dest!: cleaned_keeps split: if_splits)

lemma bare_nearer: "bare_step s s' \<Longrightarrow> sup_inv m s \<Longrightarrow> s_ctx s \<Longrightarrow> nearer s s'"
  by (induction rule: bare_step.induct) (auto simp: nearer_def steps_left_def max_sshd_def)

lemmas nearer_steps = ensure_nearer ready_nearer sshd_nearer interactive_nearer bare_nearer served_nearer
  adopted_nearer tunnel_nearer

lemma prog_nearer: "prog_step rnd m ex r s s' \<Longrightarrow> sup_inv m s \<Longrightarrow> s_ctx s \<Longrightarrow> nearer s s'"
  unfolding prog_step_def by (auto intro: nearer_steps)

text \<open>In no state that is not the last one does the program have to wait for anything but the context.\<close>

lemma query_cases:
  obtains e w' where "query_herdr ex h env w = (Inl e, w')" | st w' where "query_herdr ex h env w = (Inr st, w')"
  by (cases "query_herdr ex h env w"; cases "fst (query_herdr ex h env w)") auto

lemma stop_possible: "\<exists>s'. herdr_stopped ex r s s'"
proof -
  obtain res w' where run: "stop_herdr_session ex (r_herdr r) (r_env r) [PollDeadline] (s_world s) = (res, w')"
    by (rule prod.exhaust)
  moreover have "res \<noteq> Inr None"
    using stop_returns [of PollDeadline "[PollDeadline]" ex "r_herdr r" "r_env r" "s_world s"] run by simp
  ultimately show ?thesis unfolding herdr_stopped_def by blast
qed

lemma cleanup_possible: "\<exists>s'. cleaned_up ex r s s'"
  using stop_possible [of ex r s] unfolding cleaned_up_def by auto

definition main_moves :: "mode \<Rightarrow> prog \<Rightarrow> runtime_cfg \<Rightarrow> sup \<Rightarrow> bool" where
  "main_moves m ex r s \<longleftrightarrow> (\<exists>s'. (\<forall>rnd. prog_step rnd m ex r s s') \<and> s_pc s' \<noteq> s_pc s)"

lemma main_movesI:
  "ensure_step m ex r s s' \<Longrightarrow> s_pc s' \<noteq> s_pc s \<Longrightarrow> main_moves m ex r s"
  "ready_step m ex r s s' \<Longrightarrow> s_pc s' \<noteq> s_pc s \<Longrightarrow> main_moves m ex r s"
  "sshd_step r s s' \<Longrightarrow> s_pc s' \<noteq> s_pc s \<Longrightarrow> main_moves m ex r s"
  "interactive_step ex r s s' \<Longrightarrow> s_pc s' \<noteq> s_pc s \<Longrightarrow> m = Interactive \<Longrightarrow> main_moves m ex r s"
  "bare_step s s' \<Longrightarrow> s_pc s' \<noteq> s_pc s \<Longrightarrow> m = TunnelOnly \<Longrightarrow> main_moves m ex r s"
  "served_step ex r s s' \<Longrightarrow> s_pc s' \<noteq> s_pc s \<Longrightarrow> m = Service \<Longrightarrow> main_moves m ex r s"
  "adopted_step ex r s s' \<Longrightarrow> s_pc s' \<noteq> s_pc s \<Longrightarrow> m = Service \<Longrightarrow> main_moves m ex r s"
  unfolding main_moves_def prog_step_def by blast+

lemma begin_moves:
  assumes "s_pc s = Begin"
  shows "main_moves m ex r s"
proof (cases "m = TunnelOnly")
  case True
  with assms show ?thesis by (intro main_movesI(5) [OF bare_begin]) auto
next
  case m: False
  show ?thesis
  proof (cases rule: query_cases [of ex "r_herdr r" "r_env r" "s_world s"])
    case (1 e w')
    with assms m show ?thesis by (intro main_movesI(1) [OF query_failed]) auto
  next
    case (2 st w')
    show ?thesis
    proof (cases "healthy st")
      case True
      with assms m 2 show ?thesis by (intro main_movesI(1) [OF reuse]) auto
    next
      case False
      with assms m 2 show ?thesis
        by (cases "hs_running st")
          (auto intro: main_movesI(1) [OF incompatible] main_movesI(1) [OF server_start_failed])
    qed
  qed
qed

lemma wait_moves:
  assumes "s_pc s = WaitReady" "s_ctx s"
  shows "main_moves m ex r s"
proof -
  obtain out err w' where run: "exec ex (herdr_probe r) (s_world s) = (Inr (out, err), w')"
    by (cases "ex (herdr_probe r) (s_world s)") (auto simp: exec_def)
  show ?thesis
  proof (cases "says_running out")
    case True
    with assms run show ?thesis by (intro main_movesI(2) [OF server_ready]) auto
  next
    case False
    with assms run show ?thesis
      by (intro main_movesI(2) [OF server_wait_failed, of _ _ _ _ _ _ ErrContext]) auto
  qed
qed

lemma main_can_move:
  assumes inv: "sup_inv m s" and ctx: "s_ctx s" and pc: "\<And>res. s_pc s \<noteq> Returned res"
    and drained: "\<And>res c. s_pc s = Draining res c \<Longrightarrow> s_tun s = Finished"
  shows "main_moves m ex r s"
proof (cases "s_pc s")
  case Begin
  then show ?thesis by (rule begin_moves)
next
  case WaitReady
  with ctx show ?thesis by (intro wait_moves)
next
  case (Launching i l)
  show ?thesis
  proof (cases "i < max_sshd")
    case True
    with Launching show ?thesis by (intro main_movesI(3) [OF no_port]) auto
  next
    case False
    with inv Launching obtain e where "s_pc s = Launching i (Some e)"
      by (auto simp: sup_inv_def max_sshd_def)
    with False show ?thesis by (intro main_movesI(3) [OF sshd_exhausted]) auto
  qed
next
  case (Probing i)
  with ctx show ?thesis by (intro main_movesI(3) [OF sshd_cancelled]) (auto simp: run_over_def)
next
  case (InfraFailed e)
  with inv have "m \<noteq> Service" by (simp add: sup_inv_def)
  moreover obtain s1 where "cleaned_up ex r (s\<lparr>s_run := True\<rparr>) s1" using cleanup_possible by blast
  ultimately show ?thesis using InfraFailed
    by (cases m) (auto intro: main_movesI(4) [OF infra_failed] main_movesI(5) [OF bare_failed])
next
  case InfraUp
  with inv show ?thesis
    by (cases m) (auto simp: sup_inv_def intro: main_movesI(4) [OF tui_started] main_movesI(5) [OF bare_up])
next
  case Attached
  with inv have "m \<noteq> Service" by (simp add: sup_inv_def)
  with Attached ctx show ?thesis
    by (cases m) (auto intro: main_movesI(4) [OF ctx_over] main_movesI(5) [OF bare_ctx_over])
next
  case (Leaving res c)
  with inv have "m \<noteq> Service" by (simp add: sup_inv_def)
  with Leaving show ?thesis
    by (cases m) (auto intro: main_movesI(4) [OF infra_stopped] main_movesI(5) [OF bare_stopped])
next
  case (Draining res c)
  with inv have "m \<noteq> Service" by (simp add: sup_inv_def)
  moreover obtain s1 where "if c then cleaned_up ex r s s1 else s1 = s"
    using cleanup_possible [of ex r s] by (cases c) auto
  ultimately show ?thesis using Draining drained
    by (cases m) (auto intro: main_movesI(4) [OF tunnel_drained] main_movesI(5) [OF bare_drained])
next
  case Serving
  with inv have "m = Service" by (simp add: sup_inv_def)
  moreover obtain s1 where "herdr_stopped ex r s s1" using stop_possible by blast
  ultimately show ?thesis using Serving ctx by (intro main_movesI(6) [OF served_ctx]) auto
next
  case Adopted
  with inv have "m = Service" by (simp add: sup_inv_def)
  moreover obtain s1 where "herdr_stopped ex r s s1" using stop_possible by blast
  ultimately show ?thesis using Adopted ctx by (intro main_movesI(7) [OF adopted_ctx]) auto
qed (use pc in auto)

lemma tunnel_movesI:
  "tunnel_step rnd r s s' \<Longrightarrow> s_tun s' \<noteq> s_tun s \<Longrightarrow> \<exists>s'. tunnel_step rnd r s s' \<and> s_tun s' \<noteq> s_tun s"
  by blast

lemma tunnel_can_move:
  assumes "sup_inv m s" "s_ctx s" "s_tun s \<notin> {Off, Finished}"
  shows "\<exists>s'. tunnel_step rnd r s s' \<and> s_tun s' \<noteq> s_tun s"
proof -
  have over: "run_over s" using assms(2) by (simp add: run_over_def)
  show ?thesis
  proof (cases "s_tun s")
    case Checking
    with over show ?thesis by (intro tunnel_movesI [OF halt]) auto
  next
    case Connected
    with over show ?thesis by (intro tunnel_movesI [OF cut_off]) auto
  next
    case Lost
    with over show ?thesis by (intro tunnel_movesI [OF give_up]) auto
  next
    case Sleeping
    with over show ?thesis by (intro tunnel_movesI [OF sleep_cut]) auto
  qed (use assms(3) in auto)
qed

lemma can_move:
  assumes inv: "sup_inv m s" and ctx: "s_ctx s" and pc: "\<And>res. s_pc s \<noteq> Returned res"
  shows "\<exists>s'. live_step rnd m ex r s s'"
proof (cases "s_tun s \<in> {Off, Finished}")
  case True
  have "s_tun s = Finished" if "s_pc s = Draining res c" for res c
    using that True inv by (auto simp: sup_inv_def)
  with main_can_move [OF inv ctx pc, of ex r] show ?thesis
    unfolding main_moves_def live_step_def by blast
next
  case False
  from tunnel_can_move [OF inv ctx this, of rnd r] show ?thesis
    unfolding live_step_def prog_step_def by blast
qed

text \<open>The end of the context winds an invocation down.\<close>

interpretation shutdown: winding_down "live_step rnd m ex r" has_returned "\<lambda>s. sup_inv m s \<and> s_ctx s" steps_left
  for rnd m ex r
proof
  fix s
  assume "sup_inv m s \<and> s_ctx s" "\<not> has_returned s"
  then show "\<exists>s'. live_step rnd m ex r s s'" using can_move by (auto simp: has_returned_def)
next
  fix s s'
  assume "sup_inv m s \<and> s_ctx s" "live_step rnd m ex r s s'"
  then show "(sup_inv m s' \<and> s_ctx s') \<and> steps_left s' < steps_left s"
    using prog_nearer [of rnd m ex r s s'] prog_inv [of rnd m ex r s s'] by (auto simp: live_step_def nearer_def)
qed

text \<open>
  C10. Once its context is over (an interrupt, or the service manager), every invocation returns: from
  every reachable state a step that moves one of the goroutines is always possible, whatever the
  processes and Herdr do, and every sequence of such steps ends, after at most 95, in a return.
\<close>

theorem shutdown_inevitable:
  assumes "reachable rnd m ex r s" "s_ctx s"
  shows "inevitable (live_step rnd m ex r) has_returned s \<and> (\<forall>n s'. (live_step rnd m ex r ^^ n) s s' \<longrightarrow> n \<le> 95)"
proof (rule shutdown.ends_within)
  show "sup_inv m s \<and> s_ctx s" using reachable_inv [OF assms(1)] assms(2) by simp
  have "main_left (s_pc s) \<le> 23" by (cases "s_pc s") (auto simp: max_sshd_def)
  moreover have "tunnel_left (s_tun s) \<le> 2" by (cases "s_tun s") auto
  ultimately show "steps_left s \<le> 95" by (simp add: steps_left_def)
qed


section \<open>A session\<close>

text \<open>
  A Herdr that is not running when first asked and runs from then on, and an interactive session with
  it: the server is started, \<open>sshd\<close> and the TUI come up, the user leaves the TUI.
\<close>

definition demo_session_prog :: prog where
  "demo_session_prog c w = ((demo_status (hist w \<noteq> []), None), fs w)"

definition demo_runtime :: runtime_cfg where
  "demo_runtime = \<lparr>r_paths = paths_in ''/d'', r_enrollment = demo_enrollment, r_user = ''me'',
     r_herdr = ''/bin/herdr'', r_ssh = ''/bin/ssh'', r_sshd = ''/bin/sshd'', r_env = []\<rparr>"

lemma reach_steps:
  "reachable rnd m ex r s \<Longrightarrow> ensure_step m ex r s s' \<Longrightarrow> reachable rnd m ex r s'"
  "reachable rnd m ex r s \<Longrightarrow> ready_step m ex r s s' \<Longrightarrow> reachable rnd m ex r s'"
  "reachable rnd m ex r s \<Longrightarrow> sshd_step r s s' \<Longrightarrow> reachable rnd m ex r s'"
  "reachable rnd Interactive ex r s \<Longrightarrow> interactive_step ex r s s' \<Longrightarrow> reachable rnd Interactive ex r s'"
  "reachable rnd m ex r s \<Longrightarrow> tunnel_step rnd r s s' \<Longrightarrow> reachable rnd m ex r s'"
  by (rule reachable.prog, assumption, simp add: prog_step_def)+

lemma demo_launching:
  "\<exists>s hs. reachable rnd Interactive demo_session_prog demo_runtime s \<and> s_pc s = Launching 0 None
     \<and> s_world s = demo_state_dir\<lparr>hist := hs\<rparr> \<and> s_spawned s \<and> s_tun s = Off \<and> \<not> s_ctx s
     \<and> s_server s = Some (start_child True)"
proof -
  let ?R = "reachable rnd Interactive demo_session_prog demo_runtime"
  let ?w0 = "demo_state_dir" and ?w1 = "demo_state_dir\<lparr>hist := [fs demo_state_dir]\<rparr>"
  have parse: "parse_status (demo_status False) = Some zero_status" by code_simp
  have q: "query_herdr demo_session_prog (r_herdr demo_runtime) (r_env demo_runtime) (s_world (start_state ?w0)) = (Inr zero_status, ?w1)"
    using parse by (simp add: query_herdr_eq demo_session_prog_def demo_state_dir_def start_state_def)
  have "\<exists>s. ?R s \<and> s_pc s = WaitReady \<and> s_world s = ?w1 \<and> s_tun s = Off \<and> \<not> s_ctx s \<and> s_server s = Some (start_child True)"
    by (intro exI conjI, rule reach_steps(1) [OF reachable.start [of _ _ _ _ ?w0] server_started [OF _ _ q]])
      (simp_all add: start_state_def zero_status_def)
  then obtain s1 where s1: "?R s1" "s_pc s1 = WaitReady" "s_world s1 = ?w1" "s_tun s1 = Off" "\<not> s_ctx s1"
      "s_server s1 = Some (start_child True)" by blast
  have p: "exec demo_session_prog (herdr_probe demo_runtime) (s_world s1)
      = (Inr (demo_status True, None), demo_state_dir\<lparr>hist := [fs demo_state_dir, fs demo_state_dir]\<rparr>)"
    by (simp add: exec_def demo_session_prog_def s1)
  have run: "says_running (demo_status True)" by code_simp
  show ?thesis
    by (intro exI conjI, rule reach_steps(2) [OF s1(1) server_ready [OF s1(2) p run]]) (simp_all add: s1)
qed

lemma demo_attached:
  "\<exists>s. reachable rnd Interactive demo_session_prog demo_runtime s \<and> s_pc s = Attached
     \<and> s_tun s = Checking \<and> s_spawned s \<and> \<not> s_ctx s \<and> s_server s = Some (start_child True)
     \<and> s_tui s = Some (start_child False)"
proof -
  let ?R = "reachable rnd Interactive demo_session_prog demo_runtime"
  obtain s hs where s: "?R s" "s_pc s = Launching 0 None" "s_world s = demo_state_dir\<lparr>hist := hs\<rparr>"
      "s_spawned s" "s_tun s = Off" "\<not> s_ctx s" "s_server s = Some (start_child True)"
    using demo_launching by blast
  obtain w' where config: "write_runtime_config (r_paths demo_runtime) (r_enrollment demo_runtime)
      (r_user demo_runtime) (r_herdr demo_runtime) 2222 (s_world s) = (Inr (), w')"
    using demo_config_runs [of hs] s(3)
    by (cases "write_runtime_config (paths_in ''/d'') demo_enrollment ''me'' ''/bin/herdr'' 2222 (demo_state_dir\<lparr>hist := hs\<rparr>)")
      (auto simp: demo_runtime_def is_ok_iff)
  have "\<exists>s. ?R s \<and> s_pc s = Probing 0 \<and> s_spawned s \<and> s_tun s = Off \<and> \<not> s_ctx s \<and> s_server s = Some (start_child True)"
    by (intro exI conjI, rule reach_steps(3) [OF s(1) sshd_started [OF s(2) _ config]])
      (simp_all add: s max_sshd_def)
  then obtain s2 where s2: "?R s2" "s_pc s2 = Probing 0" "s_spawned s2" "s_tun s2 = Off" "\<not> s_ctx s2"
      "s_server s2 = Some (start_child True)" by blast
  have "\<exists>s. ?R s \<and> s_pc s = InfraUp \<and> s_spawned s \<and> s_tun s = Checking \<and> \<not> s_ctx s \<and> s_server s = Some (start_child True)"
    by (intro exI conjI, rule reach_steps(3) [OF s2(1) sshd_answers [OF s2(2)]]) (simp_all add: s2 infra_started_def)
  then obtain s3 where s3: "?R s3" "s_pc s3 = InfraUp" "s_spawned s3" "s_tun s3 = Checking" "\<not> s_ctx s3"
      "s_server s3 = Some (start_child True)" by blast
  show ?thesis
    by (intro exI conjI, rule reach_steps(4) [OF s3(1) tui_started [OF s3(2)]]) (simp_all add: s3)
qed

lemma demo_left:
  "\<exists>s. reachable rnd Interactive demo_session_prog demo_runtime s \<and> s_pc s = Returned None
     \<and> s_server s = Some (start_child True)"
proof -
  let ?R = "reachable rnd Interactive demo_session_prog demo_runtime"
  obtain s where s: "?R s" "s_pc s = Attached" "s_tun s = Checking" "s_spawned s"
      "s_server s = Some (start_child True)" "s_tui s = Some (start_child False)"
    using demo_attached by blast
  have "\<exists>s. ?R s \<and> s_pc s = Attached \<and> s_tun s = Checking \<and> s_server s = Some (start_child True)
      \<and> s_tui s = Some (died (start_child False))"
    by (intro exI conjI, rule reachable.env [OF s(1) tui_dies]) (simp_all add: s)
  then obtain s1 where s1: "?R s1" "s_pc s1 = Attached" "s_tun s1 = Checking"
      "s_server s1 = Some (start_child True)" "s_tui s1 = Some (died (start_child False))" by blast
  have "\<exists>s. ?R s \<and> s_pc s = Leaving None False \<and> s_tun s = Checking \<and> s_server s = Some (start_child True)"
    by (intro exI conjI, rule reach_steps(4) [OF s1(1) tui_exited [OF s1(2) s1(5), where ?x = None]])
      (simp_all add: s1 died_def)
  then obtain s2 where s2: "?R s2" "s_pc s2 = Leaving None False" "s_tun s2 = Checking"
      "s_server s2 = Some (start_child True)" by blast
  have "\<exists>s. ?R s \<and> s_pc s = Draining None False \<and> s_tun s = Checking \<and> s_server s = Some (start_child True) \<and> run_over s"
    by (intro exI conjI, rule reach_steps(4) [OF s2(1) infra_stopped [OF s2(2)]]) (simp_all add: s2 run_over_def)
  then obtain s3 where s3: "?R s3" "s_pc s3 = Draining None False" "s_tun s3 = Checking"
      "s_server s3 = Some (start_child True)" "run_over s3" by blast
  have "\<exists>s. ?R s \<and> s_pc s = Draining None False \<and> s_tun s = Finished \<and> s_server s = Some (start_child True)"
    by (intro exI conjI, rule reach_steps(5) [OF s3(1) halt [OF s3(3,5)]]) (simp_all add: s3)
  then obtain s4 where s4: "?R s4" "s_pc s4 = Draining None False" "s_tun s4 = Finished"
      "s_server s4 = Some (start_child True)" by blast
  show ?thesis
    by (intro exI conjI, rule reach_steps(4) [OF s4(1) tunnel_drained [OF s4(2,3), where ?s1.0 = s4]]) (simp_all add: s4)
qed

theorem no_process_left_witness:
  "\<exists>s. reachable (\<lambda>k. 0) Interactive demo_session_prog demo_runtime s \<and> s_pc s = Returned None
     \<and> s_server s = Some (start_child True) \<and> down (s_sshd s) \<and> down (s_tui s) \<and> s_ssh s = None"
  using demo_left [of "\<lambda>k. 0"] no_process_left by blast

theorem reused_server_untouched_witness:
  "\<exists>s. reachable (\<lambda>k. 0) Interactive demo_session_prog demo_runtime s \<and> s_pc s = Attached \<and> s_stops s \<le> 1"
  using demo_attached [of "\<lambda>k. 0"] reused_server_untouched by blast

theorem sshd_attempts_bounded_witness:
  "\<exists>s. reachable (\<lambda>k. 0) Interactive demo_session_prog demo_runtime s \<and> s_pc s = Attached
     \<and> s_sshd s \<noteq> None \<and> s_starts s \<le> 5"
  using demo_attached [of "\<lambda>k. 0"] sshd_attempts_bounded by blast

theorem shutdown_inevitable_witness:
  "\<exists>s. s_pc s = Attached \<and> s_ctx s \<and> inevitable (live_step (\<lambda>k. 0) Interactive demo_session_prog demo_runtime) has_returned s"
proof -
  obtain s where s: "reachable (\<lambda>k. 0) Interactive demo_session_prog demo_runtime s" "s_pc s = Attached"
    using demo_attached by blast
  from shutdown_inevitable [OF reachable.env [OF s(1) cancel]] s(2) show ?thesis
    by (intro exI [of _ "s\<lparr>s_ctx := True\<rparr>"]) simp
qed

end
