(* ===== verification/Url.thy ===== *)
theory Url
  imports Enrollment GoJson
begin

text \<open>
  \<open>CanonicalEndpoint\<close> of \<open>internal/client/state.go\<close>, on the part of Go's \<open>net/url\<close> that it uses
  (\<open>url.Parse\<close>, \<open>Hostname\<close>, \<open>String\<close>; Go 1.22, the version the module names).  \<open>strings.ToLower\<close>
  maps the letters of an ASCII string; on other strings it consults the Unicode tables, which are the
  parameter \<open>lu\<close>.  A URL with user information is parsed no further than that it has some, because
  \<open>CanonicalEndpoint\<close> rejects both a valid and an invalid one with the same error.
\<close>

section \<open>Escapes\<close>

datatype encoding = EncPath | EncHost | EncZone | EncQuery | EncFragment

definition sub_delim :: "char \<Rightarrow> bool" where
  "sub_delim c \<longleftrightarrow> c \<in> set (''!$&()*+,;=:[]<>'' @ [SQUOTE, DQUOTE])"

definition should_escape :: "encoding \<Rightarrow> char \<Rightarrow> bool" where
  "should_escape m c =
     (if is_alnum c then False
      else if (m = EncHost \<or> m = EncZone) \<and> sub_delim c then False
      else if c \<in> set ''-_.~'' then False
      else if c \<in> set ''$&+,:;=@'' \<or> c = SLASH \<or> c = CHR ''?''
        then (case m of EncPath \<Rightarrow> c = CHR ''?'' | EncFragment \<Rightarrow> False | _ \<Rightarrow> True)
      else \<not> (m = EncFragment \<and> c \<in> set ''!()*''))"

definition upper_hex :: "nat \<Rightarrow> char" where
  "upper_hex n = ''0123456789ABCDEF'' ! n"

definition percent :: "char \<Rightarrow> string" where
  "percent c = [CHR ''%'', upper_hex (byte c div 16), upper_hex (byte c mod 16)]"

definition escape :: "encoding \<Rightarrow> string \<Rightarrow> string" where
  "escape m s =
     concat (map (\<lambda>c. if should_escape m c then (if m = EncQuery \<and> c = CHR '' '' then ''+'' else percent c) else [c]) s)"

fun unescape :: "encoding \<Rightarrow> string \<Rightarrow> string option" where
  "unescape m [] = Some []"
| "unescape m (c # s) =
     (if c = CHR ''%'' then
        (case s of
           a # b # r \<Rightarrow>
             (case (hex_value a, hex_value b) of
                (Some x, Some y) \<Rightarrow>
                  if m = EncHost \<and> x < 8 \<and> [a, b] \<noteq> ''25'' then None
                  else if m = EncZone \<and> [a, b] \<noteq> ''25'' \<and> chr (16 * x + y) \<noteq> CHR '' '' \<and> should_escape EncHost (chr (16 * x + y)) then None
                  else map_option ((#) (chr (16 * x + y))) (unescape m r)
              | _ \<Rightarrow> None)
         | _ \<Rightarrow> None)
      else if (m = EncHost \<or> m = EncZone) \<and> byte c < 128 \<and> should_escape m c then None
      else map_option ((#) (if m = EncQuery \<and> c = CHR ''+'' then CHR '' '' else c)) (unescape m s))"

section \<open>Parsing\<close>

record url =
  u_scheme :: string
  u_opaque :: string
  u_user :: "string option"
  u_host :: string
  u_path :: string
  u_raw_path :: string
  u_omit_host :: bool
  u_force_query :: bool
  u_raw_query :: string
  u_fragment :: string
  u_raw_fragment :: string

definition zero_url :: url where
  "zero_url = \<lparr>u_scheme = [], u_opaque = [], u_user = None, u_host = [], u_path = [], u_raw_path = [],
     u_omit_host = False, u_force_query = False, u_raw_query = [], u_fragment = [], u_raw_fragment = []\<rparr>"

text \<open>\<open>getScheme\<close>: \<open>None\<close> is the error, an empty scheme means there is none.\<close>

fun get_scheme :: "string \<Rightarrow> string \<Rightarrow> string \<Rightarrow> (string \<times> string) option" where
  "get_scheme raw seen [] = Some ([], raw)"
| "get_scheme raw seen (c # s) =
     (if is_alpha c then get_scheme raw (seen @ [c]) s
      else if is_digit c \<or> c \<in> set ''+-.'' then (if seen = [] then Some ([], raw) else get_scheme raw (seen @ [c]) s)
      else if c = CHR '':'' then (if seen = [] then None else Some (seen, s))
      else Some ([], raw))"

definition valid_optional_port :: "string \<Rightarrow> bool" where
  "valid_optional_port s \<longleftrightarrow> s = [] \<or> (hd s = CHR '':'' \<and> list_all is_digit (tl s))"

text \<open>Before and after the last occurrence of a character.\<close>

definition cut_last :: "char \<Rightarrow> string \<Rightarrow> (string \<times> string) option" where
  "cut_last c s = (case cut c (rev s) of (a, b, f) \<Rightarrow> if f then Some (rev b, rev a) else None)"

fun find_sub :: "string \<Rightarrow> string \<Rightarrow> nat option" where
  "find_sub pat [] = (if pat = [] then Some 0 else None)"
| "find_sub pat (c # s) = (if prefix pat (c # s) then Some 0 else map_option Suc (find_sub pat s))"

definition append_opt :: "string option \<Rightarrow> string option \<Rightarrow> string option" where
  "append_opt a b = (case (a, b) of (Some x, Some y) \<Rightarrow> Some (x @ y) | _ \<Rightarrow> None)"

definition parse_host :: "string \<Rightarrow> string option" where
  "parse_host h =
     (if prefix ''['' h then
        (case cut_last (CHR '']'') h of
           None \<Rightarrow> None
         | Some (a, b) \<Rightarrow>
             if \<not> valid_optional_port b then None
             else
               (case find_sub ''%25'' a of
                  Some z \<Rightarrow>
                    append_opt (unescape EncHost (take z a))
                      (append_opt (unescape EncZone (drop z a)) (unescape EncHost (CHR '']'' # b)))
                | None \<Rightarrow> unescape EncHost h))
      else
        (case cut_last (CHR '':'') h of
           Some (a, b) \<Rightarrow> if \<not> valid_optional_port (CHR '':'' # b) then None else unescape EncHost h
         | None \<Rightarrow> unescape EncHost h))"

definition to_lower :: "(string \<Rightarrow> string) \<Rightarrow> string \<Rightarrow> string" where
  "to_lower lu s = (if list_all is_ascii s then map (\<lambda>c. if is_upper c then chr (byte c + 32) else c) s else lu s)"

definition has_ctl :: "string \<Rightarrow> bool" where
  "has_ctl s = list_ex (\<lambda>c. byte c < 32 \<or> byte c = 127) s"

definition set_path :: "string \<Rightarrow> url \<Rightarrow> url option" where
  "set_path p u =
     (case unescape EncPath p of
        None \<Rightarrow> None
      | Some q \<Rightarrow> Some (u\<lparr>u_path := q, u_raw_path := (if p = escape EncPath q then [] else p)\<rparr>))"

definition with_authority :: "string \<Rightarrow> url \<Rightarrow> url option" where
  "with_authority rest u =
     (let (authority, path, slash) = cut SLASH rest;
          p = (if slash then SLASH # path else []) in
      case cut_last (CHR ''@'') authority of
        None \<Rightarrow> (case parse_host authority of None \<Rightarrow> None | Some h \<Rightarrow> set_path p (u\<lparr>u_host := h\<rparr>))
      | Some (user, a) \<Rightarrow> (case parse_host a of None \<Rightarrow> None | Some h \<Rightarrow> set_path p (u\<lparr>u_host := h, u_user := Some user\<rparr>)))"

definition parse_rest :: "string \<Rightarrow> url \<Rightarrow> url option" where
  "parse_rest rest0 u0 =
     (let force = suffix ''?'' rest0 \<and> length (filter (\<lambda>c. c = CHR ''?'') rest0) = 1;
          (before, query, _) = cut (CHR ''?'') rest0;
          rest = (if force then butlast rest0 else before);
          u = u0\<lparr>u_force_query := force, u_raw_query := (if force then [] else query)\<rparr> in
      if \<not> prefix [SLASH] rest \<and> u_scheme u \<noteq> [] then Some (u\<lparr>u_opaque := rest\<rparr>)
      else if \<not> prefix [SLASH] rest \<and> CHR '':'' \<in> set (fst (cut SLASH rest)) then None
      else if (u_scheme u \<noteq> [] \<or> \<not> prefix [SLASH, SLASH, SLASH] rest) \<and> prefix [SLASH, SLASH] rest
        then with_authority (drop 2 rest) u
      else set_path rest (u\<lparr>u_omit_host := (u_scheme u \<noteq> [] \<and> prefix [SLASH] rest)\<rparr>))"

definition parse_url :: "(string \<Rightarrow> string) \<Rightarrow> string \<Rightarrow> url option" where
  "parse_url lu raw0 =
     (let (raw, frag, _) = cut (CHR ''#'') raw0;
          set_frag = (\<lambda>u. if frag = [] then Some u
             else (case unescape EncFragment frag of
                 None \<Rightarrow> None
               | Some f \<Rightarrow> Some (u\<lparr>u_fragment := f, u_raw_fragment := (if frag = escape EncFragment f then [] else frag)\<rparr>))) in
      if has_ctl raw then None
      else if raw = ''*'' then set_frag (zero_url\<lparr>u_path := ''*''\<rparr>)
      else
        (case get_scheme raw [] raw of
           None \<Rightarrow> None
         | Some (scheme, rest) \<Rightarrow>
             (case parse_rest rest (zero_url\<lparr>u_scheme := to_lower lu scheme\<rparr>) of
                None \<Rightarrow> None
              | Some u \<Rightarrow> set_frag u)))"

section \<open>Reading and printing a parsed URL\<close>

definition hostname :: "string \<Rightarrow> string" where
  "hostname hp =
     (let h = (case cut_last (CHR '':'') hp of
                 Some (a, b) \<Rightarrow> if valid_optional_port (CHR '':'' # b) then a else hp
               | None \<Rightarrow> hp) in
      if prefix ''['' h \<and> suffix '']'' h then butlast (tl h) else h)"

definition valid_encoded :: "encoding \<Rightarrow> string \<Rightarrow> bool" where
  "valid_encoded m s \<longleftrightarrow>
     list_all (\<lambda>c. c \<in> set (''!$&()*+,;=:@[]%'' @ [SQUOTE]) \<or> \<not> should_escape m c) s"

definition escaped_path :: "url \<Rightarrow> string" where
  "escaped_path u =
     (if u_raw_path u \<noteq> [] \<and> valid_encoded EncPath (u_raw_path u) \<and> unescape EncPath (u_raw_path u) = Some (u_path u)
      then u_raw_path u
      else if u_path u = ''*'' then ''*''
      else escape EncPath (u_path u))"

definition escaped_fragment :: "url \<Rightarrow> string" where
  "escaped_fragment u =
     (if u_raw_fragment u \<noteq> [] \<and> valid_encoded EncFragment (u_raw_fragment u)
         \<and> unescape EncFragment (u_raw_fragment u) = Some (u_fragment u)
      then u_raw_fragment u
      else escape EncFragment (u_fragment u))"

text \<open>\<open>URL.String\<close> where there is a scheme and a host, and no opaque part and no user.\<close>

definition url_string :: "url \<Rightarrow> string" where
  "url_string u =
     (let path = escaped_path u in
      u_scheme u @ ''://'' @ escape EncHost (u_host u)
        @ (if path \<noteq> [] \<and> \<not> prefix [SLASH] path then [SLASH] else []) @ path
        @ (if u_force_query u \<or> u_raw_query u \<noteq> [] then CHR ''?'' # u_raw_query u else [])
        @ (if u_fragment u \<noteq> [] then CHR ''#'' # escaped_fragment u else []))"

definition is_loopback :: "nat list \<Rightarrow> bool" where
  "is_loopback ip =
     (if take 12 ip = replicate 10 0 @ [255, 255] then ip ! 12 = 127
      else ip = replicate 15 0 @ [1])"

definition loopback_host :: "string \<Rightarrow> bool" where
  "loopback_host h \<longleftrightarrow> h = ''localhost'' \<or> (case parse_ip h of None \<Rightarrow> False | Some ip \<Rightarrow> is_loopback ip)"

section \<open>The endpoint\<close>

definition canonical_endpoint :: "(string \<Rightarrow> string) \<Rightarrow> string \<Rightarrow> goerr + string" where
  "canonical_endpoint lu raw =
     (case parse_url lu (trim_space raw) of
        None \<Rightarrow> Inl (errorf ''endpoint must be an absolute URL without credentials, query, or fragment'' [])
      | Some u0 \<Rightarrow>
          if u_host u0 = [] \<or> u_user u0 \<noteq> None \<or> u_raw_query u0 \<noteq> [] \<or> u_fragment u0 \<noteq> [] \<or> u_opaque u0 \<noteq> []
          then Inl (errorf ''endpoint must be an absolute URL without credentials, query, or fragment'' [])
          else
            (let u = u0\<lparr>u_scheme := to_lower lu (u_scheme u0), u_host := to_lower lu (u_host u0)\<rparr> in
             if u_scheme u \<noteq> ''https'' \<and> (u_scheme u \<noteq> ''http'' \<or> \<not> loopback_host (hostname (u_host u)))
             then Inl (errorf ''endpoint must use HTTPS (HTTP is allowed only for loopback testing)'' [])
             else Inr (url_string (u\<lparr>u_path := trim_right_char SLASH (u_path u),
                                     u_raw_path := trim_right_char SLASH (u_raw_path u)\<rparr>))))"

definition validate_endpoint :: "(string \<Rightarrow> string) \<Rightarrow> string \<Rightarrow> goerr + unit" where
  "validate_endpoint lu raw = bind_ok (canonical_endpoint lu raw) (\<lambda>_. Inr ())"

section \<open>What an accepted endpoint looks like\<close>

text \<open>The characters that end an authority or a path.\<close>

definition url_delim :: "char \<Rightarrow> bool" where
  "url_delim c \<longleftrightarrow> c = CHR ''?'' \<or> c = CHR ''#''"

lemma upper_hex_alnum: "n < 16 \<Longrightarrow> is_alnum (upper_hex n)"
  by (simp add: upper_hex_def char_class_defs less_Suc_eq numeral_eq_Suc) (elim disjE; simp)

lemma percent_plain: "c \<in> set (percent d) \<Longrightarrow> c = CHR ''%'' \<or> is_alnum c"
proof -
  have "byte d div 16 < 16" using byte_less [of d] by (simp add: less_mult_imp_div_less)
  then show "c \<in> set (percent d) \<Longrightarrow> ?thesis" by (auto simp: percent_def upper_hex_alnum)
qed

lemma plain_not_delim:
  "c = CHR ''%'' \<or> is_alnum c \<Longrightarrow> \<not> url_delim c \<and> c \<noteq> SLASH \<and> c \<noteq> CHR ''@''"
  by (auto simp: url_delim_def char_class_defs)

lemma escape_chars:
  assumes "c \<in> set (escape m s)" "m \<noteq> EncQuery"
  shows "c = CHR ''%'' \<or> is_alnum c \<or> \<not> should_escape m c"
  using assms percent_plain by (fastforce simp: escape_def split: if_splits)

lemma should_escape_delim: "m \<noteq> EncFragment \<Longrightarrow> url_delim c \<Longrightarrow> should_escape m c"
proof -
  assume "m \<noteq> EncFragment"
  then have "should_escape m (CHR ''?'')" "should_escape m (CHR ''#'')" by (cases m; simp add: should_escape_def sub_delim_def char_class_defs)+
  then show "url_delim c \<Longrightarrow> ?thesis" by (auto simp: url_delim_def)
qed

lemma host_escapes: "c = SLASH \<or> c = CHR ''@'' \<Longrightarrow> should_escape EncHost c"
proof -
  have "should_escape EncHost SLASH" "should_escape EncHost (CHR ''@'')" by code_simp+
  then show "c = SLASH \<or> c = CHR ''@'' \<Longrightarrow> ?thesis" by blast
qed

lemma escape_host_chars:
  "c \<in> set (escape EncHost h) \<Longrightarrow> \<not> url_delim c \<and> c \<noteq> SLASH \<and> c \<noteq> CHR ''@''"
  using escape_chars [of c EncHost h] plain_not_delim [of c] should_escape_delim [of EncHost c] host_escapes [of c]
  by blast

lemma escape_path_chars: "c \<in> set (escape EncPath p) \<Longrightarrow> \<not> url_delim c"
  using escape_chars [of c EncPath p] plain_not_delim [of c] should_escape_delim [of EncPath c] by blast

lemma valid_encoded_chars:
  assumes "valid_encoded EncPath p" "c \<in> set p"
  shows "\<not> url_delim c"
proof
  assume d: "url_delim c"
  then have "c \<notin> set (''!$&()*+,;=:@[]%'' @ [SQUOTE])" by (auto simp: url_delim_def)
  moreover have "c \<in> set (''!$&()*+,;=:@[]%'' @ [SQUOTE]) \<or> \<not> should_escape EncPath c"
    using assms unfolding valid_encoded_def list_all_iff by blast
  ultimately show False using should_escape_delim [OF _ d, of EncPath] by blast
qed

lemma escaped_path_chars:
  assumes "c \<in> set (escaped_path u)"
  shows "\<not> url_delim c"
proof -
  consider "escaped_path u = u_raw_path u" "valid_encoded EncPath (u_raw_path u)" | "escaped_path u = ''*''"
    | "escaped_path u = escape EncPath (u_path u)"
    unfolding escaped_path_def by meson
  then show ?thesis
  proof cases
    case 1
    with assms valid_encoded_chars show ?thesis by simp
  next
    case 2
    with assms show ?thesis by (simp add: url_delim_def)
  next
    case 3
    with assms escape_path_chars show ?thesis by simp
  qed
qed

lemma escape_nonempty: "h \<noteq> [] \<Longrightarrow> escape m h \<noteq> []"
  by (cases h) (auto simp: escape_def percent_def)

text \<open>
  C25. An accepted endpoint is printed as a scheme, an authority, a path and at most a final question
  mark.  The scheme is \<open>https\<close>, or \<open>http\<close> towards the loopback only.  The authority is there and carries no
  user information, and neither it nor the path has a delimiter in it, so that nothing of the authority
  can be read as a path and nothing of the path as a query or fragment.
\<close>

theorem endpoint_secure:
  assumes "canonical_endpoint lu raw = Inr out" and "\<And>s. s \<noteq> [] \<Longrightarrow> lu s \<noteq> []"
  shows "\<exists>scheme h path q. out = scheme @ ''://'' @ escape EncHost h @ path @ q
    \<and> (scheme = ''https'' \<or> scheme = ''http'' \<and> loopback_host (hostname h))
    \<and> escape EncHost h \<noteq> [] \<and> (\<forall>c \<in> set (escape EncHost h). c \<noteq> SLASH \<and> c \<noteq> CHR ''@'' \<and> \<not> url_delim c)
    \<and> (path = [] \<or> hd path = SLASH) \<and> (\<forall>c \<in> set path. \<not> url_delim c)
    \<and> (q = [] \<or> q = ''?'')"
proof -
  from assms(1) obtain u0 where p: "parse_url lu (trim_space raw) = Some u0" "u_host u0 \<noteq> []"
    by (auto simp: canonical_endpoint_def split: option.splits if_splits)
  let ?h = "to_lower lu (u_host u0)" and ?s = "to_lower lu (u_scheme u0)"
  let ?u = "u0\<lparr>u_scheme := ?s, u_host := ?h, u_path := trim_right_char SLASH (u_path u0),
    u_raw_path := trim_right_char SLASH (u_raw_path u0)\<rparr>"
  let ?p = "escaped_path ?u"
  let ?path = "(if ?p \<noteq> [] \<and> \<not> prefix [SLASH] ?p then [SLASH] else []) @ ?p"
  have "?h \<noteq> []" using p(2) assms(2) by (simp add: to_lower_def)
  then have hne: "escape EncHost ?h \<noteq> []" by (rule escape_nonempty)
  have out: "out = ?s @ ''://'' @ escape EncHost ?h @ ?path @ (if u_force_query u0 then ''?'' else [])"
    and sch: "?s = ''https'' \<or> ?s = ''http'' \<and> loopback_host (hostname ?h)"
    using assms(1) p by (auto simp: canonical_endpoint_def url_string_def Let_def split: if_splits)
  have "?path = [] \<or> hd ?path = SLASH" by (cases ?p) auto
  moreover have "\<forall>c \<in> set ?path. \<not> url_delim c"
    using escaped_path_chars [of _ ?u] by (auto simp: url_delim_def)
  moreover have "(if u_force_query u0 then ''?'' else []) = [] \<or> (if u_force_query u0 then ''?'' else []) = ''?''" by simp
  moreover have "\<forall>c \<in> set (escape EncHost ?h). c \<noteq> SLASH \<and> c \<noteq> CHR ''@'' \<and> \<not> url_delim c"
    using escape_host_chars by blast
  ultimately show ?thesis
    using out sch hne by (intro exI conjI)
qed

theorem endpoint_secure_witness:
  "(\<exists>scheme h path q. ''http://127.0.0.1:8080/api'' = scheme @ ''://'' @ escape EncHost h @ path @ q
    \<and> (scheme = ''https'' \<or> scheme = ''http'' \<and> loopback_host (hostname h))
    \<and> escape EncHost h \<noteq> [] \<and> (\<forall>c \<in> set (escape EncHost h). c \<noteq> SLASH \<and> c \<noteq> CHR ''@'' \<and> \<not> url_delim c)
    \<and> (path = [] \<or> hd path = SLASH) \<and> (\<forall>c \<in> set path. \<not> url_delim c)
    \<and> (q = [] \<or> q = ''?''))
   \<and> \<not> is_ok (canonical_endpoint id ''http://fleet.example'') \<and> \<not> is_ok (canonical_endpoint id ''https://me@fleet.example'')"
proof (intro conjI)
  have "canonical_endpoint id '' http://127.0.0.1:8080/api/ '' = Inr ''http://127.0.0.1:8080/api''" by code_simp
  then show "\<exists>scheme h path q. ''http://127.0.0.1:8080/api'' = scheme @ ''://'' @ escape EncHost h @ path @ q
    \<and> (scheme = ''https'' \<or> scheme = ''http'' \<and> loopback_host (hostname h))
    \<and> escape EncHost h \<noteq> [] \<and> (\<forall>c \<in> set (escape EncHost h). c \<noteq> SLASH \<and> c \<noteq> CHR ''@'' \<and> \<not> url_delim c)
    \<and> (path = [] \<or> hd path = SLASH) \<and> (\<forall>c \<in> set path. \<not> url_delim c)
    \<and> (q = [] \<or> q = ''?'')"
    by (rule endpoint_secure) simp
  show "\<not> is_ok (canonical_endpoint id ''http://fleet.example'')" "\<not> is_ok (canonical_endpoint id ''https://me@fleet.example'')"
    by code_simp+
qed

text \<open>
  A finding: a URL that ends in a bare question mark has an empty query, so it is accepted, and
  \<open>String\<close> prints the question mark again.  The paths that the client then appends become its query.
\<close>

lemma bare_query_accepted: "canonical_endpoint lu ''https://fleet.example?'' = Inr ''https://fleet.example?''"
  by code_simp

lemma bare_query_misparsed:
  "map_option u_path (parse_url lu ''https://fleet.example?/fleet'') = Some []"
  "map_option u_raw_query (parse_url lu ''https://fleet.example?/fleet'') = Some ''/fleet''"
  by code_simp+

end
