(* ===== verification/State.thy ===== *)
theory State
  imports Url JsonFacts StatePaths
begin

text \<open>
  The saved state of \<open>internal/client/state.go\<close>: \<open>SaveState\<close> and \<open>LoadState\<close>, with the JSON shape of
  \<open>State\<close>, \<open>Enrollment\<close> and \<open>RuntimeDescriptor\<close>, which the enrollment response shares.  The texts of
  the errors of \<open>encoding/json\<close> are one constant.
\<close>

section \<open>Numbers\<close>

text \<open>Storing a number into an \<open>int\<close>, 64 bits wide: \<open>strconv.ParseInt\<close> on the literal.\<close>

definition parse_int :: "string \<Rightarrow> int option" where
  "parse_int x =
     (let neg = prefix ''-'' x; d = (if neg then tl x else x); n = int (read_nat d); v = (if neg then - n else n) in
      if d \<noteq> [] \<and> list_all is_digit d \<and> - (2 ^ 63) \<le> v \<and> v < 2 ^ 63 then Some v else None)"

definition into_int :: "int \<Rightarrow> json \<Rightarrow> int option" where
  "into_int old j = (case j of JNum x \<Rightarrow> parse_int x | JNull \<Rightarrow> Some old | _ \<Rightarrow> None)"

section \<open>The shape\<close>

record state =
  st_version :: int
  st_endpoint :: string
  st_ssh_user :: string
  st_enrollment :: enrollment

definition state_version :: int where
  "state_version = 1"

definition zero_enrollment :: enrollment where
  "zero_enrollment =
     \<lparr>node_id = [], host = [], port = 0, tunnel_host = [], tunnel_ssh_port = 0, tunnel_user = [],
      remote_session = [], controller_public_key = [], runtime = \<lparr>schema = 0, desc_installable = []\<rparr>,
      tunnel_host_key = []\<rparr>"

definition zero_state :: state where
  "zero_state = \<lparr>st_version = 0, st_endpoint = [], st_ssh_user = [], st_enrollment = zero_enrollment\<rparr>"

definition runtime_fields :: "string list" where
  "runtime_fields = [''schema'', ''installable'']"

definition put_runtime :: "string \<Rightarrow> json \<Rightarrow> runtime_descriptor \<Rightarrow> runtime_descriptor option" where
  "put_runtime f j r =
     (if f = ''schema'' then map_option (\<lambda>x. r\<lparr>schema := x\<rparr>) (into_int (schema r) j)
      else map_option (\<lambda>x. r\<lparr>desc_installable := x\<rparr>) (into_string (desc_installable r) j))"

definition enrollment_fields :: "string list" where
  "enrollment_fields = [''node_id'', ''host'', ''port'', ''tunnel_host'', ''tunnel_ssh_port'', ''tunnel_user'',
     ''remote_session'', ''controller_public_key'', ''runtime'', ''tunnel_host_key'']"

definition put_enrollment :: "string \<Rightarrow> json \<Rightarrow> enrollment \<Rightarrow> enrollment option" where
  "put_enrollment f j e =
     (if f = ''node_id'' then map_option (\<lambda>x. e\<lparr>node_id := x\<rparr>) (into_string (node_id e) j)
      else if f = ''host'' then map_option (\<lambda>x. e\<lparr>host := x\<rparr>) (into_string (host e) j)
      else if f = ''port'' then map_option (\<lambda>x. e\<lparr>port := x\<rparr>) (into_int (port e) j)
      else if f = ''tunnel_host'' then map_option (\<lambda>x. e\<lparr>tunnel_host := x\<rparr>) (into_string (tunnel_host e) j)
      else if f = ''tunnel_ssh_port'' then map_option (\<lambda>x. e\<lparr>tunnel_ssh_port := x\<rparr>) (into_int (tunnel_ssh_port e) j)
      else if f = ''tunnel_user'' then map_option (\<lambda>x. e\<lparr>tunnel_user := x\<rparr>) (into_string (tunnel_user e) j)
      else if f = ''remote_session'' then map_option (\<lambda>x. e\<lparr>remote_session := x\<rparr>) (into_string (remote_session e) j)
      else if f = ''controller_public_key''
        then map_option (\<lambda>x. e\<lparr>controller_public_key := x\<rparr>) (into_string (controller_public_key e) j)
      else if f = ''runtime''
        then map_option (\<lambda>x. e\<lparr>runtime := x\<rparr>) (into_struct True runtime_fields put_runtime (runtime e) j)
      else map_option (\<lambda>x. e\<lparr>tunnel_host_key := x\<rparr>) (into_string (tunnel_host_key e) j))"

definition state_fields :: "string list" where
  "state_fields = [''version'', ''endpoint'', ''ssh_user'', ''enrollment'']"

definition put_state :: "string \<Rightarrow> json \<Rightarrow> state \<Rightarrow> state option" where
  "put_state f j s =
     (if f = ''version'' then map_option (\<lambda>x. s\<lparr>st_version := x\<rparr>) (into_int (st_version s) j)
      else if f = ''endpoint'' then map_option (\<lambda>x. s\<lparr>st_endpoint := x\<rparr>) (into_string (st_endpoint s) j)
      else if f = ''ssh_user'' then map_option (\<lambda>x. s\<lparr>st_ssh_user := x\<rparr>) (into_string (st_ssh_user s) j)
      else map_option (\<lambda>x. s\<lparr>st_enrollment := x\<rparr>)
             (into_struct True enrollment_fields put_enrollment (st_enrollment s) j))"

definition json_error :: goerr where
  "json_error = errorf ''json'' []"

text \<open>One value of a known shape, and nothing but white space after it: \<open>Decode\<close> twice.\<close>

definition decode_only :: "string \<Rightarrow> (json \<Rightarrow> 'r option) \<Rightarrow> string \<Rightarrow> goerr + 'r" where
  "decode_only what into b =
     (case json_decode b of
        None \<Rightarrow> Inl (wrapf (''decode '' @ what @ '': %w'') [] json_error)
      | Some (j, r) \<Rightarrow>
          (case into j of
             None \<Rightarrow> Inl (wrapf (''decode '' @ what @ '': %w'') [] json_error)
           | Some x \<Rightarrow>
               if skip_ws r \<noteq> [] then Inl (errorf (''decode '' @ what @ '': trailing JSON data'') []) else Inr x))"

definition decode_state :: "string \<Rightarrow> goerr + state" where
  "decode_state = decode_only ''state'' (into_struct True state_fields put_state zero_state)"

definition json_runtime :: "runtime_descriptor \<Rightarrow> json" where
  "json_runtime r = JObj [(''schema'', JNum (itoa (schema r))), (''installable'', JStr (desc_installable r))]"

definition json_enrollment :: "enrollment \<Rightarrow> json" where
  "json_enrollment e =
     JObj ([(''node_id'', JStr (node_id e)), (''host'', JStr (host e)), (''port'', JNum (itoa (port e))),
            (''tunnel_host'', JStr (tunnel_host e)), (''tunnel_ssh_port'', JNum (itoa (tunnel_ssh_port e))),
            (''tunnel_user'', JStr (tunnel_user e)), (''remote_session'', JStr (remote_session e)),
            (''controller_public_key'', JStr (controller_public_key e)), (''runtime'', json_runtime (runtime e))]
           @ (if tunnel_host_key e = [] then [] else [(''tunnel_host_key'', JStr (tunnel_host_key e))]))"

definition json_state :: "state \<Rightarrow> json" where
  "json_state s =
     JObj [(''version'', JNum (itoa (st_version s))), (''endpoint'', JStr (st_endpoint s)),
           (''ssh_user'', JStr (st_ssh_user s)), (''enrollment'', json_enrollment (st_enrollment s))]"

definition encode_state :: "state \<Rightarrow> string" where
  "encode_state s = json_indent 0 (json_state s) @ [LF]"

section \<open>Saving and loading\<close>

definition save_state :: "string \<Rightarrow> state \<Rightarrow> unit io" where
  "save_state path s = atomic_write path (encode_state (s\<lparr>st_version := state_version\<rparr>)) o600"

definition check_state :: "(string \<Rightarrow> string) \<Rightarrow> string \<Rightarrow> state \<Rightarrow> goerr + unit" where
  "check_state lu path s =
     (if st_version s \<noteq> state_version then Inl (errorf ''unsupported state version %d'' [itoa (st_version s)])
      else
        bind_ok (map_err (wrapf ''invalid saved endpoint: %w'' []) (validate_endpoint lu (st_endpoint s))) (\<lambda>_.
        bind_ok (guard (full_match user_re (st_ssh_user s)) (errorf ''invalid saved SSH user'' [])) (\<lambda>_.
        map_err (\<lambda>e.
            if errors_is e ErrNoRuntimeDescriptor
            then errorf ''saved enrollment predates the runtime descriptor contract; remove %s and re-run: familiar-fleet connect %s''
                   [path, st_endpoint s]
            else wrapf ''invalid saved enrollment: %w'' [] e)
          (validate_enrollment (st_enrollment s)))))"

text \<open>\<open>None\<close> is the \<open>nil\<close> state of a machine that has never been enrolled.\<close>

definition load_state :: "(string \<Rightarrow> string) \<Rightarrow> string \<Rightarrow> state option io" where
  "load_state lu path =
     seq (attempt (os_lstat path)) (\<lambda>st.
     case st of
       Inl e \<Rightarrow> if e = Errno ENOENT then ret None else fail e
     | Inr info \<Rightarrow>
         if fkind info \<noteq> KReg \<or> fperm info AND o077 \<noteq> 0
         then fail (errorf ''%s must be a regular file accessible only by its owner'' [path])
         else if fsize info > 1048576 then fail (errorf ''state file exceeds 1 MiB'' [])
         else
           seq (os_readfile path) (\<lambda>b.
           seq (lift (decode_state b)) (\<lambda>s.
           seq (lift (check_state lu path s)) (\<lambda>_.
           ret (Some s)))))"

section \<open>Decoding what was encoded\<close>

lemma nat_str_less10: "n < 10 \<Longrightarrow> nat_str n = [digit_char n]"
  by (subst nat_str.simps) simp

lemma nat_str_ge10: "\<not> n < 10 \<Longrightarrow> nat_str n = nat_str (n div 10) @ [digit_char (n mod 10)]"
  by (subst nat_str.simps) simp

lemma digit_char_zero: "d < 10 \<Longrightarrow> digit_char d = CHR ''0'' \<longleftrightarrow> d = 0"
  unfolding digit_char_def by (auto simp: less_Suc_eq numeral_eq_Suc)

lemma nat_str_no_leading_zero: "0 < n \<Longrightarrow> hd (nat_str n) \<noteq> CHR ''0''"
proof (induction n rule: nat_str.induct)
  case (1 n)
  then show ?case
    by (cases "n < 10") (simp_all add: nat_str_less10 digit_char_zero nat_str_ge10)
qed

lemma stops_no_digit: "stops (c # t) \<Longrightarrow> \<not> is_digit c"
  by (auto simp: stops_def char_class_defs)

lemma scan_digits_stop:
  assumes "list_all is_digit d" "d \<noteq> []" "stops t"
  shows "scan_digits (d @ t) = Some (d, t)"
proof -
  have "\<forall>c \<in> set d. is_digit c" using assms(1) by (simp add: list_all_iff)
  then have "takeWhile is_digit (d @ t) = d @ takeWhile is_digit t" "dropWhile is_digit (d @ t) = dropWhile is_digit t"
    by (simp_all add: takeWhile_append2)
  moreover have "takeWhile is_digit t = []" "dropWhile is_digit t = t"
    using assms(3) stops_no_digit by (cases t; simp)+
  ultimately show ?thesis using assms(2) by (simp add: scan_digits_def)
qed

lemma nat_str_cons: obtains c u where "nat_str n = c # u" "is_digit c"
  using nat_str_digits [of _ n] by (cases "nat_str n") auto

lemma scan_unsigned_nat: "stops t \<Longrightarrow> scan_unsigned (nat_str n @ t) = Some (nat_str n, t)"
proof -
  assume t: "stops t"
  have d: "list_all is_digit (nat_str n)" by (auto simp: list_all_iff nat_str_digits)
  have "scan_int (nat_str n @ t) = Some (nat_str n, t)"
  proof (cases "n = 0")
    case True
    then show ?thesis by (simp add: scan_int_def nat_str_less10 digit_char_def)
  next
    case False
    obtain c u where c: "nat_str n = c # u" using nat_str_nonempty [of n] by (cases "nat_str n") auto
    then have "c \<noteq> CHR ''0''" using nat_str_no_leading_zero [of n] False by simp
    then have "scan_int (nat_str n @ t) = scan_digits (nat_str n @ t)" by (simp add: scan_int_def c)
    then show ?thesis using scan_digits_stop [OF d nat_str_nonempty t] by simp
  qed
  moreover have "scan_frac t = Some ([], t)" "scan_exp t = Some ([], t)"
    using t by (auto simp: scan_frac_def scan_exp_def stops_def split: list.splits)
  ultimately show ?thesis by (simp add: scan_unsigned_def)
qed

lemma json_number_itoa [simp]: "json_number (itoa i)"
proof -
  have "scan_number (itoa i @ t) = Some (itoa i, t)" if t: "stops t" for t
  proof (cases "i < 0")
    case True
    then show ?thesis using scan_unsigned_nat [OF t] by (simp add: itoa_def scan_number_def prepend_def)
  next
    case False
    obtain c u where c: "nat_str (nat i) = c # u" "is_digit c" by (rule nat_str_cons)
    then have "c \<noteq> CHR ''-''" by (auto simp: char_class_defs)
    then show ?thesis using scan_unsigned_nat [OF t, of "nat i"] False c(1) by (simp add: itoa_def scan_number_def)
  qed
  moreover obtain c u where "nat_str (nat i) = c # u" "is_digit c" by (rule nat_str_cons)
  then have "\<exists>c y. itoa i = c # y \<and> (c = CHR ''-'' \<or> is_digit c)" by (simp add: itoa_def)
  ultimately show ?thesis by (simp add: json_number_def)
qed

lemma parse_int_itoa [simp]: "- (2 ^ 63) \<le> i \<Longrightarrow> i < 2 ^ 63 \<Longrightarrow> parse_int (itoa i) = Some i"
proof -
  assume i: "- (2 ^ 63) \<le> i" "i < 2 ^ 63"
  have d: "list_all is_digit (nat_str n)" for n by (auto simp: list_all_iff nat_str_digits)
  have "\<not> prefix ''-'' (nat_str n)" for n
    using nat_str_digits [of "CHR ''-''" n] by (cases "nat_str n") (auto simp: char_class_defs)
  with i d show ?thesis by (simp add: parse_int_def itoa_def Let_def) linarith
qed

definition utf8_enrollment :: "enrollment \<Rightarrow> bool" where
  "utf8_enrollment e \<longleftrightarrow> list_all valid_utf8 [node_id e, host e, tunnel_host e, tunnel_user e, remote_session e,
     controller_public_key e, desc_installable (runtime e), tunnel_host_key e]"

definition utf8_state :: "state \<Rightarrow> bool" where
  "utf8_state s \<longleftrightarrow> valid_utf8 (st_endpoint s) \<and> valid_utf8 (st_ssh_user s) \<and> utf8_enrollment (st_enrollment s)"

definition int64 :: "int \<Rightarrow> bool" where
  "int64 i \<longleftrightarrow> - (2 ^ 63) \<le> i \<and> i < 2 ^ 63"

definition ints_ok :: "enrollment \<Rightarrow> bool" where
  "ints_ok e \<longleftrightarrow> int64 (port e) \<and> int64 (tunnel_ssh_port e) \<and> int64 (schema (runtime e))"

lemma into_int_itoa [simp]: "int64 i \<Longrightarrow> into_int old (JNum (itoa i)) = Some i"
  by (simp add: into_int_def int64_def)

lemma put_field:
  "k \<in> set ks \<Longrightarrow> put_members b ks put ((k, j) # ms) r =
     (case put k j r of None \<Rightarrow> None | Some r' \<Rightarrow> put_members b ks put ms r')"
  by (simp add: field_of_def)

lemma into_runtime [simp]:
  "int64 (schema r) \<Longrightarrow> into_struct True runtime_fields put_runtime old (json_runtime r) = Some r"
  by (simp add: into_struct_def json_runtime_def runtime_fields_def put_field put_runtime_def into_string_def
      del: put_members.simps(2))

lemma into_object [simp]: "into_struct b ks put r (JObj ms) = put_members b ks put ms r"
  by (simp add: into_struct_def)

lemma put_enrollment_simps [simp]:
  "put_enrollment ''node_id'' (JStr x) e = Some (e\<lparr>node_id := x\<rparr>)"
  "put_enrollment ''host'' (JStr x) e = Some (e\<lparr>host := x\<rparr>)"
  "int64 i \<Longrightarrow> put_enrollment ''port'' (JNum (itoa i)) e = Some (e\<lparr>port := i\<rparr>)"
  "put_enrollment ''tunnel_host'' (JStr x) e = Some (e\<lparr>tunnel_host := x\<rparr>)"
  "int64 i \<Longrightarrow> put_enrollment ''tunnel_ssh_port'' (JNum (itoa i)) e = Some (e\<lparr>tunnel_ssh_port := i\<rparr>)"
  "put_enrollment ''tunnel_user'' (JStr x) e = Some (e\<lparr>tunnel_user := x\<rparr>)"
  "put_enrollment ''remote_session'' (JStr x) e = Some (e\<lparr>remote_session := x\<rparr>)"
  "put_enrollment ''controller_public_key'' (JStr x) e = Some (e\<lparr>controller_public_key := x\<rparr>)"
  "int64 (schema r) \<Longrightarrow> put_enrollment ''runtime'' (json_runtime r) e = Some (e\<lparr>runtime := r\<rparr>)"
  "put_enrollment ''tunnel_host_key'' (JStr x) e = Some (e\<lparr>tunnel_host_key := x\<rparr>)"
  by (simp_all add: put_enrollment_def into_string_def)

lemma into_enrollment [simp]:
  assumes "ints_ok e" "tunnel_host_key old = []"
  shows "into_struct True enrollment_fields put_enrollment old (json_enrollment e) = Some e"
  using assms
  by (cases "tunnel_host_key e = []")
    (simp_all add: json_enrollment_def enrollment_fields_def put_field ints_ok_def del: put_members.simps(2))

lemma put_state_simps [simp]:
  "int64 i \<Longrightarrow> put_state ''version'' (JNum (itoa i)) s = Some (s\<lparr>st_version := i\<rparr>)"
  "put_state ''endpoint'' (JStr x) s = Some (s\<lparr>st_endpoint := x\<rparr>)"
  "put_state ''ssh_user'' (JStr x) s = Some (s\<lparr>st_ssh_user := x\<rparr>)"
  "ints_ok e \<Longrightarrow> tunnel_host_key (st_enrollment s) = [] \<Longrightarrow>
     put_state ''enrollment'' (json_enrollment e) s = Some (s\<lparr>st_enrollment := e\<rparr>)"
  by (simp_all add: put_state_def into_string_def)

lemma into_state:
  assumes "ints_ok (st_enrollment s)" "int64 (st_version s)"
  shows "into_struct True state_fields put_state zero_state (json_state s) = Some s"
  using assms
  by (simp add: json_state_def state_fields_def put_field zero_state_def zero_enrollment_def del: put_members.simps(2))

lemma printable_state: "utf8_state s \<Longrightarrow> printable (json_state s)"
  by (simp add: utf8_state_def utf8_enrollment_def json_state_def json_enrollment_def json_runtime_def)
    (intro conjI; code_simp)

lemma json_decode_line: "printable j \<Longrightarrow> json_decode (json_indent l j @ [LF]) = Some (j, [LF])"
  using scan_indent(1) [of j l "length (json_indent l j @ [LF]) + 1" "[LF]"]
  by (simp add: json_decode_def stops_def)

lemma decode_encode_state:
  assumes "utf8_state s" "ints_ok (st_enrollment s)" "int64 (st_version s)"
  shows "decode_state (encode_state s) = Inr s"
  using assms
  by (simp add: decode_state_def encode_state_def decode_only_def json_decode_line printable_state into_state)

section \<open>Saved and loaded\<close>

definition loaded_ok :: "(string \<Rightarrow> string) \<Rightarrow> string \<Rightarrow> world \<Rightarrow> state option \<Rightarrow> bool" where
  "loaded_ok lu path w r \<longleftrightarrow>
     (case r of
       None \<Rightarrow> node_at False path w = Inl ENOENT
     | Some s \<Rightarrow> st_version s = 1 \<and> is_ok (canonical_endpoint lu (st_endpoint s)) \<and> full_match user_re (st_ssh_user s)
         \<and> validate_enrollment (st_enrollment s) = Inr ()
         \<and> (\<exists>m b. node_at False path w = Inr (Reg m b) \<and> m AND o077 = 0 \<and> length b \<le> 1048576 \<and> decode_state b = Inr s))"

lemma check_state_ok:
  "check_state lu path s = Inr u \<longleftrightarrow> st_version s = 1 \<and> is_ok (canonical_endpoint lu (st_endpoint s))
     \<and> full_match user_re (st_ssh_user s) \<and> validate_enrollment (st_enrollment s) = Inr ()"
  by (auto simp: check_state_def state_version_def validate_endpoint_def is_ok_iff)

lemma wp_load_state:
  "wp (load_state lu path) (\<lambda>r w'. same w w' \<and> loaded_ok lu path w r) (\<lambda>_ w'. same w w') w"
proof -
  have body: "wp (seq (os_readfile path) (\<lambda>b. seq (lift (decode_state b)) (\<lambda>s. seq (lift (check_state lu path s)) (\<lambda>_. ret (Some s)))))
      (\<lambda>r w'. same w w' \<and> loaded_ok lu path w r) (\<lambda>_ w'. same w w') w1"
    if w1: "same w w1" "node_at False path w = Inr (Reg m b)" "m AND o077 = 0" "length b \<le> 1048576" for w1 m b
    unfolding wp_seq
  proof (rule wp_readfile)
    fix m' b' w'
    assume a: "same w1 w'" "node_at True path w1 = Inr (Reg m' b')"
    have "node_at True path w1 = Inr (Reg m b)"
      using node_at_no_link [OF w1(2)] w1(1) by (simp add: same_node_at)
    with a have "b' = b" by simp
    with a w1 show "wp (lift (decode_state b')) (\<lambda>x. wp (lift (check_state lu path x))
        (\<lambda>y. wp (ret (Some x)) (\<lambda>r w'. same w w' \<and> loaded_ok lu path w r) (\<lambda>_ w'. same w w'))
        (\<lambda>_ w'. same w w')) (\<lambda>_ w'. same w w') w'"
      by (auto simp: check_state_ok loaded_ok_def intro: same_trans split: sum.split)
  qed (use w1 in \<open>auto intro: same_trans\<close>)
  show ?thesis
    unfolding load_state_def wp_seq [of "attempt (os_lstat path)"] wp_attempt
  proof (rule wp_lstat)
    fix n w'
    assume a: "same w w'" "node_at False path w = Inr n"
    show "wp (case Inr (info_of n) of
          Inl e \<Rightarrow> if e = Errno ENOENT then ret None else fail e
        | Inr info \<Rightarrow>
            if fkind info \<noteq> KReg \<or> fperm info AND o077 \<noteq> 0
            then fail (errorf ''%s must be a regular file accessible only by its owner'' [path])
            else if fsize info > 1048576 then fail (errorf ''state file exceeds 1 MiB'' [])
            else seq (os_readfile path) (\<lambda>b. seq (lift (decode_state b)) (\<lambda>s. seq (lift (check_state lu path s)) (\<lambda>_. ret (Some s)))))
        (\<lambda>r w'. same w w' \<and> loaded_ok lu path w r) (\<lambda>_ w'. same w w') w'"
    proof (cases "fkind (info_of n) = KReg \<and> fperm (info_of n) AND o077 = 0 \<and> fsize (info_of n) \<le> 1048576")
      case True
      then obtain m b where n: "n = Reg m b" by (auto simp: info_kind_reg)
      with True a body [OF a(1)] show ?thesis by simp
    next
      case False
      with a(1) show ?thesis by auto
    qed
  qed (auto simp: loaded_ok_def)
qed

text \<open>
  C26. Whatever \<open>LoadState\<close> returns has been checked: it decodes a regular file of the owner's alone, of at
  most 1 MiB, and its version, endpoint, user and enrollment are valid.  It never changes anything, and
  only a missing file is read as no state.
\<close>

theorem load_state_sound:
  assumes "load_state lu path w = (Inr r, w')"
  shows "same w w' \<and>
    (case r of
       None \<Rightarrow> node_at False path w = Inl ENOENT
     | Some s \<Rightarrow> st_version s = 1 \<and> is_ok (canonical_endpoint lu (st_endpoint s)) \<and> full_match user_re (st_ssh_user s)
         \<and> validate_enrollment (st_enrollment s) = Inr ()
         \<and> (\<exists>m b. node_at False path w = Inr (Reg m b) \<and> m AND o077 = 0 \<and> length b \<le> 1048576 \<and> decode_state b = Inr s))"
  using wp_run [OF wp_load_state assms] by (simp add: loaded_ok_def)

lemma load_calm:
  assumes "node_at False path w = Inr (Reg o600 b)" "faults w = []" "length b \<le> 1048576"
    and "decode_state b = Inr s" "check_state lu path s = Inr ()"
  shows "load_state lu path w = (Inr (Some s), w)"
proof -
  have "o600 AND o077 = 0" by simp
  then show ?thesis
    using assms node_at_no_link [OF assms(1)]
    by (simp add: load_state_def seq_def attempt_def ret_def os_lstat_def os_readfile_def lift_def calm_query)
qed

lemma saved_is_loaded:
  assumes "file_ready path (vis (fs w))" "save_state path s w = (Inr u, w1)"
    and "utf8_state s" "is_ok (canonical_endpoint lu (st_endpoint s))" "full_match user_re (st_ssh_user s)"
    and "validate_enrollment (st_enrollment s) = Inr ()" "length (encode_state (s\<lparr>st_version := 1\<rparr>)) \<le> 1048576"
    and "fs w2 = fs w1" "faults w2 = []"
  shows "load_state lu path w2 = (Inr (Some (s\<lparr>st_version := 1\<rparr>)), w2)"
proof -
  let ?s = "s\<lparr>st_version := 1\<rparr>"
  from wp_run [OF wp_atomic_write [OF assms(1)] assms(2) [unfolded save_state_def]]
  have v: "vis (fs w2) = (vis (fs w))(elems path \<mapsto> Reg o600 (encode_state ?s))"
    using assms(8) by (simp add: commits_def state_version_def)
  obtain d c where p: "elems path = d @ [c]" "canonical path" "real_dir (vis (fs w)) d"
    using assms(1) by (rule file_ready_entry)
  then have "entry w2 path d c" by (intro entryI) (simp_all add: v real_dir_upd)
  moreover have nd: "nd (fs w2) (d @ [c]) = Some (Reg o600 (encode_state ?s))" using v p(1) by (intro conjunct1 [OF vis_Some]) simp
  ultimately have n: "node_at False path w2 = Inr (Reg o600 (encode_state ?s))"
    by (simp add: entry_node_at)
  have ints: "ints_ok (st_enrollment s)"
    using assms(6) by (auto simp: validate_enrollment_def ints_ok_def int64_def desc_validate_ok split: if_splits)
  have "decode_state (encode_state ?s) = Inr ?s"
    using assms(3) ints by (intro decode_encode_state) (simp_all add: utf8_state_def int64_def)
  moreover have "check_state lu path ?s = Inr ()" using assms(4-6) by (simp add: check_state_ok)
  ultimately show ?thesis by (rule load_calm [OF n assms(9,7)])
qed

text \<open>
  C27. What \<open>SaveState\<close> saved is what \<open>LoadState\<close> loads, with the version set: for every valid state in
  UTF-8 that fits the size limit, on any machine with the same tree where reading does not fail.
\<close>

theorem state_roundtrip:
  assumes "file_ready path (vis (fs w))" "save_state path s w = (Inr u, w1)"
    and "utf8_state s" "is_ok (canonical_endpoint lu (st_endpoint s))" "full_match user_re (st_ssh_user s)"
    and "validate_enrollment (st_enrollment s) = Inr ()" "length (encode_state (s\<lparr>st_version := 1\<rparr>)) \<le> 1048576"
    and "fs w2 = fs w1" "faults w2 = []"
  shows "load_state lu path w2 = (Inr (Some (s\<lparr>st_version := 1\<rparr>)), w2)"
  using assms by (rule saved_is_loaded)

section \<open>A machine with a state\<close>

definition demo_machine :: world where
  "demo_machine = \<lparr>fs = [([''d''], Dir o700)], cwd = [], environ = [], faults = [], names = [0], hist = []\<rparr>"

definition demo_saved :: state where
  "demo_saved = \<lparr>st_version = 0, st_endpoint = ''https://fleet.example/api'', st_ssh_user = ''me'', st_enrollment = demo_enrollment\<rparr>"

lemma demo_writes: "fst (atomic_write ''/d/state.json'' t o600 demo_machine) = Inr ()"
  "faults (snd (atomic_write ''/d/state.json'' t o600 demo_machine)) = []"
  by code_simp+

lemma demo_saved_ok:
  "file_ready ''/d/state.json'' (vis (fs demo_machine))" "utf8_state demo_saved"
  "is_ok (canonical_endpoint id (st_endpoint demo_saved))" "full_match user_re (st_ssh_user demo_saved)"
  by code_simp+

lemma length_escape: "length (escape_string s) \<le> 6 * length s"
proof (induction s rule: escape_string.induct)
  case (2 c s)
  have a: "length (escape_ascii c) \<le> 6" by (simp add: escape_ascii_def u_escape_def)
  show ?case
  proof (cases "byte c < 128 \<or> rune_len (c # s) = 0")
    case True
    with 2 a show ?thesis by (auto simp: u_escape_def simp del: rune_len.simps)
  next
    case False
    define n where "n = rune_len (c # s)"
    with False have n: "0 < n" by (simp del: rune_len.simps)
    have d: "length (drop (n - 1) s) = length (c # s) - n" using n by simp
    have t: "length (case line_sep (take n (c # s)) of Some r \<Rightarrow> u_escape r | None \<Rightarrow> take n (c # s)) \<le> 6 * min n (length (c # s))"
      using n by (cases n) (auto simp: u_escape_def split: option.split)
    have "length (escape_string (drop (n - 1) s)) \<le> 6 * (length (c # s) - n)"
      using 2(3) False d by (simp add: n_def del: rune_len.simps)
    moreover have "6 * min n (length (c # s)) + 6 * (length (c # s) - n) = 6 * length (c # s)"
      by (cases "n \<le> length (c # s)") auto
    ultimately show ?thesis using t False by (simp add: n_def [symmetric] Let_def del: rune_len.simps)
  qed
qed simp

lemma length_quote: "length (quote_string s) \<le> 6 * length s + 2"
  using length_escape [of s] by (simp add: quote_string_def)

text \<open>The size of the file, up to escapes: the constants hold the names, the indentation and the quotes.\<close>

definition enrollment_size :: "enrollment \<Rightarrow> nat" where
  "enrollment_size e =
     length (itoa (port e)) + length (itoa (tunnel_ssh_port e)) + length (itoa (schema (runtime e)))
     + 6 * (length (node_id e) + length (host e) + length (tunnel_host e) + length (tunnel_user e)
       + length (remote_session e) + length (controller_public_key e) + length (desc_installable (runtime e))
       + length (tunnel_host_key e))"

lemma length_json_enrollment: "length (json_indent l (json_enrollment e)) \<le> 400 + 28 * l + enrollment_size e"
proof -
  have names: "length (quote_string ''node_id'') = 9"
    "length (quote_string ''host'') = 6" "length (quote_string ''port'') = 6" "length (quote_string ''tunnel_host'') = 13"
    "length (quote_string ''tunnel_ssh_port'') = 17" "length (quote_string ''tunnel_user'') = 13"
    "length (quote_string ''remote_session'') = 16" "length (quote_string ''controller_public_key'') = 23"
    "length (quote_string ''runtime'') = 9" "length (quote_string ''schema'') = 8" "length (quote_string ''installable'') = 13"
    "length (quote_string ''tunnel_host_key'') = 17"
    by code_simp+
  show ?thesis
    using length_quote [of "node_id e"] length_quote [of "host e"] length_quote [of "tunnel_host e"]
      length_quote [of "tunnel_user e"] length_quote [of "remote_session e"]
      length_quote [of "controller_public_key e"] length_quote [of "desc_installable (runtime e)"]
      length_quote [of "tunnel_host_key e"]
    by (cases "tunnel_host_key e = []")
      (simp_all add: json_enrollment_def json_runtime_def names newline_def enrollment_size_def)
qed

lemma length_encode_state:
  "length (encode_state s) \<le> 600 + length (itoa (st_version s)) + 6 * (length (st_endpoint s) + length (st_ssh_user s))
     + enrollment_size (st_enrollment s)"
proof -
  have names: "length (quote_string ''version'') = 9" "length (quote_string ''endpoint'') = 10"
    "length (quote_string ''ssh_user'') = 10" "length (quote_string ''enrollment'') = 12"
    by code_simp+
  show ?thesis
    using length_quote [of "st_endpoint s"] length_quote [of "st_ssh_user s"] length_json_enrollment [of 1 "st_enrollment s"]
    by (simp add: encode_state_def json_state_def names newline_def)
qed

lemma demo_enrollment_size: "enrollment_size demo_enrollment \<le> 3000"
proof -
  have "length (itoa (port demo_enrollment)) + length (itoa (tunnel_ssh_port demo_enrollment))
      + length (itoa (schema (runtime demo_enrollment))) \<le> 20"
    by (simp add: demo_enrollment_def itoa_def nat_str_less10 nat_str_ge10)
  moreover have "length (node_id demo_enrollment) + length (host demo_enrollment) + length (tunnel_host demo_enrollment)
      + length (tunnel_user demo_enrollment) + length (remote_session demo_enrollment)
      + length (controller_public_key demo_enrollment) + length (desc_installable (runtime demo_enrollment))
      + length (tunnel_host_key demo_enrollment) \<le> 400" by code_simp
  ultimately show ?thesis by (simp add: enrollment_size_def)
qed

lemma demo_saved_short: "length (encode_state (demo_saved\<lparr>st_version := 1\<rparr>)) \<le> 1048576"
  using length_encode_state [of "demo_saved\<lparr>st_version := 1\<rparr>"] demo_enrollment_size
  by (simp add: demo_saved_def itoa_def nat_str_less10)

lemma demo_save:
  "save_state ''/d/state.json'' demo_saved demo_machine = (Inr (), snd (save_state ''/d/state.json'' demo_saved demo_machine))"
  "faults (snd (save_state ''/d/state.json'' demo_saved demo_machine)) = []"
  using demo_writes by (simp_all add: save_state_def prod_eq_iff)

theorem state_roundtrip_witness:
  "fst (load_state id ''/d/state.json'' (snd (save_state ''/d/state.json'' demo_saved demo_machine)))
     = Inr (Some (demo_saved\<lparr>st_version := 1\<rparr>))"
  using state_roundtrip [OF demo_saved_ok(1) demo_save(1) demo_saved_ok(2-4) _ demo_saved_short refl demo_save(2)]
    demo_enrollment_ok by (simp add: demo_saved_def)

theorem load_state_sound_witness:
  "load_state id ''/d/state.json'' demo_machine = (Inr None, demo_machine) \<and> node_at False ''/d/state.json'' demo_machine = Inl ENOENT"
proof -
  have run: "load_state id ''/d/state.json'' demo_machine = (Inr None, demo_machine)"
  proof -
    have "node_at False ''/d/state.json'' demo_machine = Inl ENOENT" by code_simp
    then show ?thesis
      by (simp add: load_state_def seq_def attempt_def os_lstat_def calm_query demo_machine_def ret_def)
  qed
  from load_state_sound [OF run] run show ?thesis by simp
qed

end
