(* ===== verification/Enroll.thy ===== *)
theory Enroll
  imports State
begin

text \<open>
  \<open>internal/client/enroll.go\<close>: the key pairs, the bearer token and the enrollment request.
  The HTTP client is a parameter: one request to one response, whose body may end in a read error.
  A dereference of a nil pointer is the value \<open>None\<close>.
\<close>

section \<open>Key pairs\<close>

definition keygen_cmd :: "string \<Rightarrow> string \<Rightarrow> string \<Rightarrow> cmd" where
  "keygen_cmd keygen comment p =
     \<lparr>exe = keygen, argv = [''-q'', ''-t'', ''ed25519'', ''-N'', [], ''-C'', comment, ''-f'', p], cmd_env = None\<rparr>"

definition generate_key :: "prog \<Rightarrow> string \<Rightarrow> string \<Rightarrow> string \<Rightarrow> unit io" where
  "generate_key ex keygen p comment =
     seq (exec ex (keygen_cmd keygen comment p)) (\<lambda>(out, err).
     case err of
       Some e \<Rightarrow> fail (wrapf ''ssh-keygen: %w: %s'' [trim_space out] e)
     | None \<Rightarrow> seq (os_chmod p o600) (\<lambda>_. os_chmod (p @ ''.pub'') o644))"

definition check_pair :: "goerr + finfo \<Rightarrow> goerr + finfo \<Rightarrow> goerr + unit" where
  "check_pair priv pub =
     (case (priv, pub) of
        (Inr i, Inr j) \<Rightarrow>
          if fkind i \<noteq> KReg \<or> fperm i AND o077 \<noteq> 0
          then Inl (errorf ''private key permissions are not owner-only'' [])
          else if fkind j \<noteq> KReg then Inl (errorf ''public key is not a regular file'' [])
          else Inr ()
      | _ \<Rightarrow> Inl (errorf ''incomplete keypair; refusing to replace existing key material'' []))"

definition ensure_key :: "prog \<Rightarrow> string \<Rightarrow> string \<Rightarrow> string \<Rightarrow> string io" where
  "ensure_key ex keygen p comment =
     seq (attempt (os_lstat p)) (\<lambda>priv.
     seq (attempt (os_lstat (p @ ''.pub''))) (\<lambda>pub.
     seq (if is_ok priv \<or> is_ok pub then lift (check_pair priv pub)
          else if priv = Inl (Errno ENOENT) \<and> pub = Inl (Errno ENOENT) then generate_key ex keygen p comment
          else if priv \<noteq> Inl (Errno ENOENT) then lift (map_sum id (\<lambda>_. ()) priv)
          else lift (map_sum id (\<lambda>_. ()) pub)) (\<lambda>_.
     seq (os_readfile (p @ ''.pub'')) (\<lambda>b.
     lift (normalize_public_key b)))))"

section \<open>The token\<close>

definition one_line :: "string \<Rightarrow> bool" where
  "one_line s \<longleftrightarrow> \<not> contains_any s [CR, LF]"

definition read_token :: "string \<Rightarrow> string io" where
  "read_token p =
     (if p = [] then
        (\<lambda>w. let token = trim_space (getenv (environ w) ''FAMILIAR_FLEET_TOKEN'') in
             lift (if \<not> one_line token then Inl (errorf ''FAMILIAR_FLEET_TOKEN must not contain a newline'' [])
                   else Inr token) w)
      else
        seq (os_lstat p) (\<lambda>info.
        if fkind info \<noteq> KReg \<or> fperm info AND o077 \<noteq> 0
        then fail (errorf ''token file %s must be a regular owner-only file'' [p])
        else
          seq (os_readfile (clean p)) (\<lambda>b.
          let token = trim_space b in
          if token = [] \<or> \<not> one_line token then fail (errorf ''token file must contain exactly one non-empty line'' [])
          else ret token)))"

section \<open>The request\<close>

record http_request =
  rq_method :: string
  rq_url :: string
  rq_headers :: "(string \<times> string) list"
  rq_body :: string

record http_response =
  rs_code :: int
  rs_status :: string
  rs_body :: string
  rs_read_err :: "goerr option"

type_synonym http_client = "http_request \<Rightarrow> goerr + http_response"

text \<open>\<open>io.ReadAll(io.LimitReader(body, n))\<close>: an error past the limit is not seen.\<close>

definition read_limited :: "nat \<Rightarrow> http_response \<Rightarrow> string \<times> goerr option" where
  "read_limited n r = (take n (rs_body r), if length (rs_body r) \<ge> n then None else rs_read_err r)"

text \<open>\<open>http.StatusText\<close>.\<close>

definition status_text :: "int \<Rightarrow> string" where
  "status_text c = (case map_of [
     (100, ''Continue''), (101, ''Switching Protocols''), (102, ''Processing''), (103, ''Early Hints''),
     (300, ''Multiple Choices''), (301, ''Moved Permanently''), (302, ''Found''), (303, ''See Other''),
     (304, ''Not Modified''), (305, ''Use Proxy''), (307, ''Temporary Redirect''), (308, ''Permanent Redirect''),
     (400, ''Bad Request''), (401, ''Unauthorized''), (402, ''Payment Required''), (403, ''Forbidden''),
     (404, ''Not Found''), (405, ''Method Not Allowed''), (406, ''Not Acceptable''),
     (407, ''Proxy Authentication Required''), (408, ''Request Timeout''), (409, ''Conflict''), (410, ''Gone''),
     (411, ''Length Required''), (412, ''Precondition Failed''), (413, ''Request Entity Too Large''),
     (414, ''Request URI Too Long''), (415, ''Unsupported Media Type''), (416, ''Requested Range Not Satisfiable''),
     (417, ''Expectation Failed''), (418, ''I'' @ [SQUOTE] @ ''m a teapot''), (421, ''Misdirected Request''),
     (422, ''Unprocessable Entity''), (423, ''Locked''), (424, ''Failed Dependency''), (425, ''Too Early''),
     (426, ''Upgrade Required''), (428, ''Precondition Required''), (429, ''Too Many Requests''),
     (431, ''Request Header Fields Too Large''), (451, ''Unavailable For Legal Reasons''),
     (500, ''Internal Server Error''), (501, ''Not Implemented''), (502, ''Bad Gateway''),
     (503, ''Service Unavailable''), (504, ''Gateway Timeout''), (505, ''HTTP Version Not Supported''),
     (506, ''Variant Also Negotiates''), (507, ''Insufficient Storage''), (508, ''Loop Detected''),
     (510, ''Not Extended''), (511, ''Network Authentication Required'')] c of None \<Rightarrow> [] | Some s \<Rightarrow> s)"

definition marshal_request :: "enrollment_request \<Rightarrow> string" where
  "marshal_request r =
     (let f = (\<lambda>k v. quote_string k @ '':'' @ quote_string v) in
      ''{'' @ f ''host'' (req_host r) @ '','' @ f ''tunnel_public_key'' (req_tunnel_public_key r) @ '',''
        @ f ''ssh_host_public_key'' (req_ssh_host_public_key r) @ '','' @ f ''ssh_user'' (req_ssh_user r) @ ''}'')"

definition enroll_request :: "string \<Rightarrow> string \<Rightarrow> enrollment_request \<Rightarrow> http_request" where
  "enroll_request u token r =
     \<lparr>rq_method = ''POST'', rq_url = u,
      rq_headers = [(''Authorization'', ''Bearer '' @ token), (''Content-Type'', ''application/json''),
                    (''Accept'', ''application/json'')],
      rq_body = marshal_request r\<rparr>"

definition decode_enrollment :: "string \<Rightarrow> goerr + enrollment" where
  "decode_enrollment = decode_only ''enrollment response'' (into_struct True enrollment_fields put_enrollment zero_enrollment)"

definition read_enrollment :: "http_response \<Rightarrow> goerr + enrollment" where
  "read_enrollment resp =
     (if rs_code resp < 200 \<or> rs_code resp \<ge> 300 then
        (let msg = trim_space (fst (read_limited 4096 resp)) in
         Inl (errorf ''enrollment failed (%s): %q'' [rs_status resp, if msg = [] then status_text (rs_code resp) else msg]))
      else
        (case read_limited (1048576 + 1) resp of
           (b, Some e) \<Rightarrow> Inl (wrapf ''read enrollment response: %w'' [] e)
         | (b, None) \<Rightarrow>
             if length b > 1048576 then Inl (errorf ''enrollment response exceeds 1 MiB'' [])
             else
               bind_ok (decode_enrollment b) (\<lambda>e.
               bind_ok (map_err (wrapf ''validate enrollment response: %w'' []) (validate_enrollment e)) (\<lambda>_.
               Inr e))))"

definition check_request :: "(string \<Rightarrow> string) \<Rightarrow> string \<Rightarrow> string \<Rightarrow> enrollment_request \<Rightarrow> goerr + unit" where
  "check_request lu endpoint token r =
     bind_ok (validate_endpoint lu endpoint) (\<lambda>_.
     bind_ok (validate_enrollment_request r) (\<lambda>_.
     guard (token \<noteq> []) (errorf ''enrollment requires a bearer token (use --token-file or FAMILIAR_FLEET_TOKEN)'' [])))"

text \<open>
  \<open>Enroller.Enroll\<close>.  The error of \<open>url.Parse\<close> is dropped, so that its result may be nil, which
  \<open>u.String()\<close> dereferences.
\<close>

definition enroll :: "(string \<Rightarrow> string) \<Rightarrow> http_client \<Rightarrow> string \<Rightarrow> string \<Rightarrow> enrollment_request \<Rightarrow> (goerr + enrollment) option" where
  "enroll lu client endpoint token r =
     (case check_request lu endpoint token r of
        Inl e \<Rightarrow> Some (Inl e)
      | Inr _ \<Rightarrow>
          (case parse_url lu (trim_right_char SLASH endpoint @ ''/fleet'') of
             None \<Rightarrow> None
           | Some u \<Rightarrow>
               if parse_url lu (url_string u) = None then Some (Inl (errorf ''url'' []))
               else
                 (case client (enroll_request (url_string u) token r) of
                    Inl e \<Rightarrow> Some (Inl (wrapf ''enrollment request: %w'' [] e))
                  | Inr resp \<Rightarrow> Some (read_enrollment resp))))"

section \<open>What they guarantee\<close>

lemma wp_lift_same: "(\<And>e. r = Inl e \<Longrightarrow> E e w) \<Longrightarrow> (\<And>x. r = Inr x \<Longrightarrow> Q x w) \<Longrightarrow> wp (lift r) Q E w"
  by (simp split: sum.split)

lemma check_pair_ok:
  "check_pair a b = Inr u \<longleftrightarrow> (\<exists>i j. a = Inr i \<and> b = Inr j \<and> fkind i = KReg \<and> fperm i AND o077 = 0 \<and> fkind j = KReg)"
  by (auto simp: check_pair_def split: sum.split)

definition pair_kept :: "string \<Rightarrow> world \<Rightarrow> string \<Rightarrow> bool" where
  "pair_kept p w k \<longleftrightarrow> (\<exists>m b m' b'. node_at False p w = Inr (Reg m b) \<and> m AND o077 = 0
     \<and> node_at False (p @ ''.pub'') w = Inr (Reg m' b') \<and> normalize_public_key b' = Inr k)"

lemma wp_read_public:
  assumes "same w w1" "node_at False p w = Inr (Reg m b)" "m AND o077 = 0" "node_at False (p @ ''.pub'') w = Inr (Reg m' b')"
  shows "wp (seq (os_readfile (p @ ''.pub'')) (\<lambda>b. lift (normalize_public_key b)))
    (\<lambda>k w'. same w w' \<and> pair_kept p w k) (\<lambda>_. same w) w1"
  unfolding wp_seq
proof (rule wp_readfile)
  fix n c w'
  assume a: "same w1 w'" "node_at True (p @ ''.pub'') w1 = Inr (Reg n c)"
  have "node_at True (p @ ''.pub'') w1 = Inr (Reg m' b')"
    using node_at_no_link [OF assms(4)] assms(1) by (simp add: same_node_at)
  with a(2) have c: "c = b'" by simp
  have "same w w'" using same_trans [OF assms(1) a(1)] .
  with assms show "wp (lift (normalize_public_key c)) (\<lambda>k w'. same w w' \<and> pair_kept p w k) (\<lambda>_. same w) w'"
    by (auto simp: pair_kept_def c split: sum.split)
qed (use assms in \<open>auto intro: same_trans\<close>)

lemma wp_check_pair:
  assumes "same w w1" and "\<And>i. a = Inr i \<Longrightarrow> \<exists>n. node_at False p w = Inr n \<and> i = info_of n"
    and "\<And>i. b = Inr i \<Longrightarrow> \<exists>n. node_at False (p @ ''.pub'') w = Inr n \<and> i = info_of n"
  shows "wp (seq (lift (check_pair a b)) (\<lambda>_. seq (os_readfile (p @ ''.pub'')) (\<lambda>b. lift (normalize_public_key b))))
    (\<lambda>k w'. same w w' \<and> pair_kept p w k) (\<lambda>_. same w) w1"
proof (cases "check_pair a b")
  case (Inl e)
  with assms(1) show ?thesis by simp
next
  case (Inr u)
  then obtain i j where ij: "a = Inr i" "b = Inr j" "fkind i = KReg" "fperm i AND o077 = 0" "fkind j = KReg"
    by (auto simp: check_pair_ok)
  with assms(2,3) obtain m c m' c' where "node_at False p w = Inr (Reg m c)" "m AND o077 = 0"
      "node_at False (p @ ''.pub'') w = Inr (Reg m' c')"
    by (metis info_kind_reg info_of.simps(1) finfo.select_convs(2))
  from wp_read_public [OF assms(1) this] show ?thesis by (subst wp_seq) (simp add: Inr del: wp_seq)
qed

definition seen :: "string \<Rightarrow> world \<Rightarrow> goerr + finfo \<Rightarrow> bool" where
  "seen p w r \<longleftrightarrow> (case r of
     Inr i \<Rightarrow> \<exists>n. node_at False p w = Inr n \<and> i = info_of n
   | Inl e \<Rightarrow> e = Errno ENOENT \<longrightarrow> node_at False p w = Inl ENOENT)"

lemma wp_seen:
  assumes "same w w1" "\<And>r w2. same w w2 \<Longrightarrow> seen p w r \<Longrightarrow> Q r w2"
  shows "wp (attempt (os_lstat p)) Q E w1"
  unfolding wp_attempt using assms(1)
  by (intro wp_lstat assms(2)) (auto simp: seen_def same_node_at intro: same_trans)

lemma wp_ensure_key_existing:
  assumes "node_at False p w \<noteq> Inl ENOENT \<or> node_at False (p @ ''.pub'') w \<noteq> Inl ENOENT"
  shows "wp (ensure_key ex keygen p comment) (\<lambda>k w'. same w w' \<and> pair_kept p w k) (\<lambda>_. same w) w"
proof -
  have rest: "wp (seq (if is_ok a \<or> is_ok b then lift (check_pair a b)
          else if a = Inl (Errno ENOENT) \<and> b = Inl (Errno ENOENT) then generate_key ex keygen p comment
          else if a \<noteq> Inl (Errno ENOENT) then lift (map_sum id (\<lambda>_. ()) a)
          else lift (map_sum id (\<lambda>_. ()) b))
        (\<lambda>_. seq (os_readfile (p @ ''.pub'')) (\<lambda>b. lift (normalize_public_key b))))
      (\<lambda>k w'. same w w' \<and> pair_kept p w k) (\<lambda>_. same w) w2"
    if s: "same w w2" "seen p w a" "seen (p @ ''.pub'') w b" for a b w2
  proof (cases "is_ok a \<or> is_ok b")
    case True
    from s(2,3) have "wp (seq (lift (check_pair a b)) (\<lambda>_. seq (os_readfile (p @ ''.pub'')) (\<lambda>b. lift (normalize_public_key b))))
      (\<lambda>k w'. same w w' \<and> pair_kept p w k) (\<lambda>_. same w) w2"
      by (intro wp_check_pair s(1)) (auto simp: seen_def)
    with True show ?thesis by (simp del: wp_seq)
  next
    case False
    then obtain e e' where e: "a = Inl e" "b = Inl e'" by (cases a; cases b; simp)
    with s assms have "e \<noteq> Errno ENOENT \<or> e' \<noteq> Errno ENOENT" by (auto simp: seen_def)
    with s(1) e show ?thesis by auto
  qed
  show ?thesis
    unfolding ensure_key_def wp_seq [of "attempt f" for f]
    by (rule wp_seen [OF same_refl], erule wp_seen, rule rest)
qed

text \<open>
  C28. Key material is never replaced: where either file of a pair is there, \<open>EnsureKey\<close> runs nothing and
  changes nothing, whatever \<open>ssh-keygen\<close> would do.  It then returns the public key only of a pair of
  regular files whose private one is the owner's alone, and an error for every other one.
\<close>

theorem key_never_replaced:
  assumes "ensure_key ex keygen p comment w = (r, w')"
    and "node_at False p w \<noteq> Inl ENOENT \<or> node_at False (p @ ''.pub'') w \<noteq> Inl ENOENT"
  shows "same w w' \<and> (\<forall>k. r = Inr k \<longrightarrow> (\<exists>m b m' b'. node_at False p w = Inr (Reg m b) \<and> m AND o077 = 0
    \<and> node_at False (p @ ''.pub'') w = Inr (Reg m' b') \<and> normalize_public_key b' = Inr k))"
  using wp_run [OF wp_ensure_key_existing [OF assms(2)] assms(1)] by (auto simp: pair_kept_def split: sum.splits)

lemma wp_read_token:
  "wp (read_token p) (\<lambda>t w'. same w w' \<and> one_line t \<and> (p \<noteq> [] \<longrightarrow> t \<noteq> [] \<and>
      (\<exists>m b. node_at False p w = Inr (Reg m b) \<and> m AND o077 = 0))) (\<lambda>_. same w) w"
proof (cases "p = []")
  case True
  then show ?thesis by (simp add: read_token_def wp_def lift_def Let_def)
next
  case False
  have body: "wp (if fkind (info_of n) \<noteq> KReg \<or> fperm (info_of n) AND o077 \<noteq> 0
        then fail (errorf ''token file %s must be a regular owner-only file'' [p])
        else seq (os_readfile (clean p)) (\<lambda>b.
          let token = trim_space b in
          if token = [] \<or> \<not> one_line token then fail (errorf ''token file must contain exactly one non-empty line'' [])
          else ret token))
      (\<lambda>t w'. same w w' \<and> one_line t \<and> (p \<noteq> [] \<longrightarrow> t \<noteq> [] \<and>
        (\<exists>m b. node_at False p w = Inr (Reg m b) \<and> m AND o077 = 0))) (\<lambda>_. same w) w1"
    if "same w w1" "node_at False p w = Inr n" for n w1
  proof (cases "fkind (info_of n) = KReg \<and> fperm (info_of n) AND o077 = 0")
    case True
    then obtain m b where n: "n = Reg m b" by (auto simp: info_kind_reg)
    show ?thesis
      using True that unfolding wp_if wp_seq
      by (auto simp: n Let_def intro!: wp_readfile intro: same_trans)
  qed (use that in auto)
  from False show ?thesis
    unfolding read_token_def if_not_P [OF False] wp_seq by (intro wp_lstat body) (auto intro: same_trans)
qed

text \<open>
  A token cannot break out of its header line: it has no line break, whether it comes from the
  environment or from a file.  A file is read only if it is the owner's alone, and its token is not empty.
\<close>

theorem token_is_one_line:
  assumes "read_token p w = (Inr t, w')"
  shows "CR \<notin> set t \<and> LF \<notin> set t \<and> same w w'
    \<and> (p \<noteq> [] \<longrightarrow> t \<noteq> [] \<and> (\<exists>m b. node_at False p w = Inr (Reg m b) \<and> m AND o077 = 0))"
  using wp_run [OF wp_read_token assms] by (auto simp: one_line_def contains_any_iff)


lemma decode_only_encoded: "printable j \<Longrightarrow> into j = Some x \<Longrightarrow> decode_only what into (json_indent l j @ [LF]) = Inr x"
  by (simp add: decode_only_def json_decode_line)

lemma printable_enrollment: "utf8_enrollment e \<Longrightarrow> printable (json_enrollment e)"
  by (simp add: utf8_enrollment_def json_enrollment_def json_runtime_def) (intro conjI; code_simp)

lemma read_enrollment_json:
  assumes "validate_enrollment e = Inr ()" "utf8_enrollment e" "200 \<le> rs_code resp" "rs_code resp < 300"
    and "rs_body resp = json_indent l (json_enrollment e) @ [LF]" "length (rs_body resp) \<le> 1048576" "rs_read_err resp = None"
  shows "read_enrollment resp = Inr e"
proof -
  have "ints_ok e"
    using assms(1) by (auto simp: validate_enrollment_def ints_ok_def int64_def desc_validate_ok split: if_splits)
  then have "decode_enrollment (rs_body resp) = Inr e"
    unfolding decode_enrollment_def assms(5)
    by (intro decode_only_encoded printable_enrollment assms(2)) (simp add: zero_enrollment_def)
  with assms show ?thesis by (simp add: read_enrollment_def read_limited_def)
qed

text \<open>
  A service that answers a well-formed request with a success code and the JSON of a valid
  enrollment is understood: the client returns exactly that enrollment.
\<close>

theorem enroll_accepts:
  assumes "check_request lu endpoint token r = Inr ()"
    and "parse_url lu (trim_right_char SLASH endpoint @ ''/fleet'') = Some u" "parse_url lu (url_string u) = Some u'"
    and "client (enroll_request (url_string u) token r) = Inr resp"
    and "validate_enrollment e = Inr ()" "utf8_enrollment e" "200 \<le> rs_code resp" "rs_code resp < 300"
    and "rs_body resp = json_indent l (json_enrollment e) @ [LF]" "length (rs_body resp) \<le> 1048576" "rs_read_err resp = None"
  shows "enroll lu client endpoint token r = Some (Inr e)"
  using read_enrollment_json [OF assms(5-11)] assms(1-4) by (simp add: enroll_def)

text \<open>
  A finding: an endpoint with a space around it passes the check, which trims it, and is then parsed
  as it is; the nil result of the failing parse is dereferenced.
\<close>

lemma enroll_panics:
  assumes "validate_enrollment_request r = Inr ()" "token \<noteq> []"
  shows "enroll lu client '' https://fleet.example'' token r = None"
proof -
  have "is_ok (canonical_endpoint lu '' https://fleet.example'')"
    "parse_url lu (trim_right_char SLASH '' https://fleet.example'' @ ''/fleet'') = None"
    by code_simp+
  with assms show ?thesis by (auto simp: enroll_def check_request_def validate_endpoint_def is_ok_iff)
qed

section \<open>One enrollment\<close>

definition demo_request :: enrollment_request where
  "demo_request = \<lparr>req_host = ''box'', req_tunnel_public_key = demo_key, req_ssh_host_public_key = demo_key, req_ssh_user = ''me''\<rparr>"

definition demo_response :: http_response where
  "demo_response = \<lparr>rs_code = 201, rs_status = ''201 Created'', rs_body = json_indent 0 (json_enrollment demo_enrollment) @ [LF],
     rs_read_err = None\<rparr>"

definition demo_client :: http_client where
  "demo_client rq = (if rq_url rq = ''https://fleet.example/fleet'' \<and> (''Authorization'', ''Bearer secret'') \<in> set (rq_headers rq)
     then Inr demo_response else Inl (errorf ''refused'' []))"

lemma demo_request_ok: "check_request id ''https://fleet.example/'' ''secret'' demo_request = Inr ()"
proof -
  have "is_ok (canonical_endpoint id ''https://fleet.example/'')" by code_simp
  moreover have "validate_public_key demo_key = Inr ()" "full_match label_re ''box''" "full_match user_re ''me''" by code_simp+
  ultimately show ?thesis
    by (auto simp: check_request_def validate_endpoint_def is_ok_iff validate_enrollment_request_def
        validate_machine_name_def demo_request_def)
qed

lemma demo_url:
  "map_option url_string (parse_url id (trim_right_char SLASH ''https://fleet.example/'' @ ''/fleet'')) = Some ''https://fleet.example/fleet''"
  "parse_url id ''https://fleet.example/fleet'' \<noteq> None"
  by code_simp+

lemma demo_enrollment_utf8: "utf8_enrollment demo_enrollment"
  by code_simp

lemma demo_body_short: "length (rs_body demo_response) \<le> 1048576"
  using length_json_enrollment [of 0 demo_enrollment] demo_enrollment_size by (simp add: demo_response_def)

theorem enroll_accepts_witness:
  "enroll id demo_client ''https://fleet.example/'' ''secret'' demo_request = Some (Inr demo_enrollment)"
proof -
  obtain u u' where u: "parse_url id (trim_right_char SLASH ''https://fleet.example/'' @ ''/fleet'') = Some u"
    "url_string u = ''https://fleet.example/fleet''" "parse_url id (url_string u) = Some u'"
    using demo_url by auto
  then have c: "demo_client (enroll_request (url_string u) ''secret'' demo_request) = Inr demo_response"
    by (simp add: demo_client_def enroll_request_def)
  have "rs_body demo_response = json_indent 0 (json_enrollment demo_enrollment) @ [LF]" by (simp add: demo_response_def)
  from enroll_accepts [where client = demo_client and resp = demo_response, OF demo_request_ok u(1,3) c demo_enrollment_ok demo_enrollment_utf8 _ _ this demo_body_short]
  show ?thesis by (simp add: demo_response_def)
qed

lemma demo_enrolls: "\<exists>u. enroll id (\<lambda>_. Inr demo_response) ''https://fleet.example/'' ''secret'' demo_request = Some (Inr demo_enrollment)
    \<and> parse_url id (trim_right_char SLASH ''https://fleet.example/'' @ ''/fleet'') = Some u"
proof -
  obtain u where u: "parse_url id (trim_right_char SLASH ''https://fleet.example/'' @ ''/fleet'') = Some u"
    "url_string u = ''https://fleet.example/fleet''" "parse_url id (url_string u) \<noteq> None"
    using demo_url by auto
  have "read_enrollment demo_response = Inr demo_enrollment"
    by (rule read_enrollment_json [OF demo_enrollment_ok demo_enrollment_utf8, of _ 0])
      (use demo_body_short in \<open>simp_all add: demo_response_def\<close>)
  with u demo_request_ok show ?thesis by (auto simp: enroll_def)
qed


theorem token_is_one_line_witness:
  "\<exists>w'. read_token [] (demo_machine\<lparr>environ := [''FAMILIAR_FLEET_TOKEN= secret '']\<rparr>) = (Inr ''secret'', w') \<and> LF \<notin> set ''secret''"
proof -
  have "fst (read_token [] (demo_machine\<lparr>environ := [''FAMILIAR_FLEET_TOKEN= secret '']\<rparr>)) = Inr ''secret''" by code_simp
  then obtain w' where run: "read_token [] (demo_machine\<lparr>environ := [''FAMILIAR_FLEET_TOKEN= secret '']\<rparr>) = (Inr ''secret'', w')"
    by (metis prod.collapse)
  from token_is_one_line [OF run] run show ?thesis by blast
qed

definition demo_half_pair :: world where
  "demo_half_pair = demo_machine\<lparr>fs := [([''d''], Dir o700), ([''d'', ''key''], Reg o600 ''secret'')]\<rparr>"

theorem key_never_replaced_witness:
  "fs (snd (ensure_key (\<lambda>c w. (([], None), [])) ''ssh-keygen'' ''/d/key'' ''c'' demo_half_pair)) = fs demo_half_pair"
proof -
  have n: "node_at False ''/d/key'' demo_half_pair = Inr (Reg o600 ''secret'')" by code_simp
  obtain r w' where run: "ensure_key (\<lambda>c w. (([], None), [])) ''ssh-keygen'' ''/d/key'' ''c'' demo_half_pair = (r, w')"
    by (rule prod.exhaust)
  from key_never_replaced [OF run] n have "same demo_half_pair w'" by simp
  then show ?thesis unfolding run by (simp add: same_fs)
qed

end
