(* ===== verification/PaneShell.thy ===== *)
theory PaneShell
  imports Config
begin

text \<open>
  \<open>internal/client/paneshell.go\<close>: the choice of the user's shell and the texts of the launcher and of
  the startup files.  The files are a Go map from names to contents; here they are listed in the order
  in which the source adds them, and \<open>WritePaneShell\<close> may install them in any order.
\<close>

section \<open>The user's shell\<close>

datatype shell_family = ShellBash | ShellZsh | ShellFish | ShellPOSIX | ShellUnknown

definition classify_shell :: "string \<Rightarrow> shell_family" where
  "classify_shell shell =
     (let b = path_base shell in
      if b = ''bash'' then ShellBash
      else if b = ''zsh'' then ShellZsh
      else if b = ''fish'' then ShellFish
      else if b \<in> {''sh'', ''dash'', ''ksh'', ''ksh93'', ''mksh'', ''oksh'', ''ash'', ''busybox''} then ShellPOSIX
      else ShellUnknown)"

text \<open>The shell and the note about it.\<close>

definition resolve_user_shell :: "string \<Rightarrow> paths \<Rightarrow> (string \<times> string) io" where
  "resolve_user_shell env_shell ps =
     (let shell = trim_space env_shell in
      if shell = [] then ret (''/bin/sh'', ''SHELL is not set; panes will use /bin/sh'')
      else if \<not> is_abs shell then fail (errorf ''SHELL=%q must be an absolute path'' [shell])
      else if contains_any shell [CR, LF, SQUOTE] then fail (errorf ''SHELL=%q contains unsupported characters'' [shell])
      else if shell = p_pane_shell ps \<or> path_dir shell = p_dir ps
        then fail (errorf ''SHELL=%q is the Familiar pane launcher; set SHELL to your real shell before starting familiar-fleet'' [shell])
      else
        seq (wrap (wrapf ''SHELL=%q: %w'' [shell]) (os_stat shell)) (\<lambda>info.
        if fkind info \<noteq> KReg \<or> fperm info AND o111 = 0
        then fail (errorf ''SHELL=%q is not an executable file'' [shell])
        else ret (shell, [])))"

record pane_shell_spec =
  user_shell :: string
  runtime_bin :: string
  login_shell :: bool

text \<open>\<open>runtime.GOOS\<close> is a parameter of the build.\<close>

definition default_login :: "string \<Rightarrow> bool" where
  "default_login goos \<longleftrightarrow> goos = ''darwin''"

section \<open>The texts\<close>

definition lines :: "string list \<Rightarrow> string" where
  "lines ls = join [LF] ls"

definition path_assertion_sh :: "string \<Rightarrow> string" where
  \<open>path_assertion_sh bin = lines [
     ''# Familiar: runtime/current/bin must win over anything the startup files above did.'',
     ''case ":$PATH:" in'',
     ''  '' @ shell_quote ('':'' @ bin @ '':'') @ ''*) ;;'',
     ''  *) PATH='' @ shell_quote bin @ ''${PATH:+:$PATH} ;;'',
     ''esac'',
     ''export PATH'',
     ''hash -r 2>/dev/null'']\<close>

definition path_assertion_fish :: "string \<Rightarrow> string" where
  \<open>path_assertion_fish bin =
     ''if test (count $PATH) -eq 0 -o "$PATH[1]" != '' @ shell_quote bin @ ''; set -gx PATH '' @ shell_quote bin
       @ '' $PATH; end''\<close>

definition bashrc :: "string \<Rightarrow> string" where
  \<open>bashrc bin = lines [
     ''# Generated by familiar-fleet. Sourced via `bash --rcfile` so the user's own'',
     ''# startup files run first (emulating bash's login/interactive selection);'',
     ''# the Familiar PATH assertion is the final statement.'',
     ''if [ -n "${FAMILIAR_LOGIN:-}" ]; then'',
     ''  unset FAMILIAR_LOGIN'',
     ''  [ -r /etc/profile ] && . /etc/profile'',
     ''  if [ -r "$HOME/.bash_profile" ]; then . "$HOME/.bash_profile"'',
     ''  elif [ -r "$HOME/.bash_login" ]; then . "$HOME/.bash_login"'',
     ''  elif [ -r "$HOME/.profile" ]; then . "$HOME/.profile"'',
     ''  fi'',
     ''  # Login bash does not read ~/.bashrc itself, but most ~/.bash_profile files'',
     ''  # source it. Do not source it here a second time.'',
     ''else'',
     ''  [ -r "$HOME/.bashrc" ] && . "$HOME/.bashrc"'',
     ''fi'',
     path_assertion_sh bin] @ [LF]\<close>

text \<open>The line by which the zsh files show the user's \<open>ZDOTDIR\<close> to the user's own files.\<close>

definition zdot_swap :: string where
  \<open>zdot_swap = ''if [[ "$_familiar_user_zdot" == "${HOME:-/}" ]]; then unset ZDOTDIR; else export ZDOTDIR="$_familiar_user_zdot"; fi''\<close>

definition zdot_restore :: string where
  \<open>zdot_restore = ''export ZDOTDIR="$_familiar_zdot"''\<close>

definition zsh_source :: "string \<Rightarrow> string" where
  \<open>zsh_source f = ''[[ -r "$_familiar_user_zdot/'' @ f @ ''" ]] && source "$_familiar_user_zdot/'' @ f @ ''"''\<close>

definition zshenv :: "string \<Rightarrow> string" where
  \<open>zshenv zdot = lines [
     ''# Generated by familiar-fleet. ZDOTDIR shim: user's files run first,'',
     ''# Familiar's PATH assertion runs last (in .zshrc or, for login shells, .zlogin).'',
     ''typeset -g _familiar_zdot='' @ shell_quote zdot,
     ''typeset -g _familiar_user_zdot="${FAMILIAR_USER_ZDOTDIR:-${HOME:-/}}"'',
     ''unset FAMILIAR_USER_ZDOTDIR'',
     ''# Expose the user's ZDOTDIR while their files run so they see what they expect.'',
     zdot_swap,
     zsh_source ''.zshenv'',
     ''# Their .zshenv may have moved ZDOTDIR; follow it for the remaining files.'',
     ''[[ -n "${ZDOTDIR:-}" && "$ZDOTDIR" != "$_familiar_zdot" ]] && _familiar_user_zdot="$ZDOTDIR"'',
     zdot_restore,
     []]\<close>

definition zprofile :: string where
  \<open>zprofile = lines [
     ''# Generated by familiar-fleet. Login shells only.'',
     zdot_swap,
     zsh_source ''.zprofile'',
     zdot_restore,
     []]\<close>

definition zsh_finalize :: "string \<Rightarrow> string" where
  \<open>zsh_finalize bin = lines [
     ''# Restore the user's ZDOTDIR so nested shells and .zlogout behave normally.'',
     zdot_swap,
     ''unset _familiar_zdot _familiar_user_zdot'',
     path_assertion_sh bin]\<close>

definition zshrc :: "string \<Rightarrow> string" where
  \<open>zshrc bin = lines [
     ''# Generated by familiar-fleet. Interactive shells.'',
     zdot_swap,
     zsh_source ''.zshrc'',
     ''if [[ -o login ]]; then'',
     ''  # .zlogin still has to run (and may touch PATH); it finalizes instead.'',
     ''  '' @ zdot_restore,
     ''else'',
     zsh_finalize bin,
     ''fi'',
     []]\<close>

definition zlogin :: "string \<Rightarrow> string" where
  \<open>zlogin bin = lines [
     ''# Generated by familiar-fleet. Login shells, after .zshrc.'',
     zdot_swap,
     zsh_source ''.zlogin'',
     zsh_finalize bin,
     []]\<close>

definition posix_env :: "string \<Rightarrow> string" where
  \<open>posix_env bin = lines [
     ''# Generated by familiar-fleet. Sourced by interactive POSIX shells via $ENV.'',
     ''# The user's original $ENV runs first; the Familiar PATH assertion is last.'',
     ''if [ -n "${FAMILIAR_USER_ENV:-}" ]; then'',
     ''  ENV="$FAMILIAR_USER_ENV"; export ENV'',
     ''  unset FAMILIAR_USER_ENV'',
     ''  [ -r "$ENV" ] && . "$ENV"'',
     ''else'',
     ''  unset ENV'',
     ''fi'',
     path_assertion_sh bin] @ [LF]\<close>

section \<open>The launcher\<close>

definition launch_head :: "string \<Rightarrow> string \<Rightarrow> string list" where
  \<open>launch_head bin sh = [
     ''#!/bin/sh'',
     ''# Generated by familiar-fleet. Environment adapter around the user's shell,'',
     ''# not a replacement shell. Regenerated every time the Herdr server starts.'',
     ''FAMILIAR_RUNTIME_BIN='' @ shell_quote bin,
     ''export FAMILIAR_RUNTIME_BIN'',
     ''SHELL='' @ shell_quote sh,
     ''export SHELL'',
     ''if [ ! -x "$FAMILIAR_RUNTIME_BIN/pi" ]; then'',
     ''  echo 'familiar-fleet: warning: no activated Familiar runtime at '"$FAMILIAR_RUNTIME_BIN"'; run: familiar-fleet runtime apply <installable>' >&2'',
     ''fi'']\<close>

definition exec_shell :: "string \<Rightarrow> bool \<Rightarrow> string" where
  \<open>exec_shell sh login = ''exec '' @ shell_quote sh @ (if login then '' -l'' else []) @ '' "$@"''\<close>

definition zsh_launch :: "string \<Rightarrow> string list" where
  \<open>zsh_launch zdot = [
     ''if [ -n "${ZDOTDIR:-}" ] && [ "$ZDOTDIR" != '' @ shell_quote zdot @ '' ]; then'',
     ''  FAMILIAR_USER_ZDOTDIR="$ZDOTDIR"'',
     ''elif [ "${ZDOTDIR:-}" != '' @ shell_quote zdot @ '' ] || [ -z "${FAMILIAR_USER_ZDOTDIR:-}" ]; then'',
     ''  FAMILIAR_USER_ZDOTDIR="${HOME:-/}"'',
     ''fi'',
     ''export FAMILIAR_USER_ZDOTDIR'',
     ''ZDOTDIR='' @ shell_quote zdot,
     ''export ZDOTDIR'']\<close>

definition posix_launch :: "string \<Rightarrow> string list" where
  \<open>posix_launch envfile = [
     ''if [ -n "${ENV:-}" ] && [ "$ENV" != '' @ shell_quote envfile @ '' ]; then'',
     ''  FAMILIAR_USER_ENV="$ENV"'',
     ''  export FAMILIAR_USER_ENV'',
     ''fi'',
     ''ENV='' @ shell_quote envfile,
     ''export ENV'']\<close>

text \<open>What a family adds to the launcher, and its startup files.\<close>

definition family_launch :: "shell_family \<Rightarrow> string \<Rightarrow> string \<Rightarrow> string \<Rightarrow> bool \<Rightarrow> string list" where
  \<open>family_launch fam shell_dir bin sh login =
     (case fam of
        ShellBash \<Rightarrow>
          (if login then [''FAMILIAR_LOGIN=1'', ''export FAMILIAR_LOGIN''] else [])
          @ [''exec '' @ shell_quote sh @ '' --rcfile '' @ shell_quote (path_join [shell_dir, ''bashrc'']) @ '' -i "$@"'']
      | ShellZsh \<Rightarrow> zsh_launch (path_join [shell_dir, ''zdotdir'']) @ [exec_shell sh login]
      | ShellFish \<Rightarrow>
          [''exec '' @ shell_quote sh @ (if login then '' -l'' else []) @ '' -C '' @ shell_quote (path_assertion_fish bin) @ '' "$@"'']
      | ShellPOSIX \<Rightarrow> posix_launch (path_join [shell_dir, ''posix-env'']) @ [exec_shell sh login]
      | ShellUnknown \<Rightarrow>
          [''echo 'familiar-fleet: warning: unsupported shell ''  @ [SQUOTE] @ shell_quote sh
             @ [SQUOTE] @ ''; PATH is pre-set and its startup files may override the Familiar runtime' >&2'',
           path_assertion_sh bin, exec_shell sh login])\<close>

definition family_files :: "shell_family \<Rightarrow> string \<Rightarrow> string \<Rightarrow> (string \<times> string) list" where
  "family_files fam shell_dir bin =
     (case fam of
        ShellBash \<Rightarrow> [(''shell/bashrc'', bashrc bin)]
      | ShellZsh \<Rightarrow> [(''shell/zdotdir/.zshenv'', zshenv (path_join [shell_dir, ''zdotdir''])),
                    (''shell/zdotdir/.zprofile'', zprofile), (''shell/zdotdir/.zshrc'', zshrc bin),
                    (''shell/zdotdir/.zlogin'', zlogin bin)]
      | ShellFish \<Rightarrow> []
      | ShellPOSIX \<Rightarrow> [(''shell/posix-env'', posix_env bin)]
      | ShellUnknown \<Rightarrow> [])"

definition generate_pane_shell :: "paths \<Rightarrow> pane_shell_spec \<Rightarrow> goerr + (string \<times> string) list" where
  "generate_pane_shell ps spec =
     (let sh = user_shell spec; bin = runtime_bin spec in
      if \<not> is_abs sh \<or> contains_any sh [CR, LF, SQUOTE] then Inl (errorf ''invalid user shell %q'' [sh])
      else if \<not> is_abs bin \<or> contains_any bin [CHR '':'', CR, LF, SQUOTE] then Inl (errorf ''invalid runtime bin %q'' [bin])
      else
        (let shell_dir = path_join [p_dir ps, ''shell'']; fam = classify_shell sh in
         Inr (family_files fam shell_dir bin
           @ [(''pane-shell'', lines (launch_head bin sh @ family_launch fam shell_dir bin sh (login_shell spec)) @ [LF])])))"

text \<open>The files in the order \<open>order\<close> of the map's iteration.\<close>

definition pane_file_mode :: "string \<Rightarrow> nat" where
  "pane_file_mode rel = (if rel = ''pane-shell'' then o700 else o600)"

fun install_files :: "string \<Rightarrow> (string \<times> string) list \<Rightarrow> unit io" where
  "install_files d [] = ret ()"
| "install_files d ((rel, content) # rest) =
     seq (wrap (wrapf ''write %s: %w'' [rel]) (atomic_write (path_join [d, rel]) content (pane_file_mode rel)))
       (\<lambda>_. install_files d rest)"

definition write_pane_shell :: "((string \<times> string) list \<Rightarrow> (string \<times> string) list) \<Rightarrow> paths \<Rightarrow> pane_shell_spec \<Rightarrow> unit io" where
  "write_pane_shell order ps spec =
     seq (lift (generate_pane_shell ps spec)) (\<lambda>files.
     seq (os_remove_all (path_join [p_dir ps, ''shell''])) (\<lambda>_.
     seq (os_mkdir_all (path_join [path_join [p_dir ps, ''shell''], ''zdotdir'']) o700) (\<lambda>_.
     install_files (p_dir ps) (order files))))"

section \<open>Herdr's configuration\<close>

definition toml_string :: "string \<Rightarrow> string" where
  "toml_string s = DQUOTE # replace_bytes [(BSLASH, [BSLASH, BSLASH]), (DQUOTE, [BSLASH, DQUOTE])] s @ [DQUOTE]"

definition toml_table_header :: "string \<Rightarrow> string option" where
  "toml_table_header t =
     (if \<not> prefix ''['' t \<or> prefix ''[['' t then None
      else (case index_byte (CHR '']'') t of None \<Rightarrow> None | Some i \<Rightarrow> Some (trim_space (take (i - 1) (tl t)))))"

definition toml_key :: "string \<Rightarrow> string" where
  "toml_key t =
     (if t = [] \<or> prefix ''#'' t then []
      else (case index_byte (CHR ''='') t of None \<Rightarrow> [] | Some i \<Rightarrow> trim_space (take i t)))"

definition managed_lines :: "string \<Rightarrow> string list" where
  \<open>managed_lines pane =
     [''# Managed by familiar-fleet: environment adapter around the user's shell.'',
      ''default_shell = '' @ toml_string pane, ''shell_mode = "non_login"'']\<close>

definition overridden :: "bool \<Rightarrow> string \<Rightarrow> bool" where
  "overridden in_term key \<longleftrightarrow>
     (if in_term then key = ''default_shell'' \<or> key = ''shell_mode''
      else key = ''terminal.default_shell'' \<or> key = ''terminal.shell_mode'')"

text \<open>The loop over the lines: the lines put out, and whether a terminal table was found.\<close>

fun merge_lines :: "string list \<Rightarrow> bool \<Rightarrow> string list \<Rightarrow> string list \<times> bool" where
  "merge_lines managed in_term [] = ([], False)"
| "merge_lines managed in_term (l # ls) =
     (case toml_table_header (trim_space l) of
        Some name \<Rightarrow>
          (let t = (name = ''terminal''); (out, found) = merge_lines managed t ls in
           (l # (if t then managed else []) @ out, t \<or> found))
      | None \<Rightarrow>
          (let (out, found) = merge_lines managed in_term ls in
           (if overridden in_term (toml_key (trim_space l)) then out else l # out, found)))"

definition config_lines :: "string \<Rightarrow> string list" where
  "config_lines s = (if s = [] then [] else split_on LF (trim_right_char LF s))"

definition merge_herdr_config :: "string \<Rightarrow> string \<Rightarrow> goerr + string" where
  "merge_herdr_config user_config pane =
     (if NUL \<in> set user_config then Inl (errorf ''user Herdr config contains NUL'' [])
      else
        (let (out, found) = merge_lines (managed_lines pane) False (config_lines user_config) in
         Inr (lines (if found then out
                else out @ (if out = [] then [] else [[]]) @ ''[terminal]'' # managed_lines pane) @ [LF])))"

end
