(* ===== verification/Tiamat.thy ===== *)
theory Tiamat
  imports StatePaths
begin

text \<open>
  \<open>internal/client/tiamat.go\<close>: the preflight of the Tiamat router's URL and token file.  The URL comes
  from the environment or from a node-local file; the token file is only opened, never read.
\<close>

section \<open>The environment\<close>

text \<open>\<open>environMap\<close> of \<open>herdrenv.go\<close> as a look-up: the last entry for a key counts, as in the Go map.\<close>

definition env_entry :: "string \<Rightarrow> (string \<times> string) option" where
  "env_entry kv = (case cut (CHR ''='') kv of (k, v, f) \<Rightarrow> if f \<and> k \<noteq> [] then Some (k, v) else None)"

definition environ_map :: "string list \<Rightarrow> (string \<times> string) list" where
  "environ_map es = rev (List.map_filter env_entry es)"

definition env_get :: "string list \<Rightarrow> string \<Rightarrow> string" where
  "env_get es k = (case map_of (environ_map es) k of None \<Rightarrow> [] | Some v \<Rightarrow> v)"

definition tiamat_url_env :: string where
  "tiamat_url_env = ''FAMILIAR_TIAMAT_URL''"

definition tiamat_token_env :: string where
  "tiamat_token_env = ''FAMILIAR_TIAMAT_TOKEN_FILE''"

section \<open>The preflight\<close>

record tiamat =
  t_url :: string
  t_token_file :: string
  t_explicit :: bool

text \<open>\<open>os.IsNotExist\<close>, and the letters of a file type in a message.\<close>

definition kind_name :: "kind \<Rightarrow> string" where
  "kind_name k = (case k of KReg \<Rightarrow> ''----------'' | KDir \<Rightarrow> ''d---------'' | KLnk \<Rightarrow> ''L---------'' | KOther \<Rightarrow> ''?---------'')"

definition read_tiamat_url_file :: "string \<Rightarrow> string io" where
  "read_tiamat_url_file p =
     seq (attempt (os_stat p)) (\<lambda>st.
     case st of
       Inl e \<Rightarrow>
         if e = Errno ENOENT then fail (errorf ''URL file does not exist'' [])
         else fail (wrapf ''URL file is unusable: %w'' [] e)
     | Inr info \<Rightarrow>
         if fkind info \<noteq> KReg then fail (errorf ''URL file must be a regular file, not %s'' [kind_name (fkind info)])
         else if fsize info > 4096 then fail (errorf ''URL file exceeds 4096 bytes'' [])
         else
           seq (wrap (wrapf ''URL file is not readable by this user: %w'' []) (os_readfile p)) (\<lambda>contents.
           let v = trim_space contents in
           if v = [] then fail (errorf ''URL file is empty'' [])
           else if contains_any v [CR, LF, NUL] then fail (errorf ''URL file must contain exactly one URL'' [])
           else ret v))"

definition token_hint :: "string \<Rightarrow> bool \<Rightarrow> string \<Rightarrow> string" where
  "token_hint p explicit secrets =
     (if explicit
      then ''create it with `install -m 600 /dev/null '' @ p @ ''` and write the token into it (a placeholder is fine for routers that do not require auth)''
      else ''create '' @ secrets @ '' with mode 0700, then `install -m 600 /dev/null '' @ p
        @ ''` and write the token into it (a placeholder is fine for routers that do not require auth), or set ''
        @ tiamat_token_env @ '' to an existing file'')"

definition check_token_file :: "string \<Rightarrow> bool \<Rightarrow> string \<Rightarrow> unit io" where
  "check_token_file p explicit secrets =
     (let hint = token_hint p explicit secrets in
      seq (attempt (os_stat p)) (\<lambda>st.
      case st of
        Inl e \<Rightarrow>
          if e = Errno ENOENT then fail (errorf ''Tiamat token file %s does not exist; %s'' [p, hint])
          else fail (wrapf ''Tiamat token file %s is unusable: %w'' [p] e)
      | Inr info \<Rightarrow>
          if fkind info \<noteq> KReg
          then fail (errorf ''Tiamat token file %s must be a regular file, not %s; %s'' [p, kind_name (fkind info), hint])
          else if fsize info = 0
          then fail (errorf ''Tiamat token file %s is empty; write the token into it (a placeholder is fine for routers that do not require auth)'' [p])
          else
            seq (wrap (wrapf ''Tiamat token file %s is not readable by this user: %w'' [p]) (os_open p)) (\<lambda>_.
            os_close)))"

definition resolve_tiamat :: "paths \<Rightarrow> string list \<Rightarrow> tiamat io" where
  "resolve_tiamat ps es =
     (let u = trim_space (env_get es tiamat_url_env);
          explicit = trim_space (env_get es tiamat_token_env);
          tf = (if explicit \<noteq> [] then explicit else p_tiamat_token_file ps) in
      seq (if u \<noteq> [] then ret u
           else
             wrap (\<lambda>e. Errorf ''Tiamat router URL is required before the Herdr server starts: %w; write it to %s or set %s as an override''
                 [p_tiamat_url_file ps, tiamat_url_env] (Some e))
               (read_tiamat_url_file (p_tiamat_url_file ps))) (\<lambda>url.
      seq (check_token_file tf (explicit \<noteq> []) (p_secrets_dir ps)) (\<lambda>_.
      ret \<lparr>t_url = url, t_token_file = tf, t_explicit = (explicit \<noteq> [])\<rparr>)))"

section \<open>What a success establishes\<close>

definition tiamat_file :: "paths \<Rightarrow> string list \<Rightarrow> string" where
  "tiamat_file ps es =
     (let explicit = trim_space (env_get es tiamat_token_env) in
      if explicit \<noteq> [] then explicit else p_tiamat_token_file ps)"

lemma wp_os_open:
  assumes "\<And>e w'. same w w' \<Longrightarrow> E (Errno e) w'" "\<And>w'. same w w' \<Longrightarrow> Q () w'"
  shows "wp (os_open p) Q E w"
  unfolding os_open_def using assms by (intro wp_query) auto

lemma wp_quiet_close:
  assumes "\<And>e w'. same w w' \<Longrightarrow> E (Errno e) w'" "\<And>w'. same w w' \<Longrightarrow> Q () w'"
  shows "wp os_close Q E w"
  unfolding os_close_def using assms by (intro wp_query) auto

lemma wp_read_tiamat_url:
  "wp (read_tiamat_url_file p)
    (\<lambda>v w'. same w w' \<and> v \<noteq> [] \<and> LF \<notin> set v \<and> CR \<notin> set v
       \<and> (\<exists>m s. node_at True p w = Inr (Reg m s) \<and> v = trim_space s \<and> length s \<le> 4096))
    (\<lambda>_ w'. same w w') w"
  unfolding read_tiamat_url_file_def
  by (auto intro!: wp_stat wp_readfile
      simp: Let_def info_kind_reg same_node_at contains_any_iff split: sum.splits)
    (blast intro: same_trans)+

lemma wp_check_token:
  "wp (check_token_file p explicit secrets)
    (\<lambda>_ w'. same w w' \<and> (\<exists>m s. node_at True p w = Inr (Reg m s) \<and> s \<noteq> []))
    (\<lambda>_ w'. same w w') w"
  unfolding check_token_file_def
  by (auto intro!: wp_stat wp_os_open wp_quiet_close
      simp: Let_def info_kind_reg split: sum.splits)
    (blast intro: same_trans)+


text \<open>
  A successful preflight has changed nothing; its URL is the one of the environment when that is
  set, and else the one line of the URL file; its token file is the explicit path or the default one,
  and it is a regular file that is not empty.
\<close>

theorem tiamat_ready:
  assumes "resolve_tiamat ps es w = (Inr t, w')"
  shows "same w w' \<and> t_url t \<noteq> [] \<and> t_token_file t = tiamat_file ps es
    \<and> (\<exists>m s. node_at True (t_token_file t) w = Inr (Reg m s) \<and> s \<noteq> [])
    \<and> (if trim_space (env_get es tiamat_url_env) \<noteq> [] then t_url t = trim_space (env_get es tiamat_url_env)
       else \<exists>m s. node_at True (p_tiamat_url_file ps) w = Inr (Reg m s) \<and> t_url t = trim_space s
         \<and> LF \<notin> set (t_url t) \<and> CR \<notin> set (t_url t))"
proof -
  let ?u = "trim_space (env_get es tiamat_url_env)"
  let ?P = "\<lambda>t w'. same w w' \<and> t_url t \<noteq> [] \<and> t_token_file t = tiamat_file ps es
    \<and> (\<exists>m s. node_at True (t_token_file t) w = Inr (Reg m s) \<and> s \<noteq> [])
    \<and> (if ?u \<noteq> [] then t_url t = ?u
       else \<exists>m s. node_at True (p_tiamat_url_file ps) w = Inr (Reg m s) \<and> t_url t = trim_space s
         \<and> LF \<notin> set (t_url t) \<and> CR \<notin> set (t_url t))"
  let ?tf = "tiamat_file ps es" and ?ex = "trim_space (env_get es tiamat_token_env) \<noteq> []"
  have tok: "wp (check_token_file ?tf ?ex (p_secrets_dir ps))
      (\<lambda>_ w'. same w w' \<and> (\<exists>m s. node_at True ?tf w = Inr (Reg m s) \<and> s \<noteq> [])) (\<lambda>_ _. True) w1" if "same w w1" for w1
    using that by (intro wp_mono [OF wp_check_token]) (auto simp: same_node_at intro: same_trans)
  have "wp (resolve_tiamat ps es) ?P (\<lambda>_ _. True) w"
  proof (cases "?u = []")
    case True
    then show ?thesis
      unfolding resolve_tiamat_def Let_def tiamat_file_def [unfolded Let_def, symmetric]
      by (auto intro!: wp_mono [OF wp_read_tiamat_url] wp_mono [OF tok])
  next
    case False
    then show ?thesis
      unfolding resolve_tiamat_def Let_def tiamat_file_def [unfolded Let_def, symmetric]
      by (auto intro!: wp_mono [OF tok])
  qed
  from wp_run [OF this assms] show ?thesis unfolding sum.case .
qed

lemma check_token_blind:
  assumes "node_at True p w1 = Inr (Reg m s)" "node_at True p w2 = Inr (Reg m s')" "s = [] \<longleftrightarrow> s' = []"
    and "faults w1 = faults w2"
  shows "fst (check_token_file p b d w1) = fst (check_token_file p b d w2)"
proof -
  have n: "node_at True p (tick w) = node_at True p w" for w by (simp add: node_at_def tick_def)
  have f: "fault w1 = fault w2" "fault (tick w1) = fault (tick w2)" "fault (tick (tick w1)) = fault (tick (tick w2))"
    using assms(4) by (simp_all add: fault_def tick_def)
  show ?thesis
    using assms(1-3) f
    by (simp add: check_token_file_def Let_def seq_def attempt_def wrap_def os_stat_def os_open_def os_close_def
        query_def n fail_def ret_def split: option.split)
qed

text \<open>
  The token never matters: on two machines that differ in what the token file holds, and in nothing
  else that the preflight looks at, it has the same outcome, messages included.
\<close>

theorem token_never_read:
  assumes "trim_space (env_get es tiamat_url_env) \<noteq> []"
    and "node_at True (tiamat_file ps es) w1 = Inr (Reg m s)" "node_at True (tiamat_file ps es) w2 = Inr (Reg m s')"
    and "s = [] \<longleftrightarrow> s' = []" "faults w1 = faults w2"
  shows "fst (resolve_tiamat ps es w1) = fst (resolve_tiamat ps es w2)"
proof -
  let ?c = "check_token_file (tiamat_file ps es) (trim_space (env_get es tiamat_token_env) \<noteq> []) (p_secrets_dir ps)"
  have "resolve_tiamat ps es w = seq ?c (\<lambda>_. ret \<lparr>t_url = trim_space (env_get es tiamat_url_env),
      t_token_file = tiamat_file ps es, t_explicit = (trim_space (env_get es tiamat_token_env) \<noteq> [])\<rparr>) w" for w
    using assms(1) by (simp add: resolve_tiamat_def Let_def seq_def ret_def tiamat_file_def)
  moreover have "fst (seq c (\<lambda>_. ret x) u) = (case fst (c u) of Inl e \<Rightarrow> Inl e | Inr _ \<Rightarrow> Inr x)" for c :: "unit io" and x :: tiamat and u
    by (simp add: seq_def ret_def split: prod.split sum.split)
  ultimately show ?thesis
    using check_token_blind [OF assms(2-5)] by simp
qed


definition demo_secrets :: "string \<Rightarrow> world" where
  "demo_secrets token =
     \<lparr>fs = [([''d''], Dir o700), ([''d'', ''secrets''], Dir o700), ([''d'', ''secrets'', ''tiamat.url''], Reg o600 (''http://router'' @ [LF])),
        ([''d'', ''secrets'', ''tiamat.token''], Reg o600 token)],
      cwd = [], environ = [], faults = [], names = [], hist = []\<rparr>"

theorem tiamat_ready_witness:
  "\<exists>t w'. resolve_tiamat (paths_in ''/d'') [] (demo_secrets ''x'') = (Inr t, w') \<and> t_url t = ''http://router''"
proof -
  have "fst (resolve_tiamat (paths_in ''/d'') [] (demo_secrets ''x''))
      = Inr \<lparr>t_url = ''http://router'', t_token_file = ''/d/secrets/tiamat.token'', t_explicit = False\<rparr>" by code_simp
  then obtain w' where run: "resolve_tiamat (paths_in ''/d'') [] (demo_secrets ''x'')
      = (Inr \<lparr>t_url = ''http://router'', t_token_file = ''/d/secrets/tiamat.token'', t_explicit = False\<rparr>, w')"
    by (metis prod.collapse)
  from tiamat_ready [OF run] run show ?thesis by auto
qed

theorem token_never_read_witness:
  "fst (resolve_tiamat (paths_in ''/d'') [''FAMILIAR_TIAMAT_URL=http://r''] (demo_secrets ''one''))
     = fst (resolve_tiamat (paths_in ''/d'') [''FAMILIAR_TIAMAT_URL=http://r''] (demo_secrets ''two''))"
proof -
  have "trim_space (env_get [''FAMILIAR_TIAMAT_URL=http://r''] tiamat_url_env) \<noteq> []" by code_simp
  moreover have "node_at True (tiamat_file (paths_in ''/d'') [''FAMILIAR_TIAMAT_URL=http://r'']) (demo_secrets ''one'') = Inr (Reg o600 ''one'')"
    "node_at True (tiamat_file (paths_in ''/d'') [''FAMILIAR_TIAMAT_URL=http://r'']) (demo_secrets ''two'') = Inr (Reg o600 ''two'')"
    by code_simp+
  ultimately show ?thesis by (rule token_never_read) (simp_all add: demo_secrets_def)
qed

end
