(* ===== verification/HerdrEnv.thy ===== *)
theory HerdrEnv
  imports PaneShell Tiamat Store
begin

text \<open>
  \<open>internal/client/herdrenv.go\<close>: the preflight of the Familiar-owned Herdr server and the environment
  it runs in.  Parameters: \<open>renum\<close>, which prints a JSON number as Go does after a round trip through
  \<open>float64\<close> (\<open>None\<close>: out of range); the order of a Go map's iteration; the operating system's name; and
  the external program \<open>ex\<close>, for which running out of its 15 seconds is one way to fail.  An assignment
  to a nil map, which panics, is the value \<open>None\<close>.
\<close>

section \<open>Herdr's own configuration\<close>

definition user_herdr_config_path :: "string list \<Rightarrow> string" where
  "user_herdr_config_path es =
     (if env_get es ''HERDR_CONFIG_PATH'' \<noteq> [] then env_get es ''HERDR_CONFIG_PATH''
      else if env_get es ''XDG_CONFIG_HOME'' \<noteq> []
        then path_join [env_get es ''XDG_CONFIG_HOME'', ''herdr'', ''config.toml'']
      else path_join [env_get es ''HOME'', ''.config'', ''herdr'', ''config.toml''])"

definition config_check_cmd :: "string \<Rightarrow> string list \<Rightarrow> cmd" where
  "config_check_cmd herdr env = \<lparr>exe = herdr, argv = [''config'', ''check''], cmd_env = Some env\<rparr>"

definition check_herdr_config :: "prog \<Rightarrow> string \<Rightarrow> string list \<Rightarrow> unit io" where
  "check_herdr_config ex herdr env =
     seq (exec ex (config_check_cmd herdr env)) (\<lambda>(out, err).
     case err of
       None \<Rightarrow> ret ()
     | Some e \<Rightarrow> fail (wrapf ''generated Herdr config rejected by `herdr config check`: %w%s'' [LF # trim_space out] e))"

section \<open>The environment of the server\<close>

definition prefixed :: "string \<Rightarrow> string" where
  "prefixed p = (if p = [] then [] else CHR '':'' # p)"

definition env_key :: "string \<Rightarrow> string" where
  "env_key kv = (case index_byte (CHR ''='') kv of Some (Suc i) \<Rightarrow> take (Suc i) kv | _ \<Rightarrow> kv)"

definition server_keys :: "string list" where
  "server_keys = [''PATH'', ''HERDR_CONFIG_PATH'', ''PI_CODING_AGENT_DIR'', ''FAMILIAR_RUNTIME_BIN'', tiamat_url_env, tiamat_token_env]"

definition server_env :: "paths \<Rightarrow> string \<Rightarrow> tiamat \<Rightarrow> string list \<Rightarrow> string list" where
  "server_env ps bin t es =
     filter (\<lambda>kv. env_key kv \<notin> set server_keys) es
     @ [''PATH='' @ bin @ prefixed (env_get es ''PATH''),
        ''HERDR_CONFIG_PATH='' @ p_herdr_config ps,
        ''PI_CODING_AGENT_DIR='' @ p_pi_dir ps,
        ''FAMILIAR_RUNTIME_BIN='' @ bin,
        tiamat_url_env @ ''='' @ t_url t,
        tiamat_token_env @ ''='' @ t_token_file t]"

section \<open>The profile\<close>

text \<open>What \<open>Unmarshal\<close> into \<open>any\<close> and \<open>Marshal\<close> make of a value: numbers reprinted, keys sorted, the last of a duplicate.\<close>

definition set_key :: "string \<Rightarrow> 'a \<Rightarrow> (string \<times> 'a) list \<Rightarrow> (string \<times> 'a) list" where
  "set_key k x ms = sort_key fst ((k, x) # filter (\<lambda>(k', _). k' \<noteq> k) ms)"

fun through_any :: "(string \<Rightarrow> string option) \<Rightarrow> json \<Rightarrow> json option"
  and items_through :: "(string \<Rightarrow> string option) \<Rightarrow> json list \<Rightarrow> json list option"
  and members_through :: "(string \<Rightarrow> string option) \<Rightarrow> (string \<times> json) list \<Rightarrow> (string \<times> json) list \<Rightarrow> (string \<times> json) list option" where
  "through_any renum (JNum x) = map_option JNum (renum x)"
| "through_any renum (JArr js) = map_option JArr (items_through renum js)"
| "through_any renum (JObj ms) = map_option JObj (members_through renum ms [])"
| "through_any renum j = Some j"
| "items_through renum [] = Some []"
| "items_through renum (j # js) =
     (case (through_any renum j, items_through renum js) of (Some x, Some xs) \<Rightarrow> Some (x # xs) | _ \<Rightarrow> None)"
| "members_through renum [] acc = Some acc"
| "members_through renum ((k, j) # ms) acc =
     (case through_any renum j of None \<Rightarrow> None | Some x \<Rightarrow> members_through renum ms (set_key k x acc))"

text \<open>The settings as a Go map; \<open>null\<close> leaves it nil, which is the inner \<open>None\<close>.\<close>

definition parse_settings :: "(string \<Rightarrow> string option) \<Rightarrow> string \<Rightarrow> (string \<times> json) list option option" where
  "parse_settings renum b =
     (case json_parse b of
        Some JNull \<Rightarrow> Some None
      | Some (JObj ms) \<Rightarrow> map_option Some (members_through renum ms [])
      | _ \<Rightarrow> None)"

definition extension_dir :: "store \<Rightarrow> string" where
  "extension_dir s = path_join [store_current s, ''share'', ''familiar-worker'', ''extensions'', ''tiamat'']"

definition profile_template :: "store \<Rightarrow> string" where
  "profile_template s = path_join [store_current s, ''share'', ''familiar-worker'', ''profile'', ''settings.json'']"

definition projected_profile :: "store \<Rightarrow> (string \<times> json) list \<Rightarrow> string" where
  "projected_profile s ms = json_indent 0 (JObj (set_key ''extensions'' (JArr [JStr (extension_dir s)]) ms)) @ [LF]"

definition write_pi_profile :: "(string \<Rightarrow> string option) \<Rightarrow> paths \<Rightarrow> store \<Rightarrow> unit option io" where
  "write_pi_profile renum ps s =
     seq (wrap (wrapf ''read %s: %w'' [profile_template s]) (os_readfile (profile_template s))) (\<lambda>b.
     case parse_settings renum b of
       None \<Rightarrow> fail (errorf ''parse %s: %w'' [profile_template s])
     | Some settings \<Rightarrow>
         seq (attempt (os_stat (path_join [extension_dir s, ''index.ts'']))) (\<lambda>st.
         if (case st of Inl _ \<Rightarrow> True | Inr info \<Rightarrow> fkind info \<noteq> KReg)
         then fail (errorf ''active runtime does not provide the Tiamat extension at %s'' [extension_dir s])
         else
           (case settings of
              None \<Rightarrow> ret None
            | Some ms \<Rightarrow>
                seq (os_mkdir_all (p_pi_dir ps) o700) (\<lambda>_.
                seq (atomic_write (path_join [p_pi_dir ps, ''settings.json'']) (projected_profile s ms) o600) (\<lambda>_.
                ret (Some ()))))))"

section \<open>The preflight\<close>

record herdr_environment =
  he_runtime :: string
  he_user_shell :: string
  he_tiamat :: tiamat
  he_notes :: "string list"
  he_env :: "string list"

text \<open>What is validated before anything is generated.\<close>

definition preflight :: "paths \<Rightarrow> string list \<Rightarrow> (string \<times> tiamat \<times> string \<times> string list) io" where
  "preflight ps es =
     seq (ready \<lparr>sdir = p_runtime_dir ps\<rparr>) (\<lambda>current.
     seq (resolve_tiamat ps es) (\<lambda>t.
     seq (resolve_user_shell (env_get es ''SHELL'') ps) (\<lambda>(shell, note).
     ret (current, t, shell,
       (if note \<noteq> [] then [note] else [])
       @ (if classify_shell shell = ShellUnknown
          then [''shell '' @ shell @ '' is not natively supported; panes get PATH pre-set with a warning''] else [])))))"

definition merge_config :: "paths \<Rightarrow> string list \<Rightarrow> unit io" where
  "merge_config ps es =
     (let p = user_herdr_config_path es in
      seq (attempt (os_readfile p)) (\<lambda>r.
      case r of
        Inl e \<Rightarrow>
          if e \<noteq> Errno ENOENT then fail (wrapf ''read Herdr config %s: %w'' [p] e)
          else seq (lift (merge_herdr_config [] (p_pane_shell ps))) (\<lambda>merged.
               wrap (wrapf ''write generated Herdr config: %w'' []) (atomic_write (p_herdr_config ps) merged o600))
      | Inr cfg \<Rightarrow>
          seq (lift (merge_herdr_config cfg (p_pane_shell ps))) (\<lambda>merged.
          wrap (wrapf ''write generated Herdr config: %w'' []) (atomic_write (p_herdr_config ps) merged o600))))"

definition prepare_herdr_environment ::
  "(string \<Rightarrow> string option) \<Rightarrow> ((string \<times> string) list \<Rightarrow> (string \<times> string) list) \<Rightarrow> string \<Rightarrow> prog \<Rightarrow> paths \<Rightarrow> string
     \<Rightarrow> string list \<Rightarrow> herdr_environment option io" where
  "prepare_herdr_environment renum order goos ex ps herdr es =
     (let s = \<lparr>sdir = p_runtime_dir ps\<rparr> in
      seq (preflight ps es) (\<lambda>(current, t, shell, notes).
      seq (wrap (wrapf ''write pane shell launcher: %w'' [])
             (write_pane_shell order ps \<lparr>user_shell = shell, runtime_bin = current_bin s, login_shell = default_login goos\<rparr>)) (\<lambda>_.
      seq (wrap (wrapf ''project Pi profile from active runtime: %w'' []) (write_pi_profile renum ps s)) (\<lambda>done.
      case done of
        None \<Rightarrow> ret None
      | Some _ \<Rightarrow>
          seq (merge_config ps es) (\<lambda>_.
          let env = server_env ps (current_bin s) t es in
          seq (only_if (herdr \<noteq> []) (check_herdr_config ex herdr env)) (\<lambda>_.
          ret (Some \<lparr>he_runtime = current, he_user_shell = shell, he_tiamat = t, he_notes = notes, he_env = env\<rparr>)))))))"

end
