(* ===== verification/HerdrEnvProps.thy ===== *)
theory HerdrEnvProps
  imports HerdrEnv StoreProps
begin

text \<open>
  What the preflight of the Herdr server guarantees: it fails without a trace, or the server's
  environment is the parent's with exactly Familiar's settings in place of the parent's.
\<close>

section \<open>Looking up the environment\<close>

lemma env_entry_key: "env_entry kv = Some (k, v) \<Longrightarrow> env_key kv = k"
proof -
  assume a: "env_entry kv = Some (k, v)"
  obtain b x f where c: "cut (CHR ''='') kv = (b, x, f)" by (metis prod_cases3)
  with a have "f" "k = b" "b \<noteq> []" by (auto simp: env_entry_def split: if_splits)
  moreover from this c have "kv = b @ CHR ''='' # x" by (auto dest: cut_parts)
  ultimately show ?thesis using c by (cases b) (simp_all add: env_key_def index_byte_def)
qed

lemma env_entry_set: "k \<noteq> [] \<Longrightarrow> CHR ''='' \<notin> set k \<Longrightarrow> env_entry (k @ ''='' @ v) = Some (k, v)"
  by (simp add: env_entry_def cut_first)

lemma environ_map_append: "environ_map (xs @ ys) = environ_map ys @ environ_map xs"
  by (simp add: environ_map_def map_filter_def)

lemma environ_map_filter:
  "\<forall>kv v. env_entry kv = Some (k, v) \<longrightarrow> P kv \<Longrightarrow> map_of (environ_map (filter P es)) k = map_of (environ_map es) k"
proof (induction es)
  case (Cons e es)
  have c: "environ_map (e # xs) = environ_map xs @ environ_map [e]" for e xs
    using environ_map_append [of "[e]" xs] by simp
  have "map_of (environ_map [e]) k = None" if "\<not> P e"
    using that Cons.prems by (auto simp: environ_map_def map_filter_def split: option.splits)
  then show ?case
    using Cons.IH [OF Cons.prems] c [of e es] c [of e "filter P es"]
    by (cases "P e") (simp_all del: map_of_eq_None_iff add: map_add_def split: option.split)
qed simp

lemma server_env_get:
  "env_get (server_env ps bin t es) k =
     (case map_of [(tiamat_token_env, t_token_file t), (tiamat_url_env, t_url t), (''FAMILIAR_RUNTIME_BIN'', bin),
        (''PI_CODING_AGENT_DIR'', p_pi_dir ps), (''HERDR_CONFIG_PATH'', p_herdr_config ps),
        (''PATH'', bin @ prefixed (env_get es ''PATH''))] k of
        Some v \<Rightarrow> v | None \<Rightarrow> env_get es k)"
proof -
  let ?F = "filter (\<lambda>kv. env_key kv \<notin> set server_keys) es"
  let ?own = "[''PATH='' @ bin @ prefixed (env_get es ''PATH''), ''HERDR_CONFIG_PATH='' @ p_herdr_config ps,
    ''PI_CODING_AGENT_DIR='' @ p_pi_dir ps, ''FAMILIAR_RUNTIME_BIN='' @ bin, tiamat_url_env @ ''='' @ t_url t,
    tiamat_token_env @ ''='' @ t_token_file t]"
  let ?M = "[(tiamat_token_env, t_token_file t), (tiamat_url_env, t_url t), (''FAMILIAR_RUNTIME_BIN'', bin),
        (''PI_CODING_AGENT_DIR'', p_pi_dir ps), (''HERDR_CONFIG_PATH'', p_herdr_config ps),
        (''PATH'', bin @ prefixed (env_get es ''PATH''))]"
  have own: "environ_map ?own = ?M"
    by (simp add: environ_map_def map_filter_def env_entry_def tiamat_url_env_def tiamat_token_env_def)
  have E: "environ_map (server_env ps bin t es) = ?M @ environ_map ?F"
    unfolding server_env_def environ_map_append own by (rule refl)
  have F: "map_of (environ_map ?F) k = map_of (environ_map es) k" if "map_of ?M k = None"
  proof -
    from that have "k \<notin> set server_keys" by (auto simp: server_keys_def split: if_splits)
    then show ?thesis by (intro environ_map_filter) (auto dest: env_entry_key)
  qed
  define M where "M = ?M"
  show ?thesis
    using F unfolding env_get_def [of "server_env ps bin t es"] E M_def [symmetric] map_of_append
    by (cases "map_of M k") (simp_all add: map_add_def env_get_def)
qed


section \<open>The preflight comes first\<close>

lemma look_closed_same: "look_closed (same w0)"
  by (auto simp: look_closed_def intro: same_trans)

lemma stays_preflight: "stays (same w0) (preflight ps es)"
  unfolding preflight_def ready_def pointer_def validate_def resolve_tiamat_def read_tiamat_url_file_def
    check_token_file_def resolve_user_shell_def Let_def
  by (intro stays look_closed_same)

lemma seq_ok: "m w = (Inr x, w1) \<Longrightarrow> seq m f w = f x w1"
  by (simp add: seq_def)

lemma seq_failed: "m w = (Inl e, w1) \<Longrightarrow> seq m f w = (Inl e, w1)"
  by (simp add: seq_def)

text \<open>
  C33. Nothing is generated before everything is validated: when the runtime, the Tiamat settings or the
  shell are not in order, the preparation ends with that error and has changed nothing.
\<close>

theorem preflight_first:
  assumes "preflight ps es w = (Inl e, w1)"
  shows "prepare_herdr_environment renum order goos ex ps herdr es w = (Inl e, w1) \<and> same w w1"
proof
  show "prepare_herdr_environment renum order goos ex ps herdr es w = (Inl e, w1)"
    unfolding prepare_herdr_environment_def Let_def by (rule seq_failed [of "preflight ps es" w e w1, OF assms])
  show "same w w1" using wp_run [OF staysD [OF stays_preflight same_refl] assms] by simp
qed

section \<open>The prepared environment\<close>

lemma wp_result: "fst (m w) = Inr x \<Longrightarrow> wp m Q (\<lambda>_ _. True) w \<Longrightarrow> Q x (snd (m w))"
  by (cases "m w") (auto simp: wp_def)

definition prepared :: "paths \<Rightarrow> string list \<Rightarrow> world \<Rightarrow> herdr_environment option \<Rightarrow> bool" where
  "prepared ps es w r \<longleftrightarrow> (\<forall>h. r = Some h \<longrightarrow>
     (\<exists>w1. preflight ps es w = (Inr (he_runtime h, he_tiamat h, he_user_shell h, he_notes h), w1))
     \<and> he_env h = server_env ps (current_bin \<lparr>sdir = p_runtime_dir ps\<rparr>) (he_tiamat h) es)"

lemma result_all: "(\<And>x w'. Q x w') \<Longrightarrow> wp m Q (\<lambda>_ _. True) w"
  by (simp add: wp_def split: prod.split sum.split)

lemma wp_prepare: "wp (prepare_herdr_environment renum order goos ex ps herdr es) (\<lambda>r _. prepared ps es w r) (\<lambda>_ _. True) w"
proof (cases "preflight ps es w")
  case (Pair r w1)
  show ?thesis
  proof (cases r)
    case (Inl e)
    with Pair show ?thesis by (simp add: prepare_herdr_environment_def Let_def wp_def seq_def)
  next
    case (Inr x)
    obtain current t shell ns where x: "x = (current, t, shell, ns)" by (metis prod_cases4)
    let ?s = "\<lparr>sdir = p_runtime_dir ps\<rparr>"
    let ?k = "\<lambda>(current, t, shell, notes).
      seq (wrap (wrapf ''write pane shell launcher: %w'' [])
             (write_pane_shell order ps \<lparr>user_shell = shell, runtime_bin = current_bin ?s, login_shell = default_login goos\<rparr>)) (\<lambda>_.
      seq (wrap (wrapf ''project Pi profile from active runtime: %w'' []) (write_pi_profile renum ps ?s)) (\<lambda>done.
      case done of
        None \<Rightarrow> ret None
      | Some _ \<Rightarrow>
          seq (merge_config ps es) (\<lambda>_.
          seq (only_if (herdr \<noteq> []) (check_herdr_config ex herdr (server_env ps (current_bin ?s) t es))) (\<lambda>_.
          ret (Some \<lparr>he_runtime = current, he_user_shell = shell, he_tiamat = t, he_notes = notes,
             he_env = server_env ps (current_bin ?s) t es\<rparr>)))))"
    have "wp (?k x) (\<lambda>r _. prepared ps es w r) (\<lambda>_ _. True) w1"
      unfolding x prod.case wp_seq
    proof (rule result_all, rule result_all)
      fix r :: "unit option" and w2 :: world
      let ?h = "\<lparr>he_runtime = current, he_user_shell = shell, he_tiamat = t, he_notes = ns,
             he_env = server_env ps (current_bin ?s) t es\<rparr>"
      have "prepared ps es w (Some ?h)" by (simp add: prepared_def Pair Inr x)
      then show "wp (case r of None \<Rightarrow> ret None | Some _ \<Rightarrow> seq (merge_config ps es) (\<lambda>_.
          seq (only_if (herdr \<noteq> []) (check_herdr_config ex herdr (server_env ps (current_bin ?s) t es))) (\<lambda>_. ret (Some ?h))))
        (\<lambda>r _. prepared ps es w r) (\<lambda>_ _. True) w2"
        by (cases r) (auto simp: prepared_def simp del: wp_only_if intro!: result_all)
    qed
    moreover have "prepare_herdr_environment renum order goos ex ps herdr es w = ?k x w1"
      unfolding prepare_herdr_environment_def Let_def by (rule seq_ok) (simp add: Pair Inr)
    ultimately show ?thesis by (simp only: wp_def)
  qed
qed

lemma prepared_facts:
  assumes "prepare_herdr_environment renum order goos ex (paths_in d) herdr es w = (Inr (Some h), w')"
    and "store_ok \<lparr>sdir = p_runtime_dir (paths_in d)\<rparr> (vis (fs w))"
  shows "usable w (he_runtime h) \<and> link_of (vis (fs w)) \<lparr>sdir = p_runtime_dir (paths_in d)\<rparr> ''current'' = Some (he_runtime h)
    \<and> env_get (he_env h) ''PATH'' = current_bin \<lparr>sdir = p_runtime_dir (paths_in d)\<rparr> @ prefixed (env_get es ''PATH'')
    \<and> env_get (he_env h) ''FAMILIAR_TIAMAT_URL'' = t_url (he_tiamat h)
    \<and> (\<exists>w1 w2. resolve_tiamat (paths_in d) es w1 = (Inr (he_tiamat h), w2) \<and> same w w1)"
proof -
  let ?s = "\<lparr>sdir = p_runtime_dir (paths_in d)\<rparr>"
  from wp_run [OF wp_prepare assms(1)] obtain w1 where
    p: "preflight (paths_in d) es w = (Inr (he_runtime h, he_tiamat h, he_user_shell h, he_notes h), w1)"
    and e: "he_env h = server_env (paths_in d) (current_bin ?s) (he_tiamat h) es" by (auto simp: prepared_def)
  from p obtain w2 w3 where r: "ready ?s w = (Inr (he_runtime h), w2)" and t: "resolve_tiamat (paths_in d) es w2 = (Inr (he_tiamat h), w3)"
    by (auto simp: preflight_def seq_def ret_def split: prod.splits sum.splits)
  from wp_run [OF wp_ready [OF assms(2)] r]
  have "same w w2" "link_of (vis (fs w)) ?s ''current'' = Some (he_runtime h)" "usable w (he_runtime h)" by auto
  with t e show ?thesis by (auto simp: server_env_get tiamat_url_env_def tiamat_token_env_def)
qed

text \<open>
  A prepared environment rests on a usable runtime: the active pointer names a usable runtime, and the
  panes find that pointer's directory first on their \<open>PATH\<close>, with the Tiamat settings that were validated.
\<close>

theorem environment_prepared:
  assumes "prepare_herdr_environment renum order goos ex (paths_in d) herdr es w = (Inr (Some h), w')"
    and "store_ok \<lparr>sdir = p_runtime_dir (paths_in d)\<rparr> (vis (fs w))"
  shows "usable w (he_runtime h) \<and> link_of (vis (fs w)) \<lparr>sdir = p_runtime_dir (paths_in d)\<rparr> ''current'' = Some (he_runtime h)
    \<and> env_get (he_env h) ''PATH'' = current_bin \<lparr>sdir = p_runtime_dir (paths_in d)\<rparr> @ prefixed (env_get es ''PATH'')
    \<and> env_get (he_env h) ''FAMILIAR_TIAMAT_URL'' = t_url (he_tiamat h)
    \<and> (\<exists>w1 w2. resolve_tiamat (paths_in d) es w1 = (Inr (he_tiamat h), w2) \<and> same w w1)"
  using assms by (rule prepared_facts)

section \<open>A machine that is ready\<close>

definition demo_ready :: "string \<Rightarrow> world" where
  "demo_ready settings =
     \<lparr>fs = [([''d''], Dir o700), ([''d'', ''runtime''], Dir o700), ([''d'', ''runtime'', ''current''], Lnk ''/r''),
        ([''d'', ''secrets''], Dir o700), ([''d'', ''secrets'', ''tiamat.token''], Reg o600 ''x''),
        ([''r''], Dir o755), ([''r'', ''bin''], Dir o755), ([''r'', ''bin'', ''pi''], Reg o755 []),
        ([''r'', ''share''], Dir o755), ([''r'', ''share'', ''familiar-worker''], Dir o755),
        ([''r'', ''share'', ''familiar-worker'', ''profile''], Dir o755),
        ([''r'', ''share'', ''familiar-worker'', ''profile'', ''settings.json''], Reg o644 settings),
        ([''r'', ''share'', ''familiar-worker'', ''extensions''], Dir o755),
        ([''r'', ''share'', ''familiar-worker'', ''extensions'', ''tiamat''], Dir o755),
        ([''r'', ''share'', ''familiar-worker'', ''extensions'', ''tiamat'', ''index.ts''], Reg o644 []),
        ([''bin''], Dir o755), ([''bin'', ''fish''], Reg o755 [])],
      cwd = [], environ = [], faults = [], names = [0, 1, 2, 3], hist = []\<rparr>"

definition demo_environ :: "string list" where
  "demo_environ = [''SHELL=/bin/fish'', ''PATH=/bin'', ''HOME=/h'', ''FAMILIAR_TIAMAT_URL=http://r'', ''PATH=/usr/bin'']"

text \<open>
  A finding: settings that are the JSON value \<open>null\<close> leave the map nil, and the assignment to its
  \<open>extensions\<close> panics.
\<close>

lemma null_settings_panic:
  "fst (write_pi_profile Some (paths_in ''/d'') \<lparr>sdir = ''/d/runtime''\<rparr> (demo_ready ''null'')) = Inr None"
  by code_simp


theorem preflight_first_witness:
  "fst (prepare_herdr_environment Some id ''linux'' (\<lambda>c w. (([], None), [])) (paths_in ''/d'') ''herdr'' [''SHELL=/bin/fish''] (demo_ready ''{}''))
     = Inl (Errorf ''Tiamat router URL is required before the Herdr server starts: %w; write it to %s or set %s as an override''
             [''/d/secrets/tiamat.url'', ''FAMILIAR_TIAMAT_URL''] (Some (errorf ''URL file does not exist'' [])))"
proof -
  have "fst (preflight (paths_in ''/d'') [''SHELL=/bin/fish''] (demo_ready ''{}''))
      = Inl (Errorf ''Tiamat router URL is required before the Herdr server starts: %w; write it to %s or set %s as an override''
             [''/d/secrets/tiamat.url'', ''FAMILIAR_TIAMAT_URL''] (Some (errorf ''URL file does not exist'' [])))" by code_simp
  then obtain w1 where run: "preflight (paths_in ''/d'') [''SHELL=/bin/fish''] (demo_ready ''{}'')
      = (Inl (Errorf ''Tiamat router URL is required before the Herdr server starts: %w; write it to %s or set %s as an override''
             [''/d/secrets/tiamat.url'', ''FAMILIAR_TIAMAT_URL''] (Some (errorf ''URL file does not exist'' []))), w1)"
    by (metis prod.collapse)
  from preflight_first [OF run] show ?thesis by simp
qed

end
