(* ===== verification/PaneProps.thy ===== *)
theory PaneProps
  imports PaneShell Files "HOL-Library.Multiset"
begin

text \<open>
  What the pane shell adapter guarantees: the shell it accepts, the exact content of the generated
  files after a success, and what the merged Herdr configuration says.
\<close>

section \<open>Directories\<close>

lemma vis_prune: "p \<noteq> [] \<Longrightarrow> vis (fs_prune p f) q = (if prefix p q then None else vis f q)"
  by (simp add: vis_def nd_prune)

lemma wp_remove_all_visible:
  assumes "entry w p d c"
  shows "wp (os_remove_all p) (\<lambda>_ w'. \<forall>q. vis (fs w') q = (if prefix (d @ [c]) q then None else vis (fs w) q)) (\<lambda>_ _. True) w"
  unfolding os_remove_all_def
proof (rule wp_mutate)
  fix x g u w'
  assume a: "same w u" "moved g w w'"
    and "(case locate (fs u) (cwd u) False p of Inl ENOENT \<Rightarrow> Inr ((), fs u) | Inl e \<Rightarrow> Inl e
      | Inr q \<Rightarrow> Inr ((), fs_prune q (fs u))) = Inr (x, g)"
  then have "g = fs_prune (d @ [c]) (fs w)"
    using assms entry_locate [of u p d c "cwd u"] by (simp add: entry_same same_fs)
  with a(2) show "\<forall>q. vis (fs w') q = (if prefix (d @ [c]) q then None else vis (fs w) q)"
    by (simp add: moved_def vis_prune)
qed simp

lemma resolve_child:
  assumes "real_dir (nd f) d" "\<forall>e \<in> set (d @ [c]). plain e" "\<forall>t. nd f (d @ [c]) \<noteq> Some (Lnk t)"
  shows "resolve f fl n [] (d @ [c]) = Inr (d @ [c])"
proof -
  have "resolve f fl n [] (d @ [c]) = resolve f fl n d [c]"
    using resolve_real [of d f "[]" fl n "[c]"] assms(1,2) by (simp add: real_dir_def)
  then show ?thesis using assms(2,3) by (auto simp: plain_def split: option.splits node.splits)
qed

text \<open>One directory more: a missing one is made, one that is there stays.\<close>

definition with_dir :: "nat \<Rightarrow> path \<Rightarrow> view \<Rightarrow> view" where
  "with_dir m p v = (case v p of Some (Dir k) \<Rightarrow> v | _ \<Rightarrow> v(p \<mapsto> Dir m))"

lemma wp_mkdir_step_visible:
  assumes "real_dir (vis (fs w)) d" "\<forall>e \<in> set (d @ [c]). plain e" "\<not> temp_name c"
    and "vis (fs w) (d @ [c]) = None \<or> (\<exists>k. vis (fs w) (d @ [c]) = Some (Dir k))"
  shows "wp (mkdir_step m [] (d @ [c])) (\<lambda>_ w'. vis (fs w') = with_dir m (d @ [c]) (vis (fs w))) (\<lambda>_ _. True) w"
  unfolding mkdir_step_def
proof (rule wp_mutate)
  fix x g u w'
  assume a: "same w u" "moved g w w'"
    and f: "bind_ok (resolve (fs u) False max_links [] (d @ [c])) (\<lambda>q0.
        bind_ok (resolve (fs u) True max_links [] (d @ [c])) (\<lambda>q.
          case nd (fs u) q of
            Some (Dir _) \<Rightarrow> Inr ((), fs u)
          | Some _ \<Rightarrow> Inl ENOTDIR
          | None \<Rightarrow> if q0 = q then Inr ((), fs_upd q (Dir m) (fs u)) else Inl EEXIST)) = Inr (x, g)"
  have h: "\<not> hidden (d @ [c])" using real_dir_visible [OF assms(1)] assms(3) by simp
  then have v: "vis (fs w) (d @ [c]) = nd (fs w) (d @ [c])" by (rule vis_visible)
  have "resolve (fs w) fl max_links [] (d @ [c]) = Inr (d @ [c])" for fl
    by (rule resolve_child [OF real_dir_nd [OF assms(1)] assms(2)]) (use assms(4) v in auto)
  with f have "g = (case vis (fs w) (d @ [c]) of Some (Dir k) \<Rightarrow> fs w | _ \<Rightarrow> fs_upd (d @ [c]) (Dir m) (fs w))"
    using assms(4) v by (auto simp: same_fs [OF a(1)] split: option.splits)
  with a(2) h show "vis (fs w') = with_dir m (d @ [c]) (vis (fs w))"
    by (auto simp: moved_def with_dir_def split: option.splits node.splits)
qed simp

lemma real_dir_with_dir: "real_dir v d \<Longrightarrow> real_dir (with_dir m (d @ [c]) v) (d @ [c])"
  by (auto simp: with_dir_def real_dir_snoc real_dir_upd split: option.splits node.splits)

fun with_dirs :: "nat \<Rightarrow> path \<Rightarrow> string list \<Rightarrow> view \<Rightarrow> view" where
  "with_dirs m d [] v = v"
| "with_dirs m d (c # cs) v = with_dirs m (d @ [c]) cs (with_dir m (d @ [c]) v)"

fun can_make :: "path \<Rightarrow> string list \<Rightarrow> view \<Rightarrow> bool" where
  "can_make d [] v = True"
| "can_make d (c # cs) v = ((v (d @ [c]) = None \<or> (\<exists>k. v (d @ [c]) = Some (Dir k))) \<and> can_make (d @ [c]) cs v)"

lemma can_make_with_dir: "can_make (d @ [c]) cs v \<Longrightarrow> can_make (d @ [c]) cs (with_dir m (d @ [c]) v)"
proof -
  have "can_make e cs v \<Longrightarrow> prefix p e \<Longrightarrow> can_make e cs (with_dir m p v)" for e p
    by (induction cs arbitrary: e) (auto simp: with_dir_def prefix_def split: option.splits node.splits)
  then show "can_make (d @ [c]) cs v \<Longrightarrow> ?thesis" by simp
qed

lemma wp_mkdir_steps_visible:
  assumes "real_dir (vis (fs w)) d" "\<forall>e \<in> set (d @ cs). plain e" "\<forall>c \<in> set cs. \<not> temp_name c" "can_make d cs (vis (fs w))"
  shows "wp (mkdir_steps m [] d cs) (\<lambda>_ w'. vis (fs w') = with_dirs m d cs (vis (fs w))) (\<lambda>_ _. True) w"
  using assms
proof (induction cs arbitrary: d w)
  case (Cons c cs)
  have step: "wp (mkdir_step m [] (d @ [c])) (\<lambda>_ w'. vis (fs w') = with_dir m (d @ [c]) (vis (fs w))) (\<lambda>_ _. True) w"
    using Cons.prems by (intro wp_mkdir_step_visible) auto
  have rest: "wp (mkdir_steps m [] (d @ [c]) cs) (\<lambda>_ w'. vis (fs w') = with_dirs m d (c # cs) (vis (fs w))) (\<lambda>_ _. True) w1"
    if "vis (fs w1) = with_dir m (d @ [c]) (vis (fs w))" for w1
  proof -
    have "wp (mkdir_steps m [] (d @ [c]) cs) (\<lambda>_ w'. vis (fs w') = with_dirs m (d @ [c]) cs (vis (fs w1))) (\<lambda>_ _. True) w1"
      using Cons.prems by (intro Cons.IH) (auto simp: that real_dir_with_dir can_make_with_dir)
    then show ?thesis by (simp add: that)
  qed
  show ?case
    unfolding mkdir_steps.simps wp_seq by (rule wp_mono [OF step]) (use rest in simp_all)
qed simp

lemma can_make_real:
  "(\<forall>q. prefix q ds \<longrightarrow> (\<exists>k. v (e @ q) = Some (Dir k))) \<Longrightarrow> can_make (e @ ds) cs v \<Longrightarrow> can_make e (ds @ cs) v"
proof (induction ds arbitrary: e)
  case (Cons d ds)
  have "\<exists>k. v (e @ [d]) = Some (Dir k)" using Cons.prems(1) by (auto dest: spec [of _ "[d]"])
  moreover have "\<forall>q. prefix q ds \<longrightarrow> (\<exists>k. v ((e @ [d]) @ q) = Some (Dir k))"
  proof (intro allI impI)
    fix q
    assume "prefix q ds"
    then have "prefix (d # q) (d # ds)" by simp
    with Cons.prems(1) have "\<exists>k. v (e @ d # q) = Some (Dir k)" by blast
    then show "\<exists>k. v ((e @ [d]) @ q) = Some (Dir k)" by simp
  qed
  ultimately show ?case using Cons.IH [of "e @ [d]"] Cons.prems(2) by simp
qed simp

lemma with_dirs_real:
  "(\<forall>q. prefix q ds \<longrightarrow> (\<exists>k. v (e @ q) = Some (Dir k))) \<Longrightarrow> with_dirs m e (ds @ cs) v = with_dirs m (e @ ds) cs v"
proof (induction ds arbitrary: e)
  case (Cons d ds)
  have "\<exists>k. v (e @ [d]) = Some (Dir k)" using Cons.prems(1) by (auto dest: spec [of _ "[d]"])
  then obtain k where "v (e @ [d]) = Some (Dir k)" by blast
  moreover have "\<forall>q. prefix q ds \<longrightarrow> (\<exists>k. v ((e @ [d]) @ q) = Some (Dir k))"
  proof (intro allI impI)
    fix q
    assume "prefix q ds"
    then have "prefix (d # q) (d # ds)" by simp
    with Cons.prems(1) have "\<exists>k. v (e @ d # q) = Some (Dir k)" by blast
    then show "\<exists>k. v ((e @ [d]) @ q) = Some (Dir k)" by simp
  qed
  ultimately show ?case using Cons.IH [of "e @ [d]"] by (simp add: with_dir_def)
qed simp

lemma wp_mkdir_all_visible:
  assumes "canonical p" "elems p = d @ cs" "real_dir (vis (fs w)) d" "\<forall>c \<in> set cs. \<not> temp_name c" "can_make d cs (vis (fs w))"
  shows "wp (os_mkdir_all p m) (\<lambda>_ w'. vis (fs w') = with_dirs m d cs (vis (fs w))) (\<lambda>_ _. True) w"
proof -
  have abs: "is_abs p" using assms(1) by (simp add: canonical_def)
  have r: "\<forall>q. prefix q d \<longrightarrow> (\<exists>k. vis (fs w) ([] @ q) = Some (Dir k))" using assms(3) by (simp add: real_dir_def)
  have root: "real_dir (vis (fs w)) []" using assms(3) real_dir_prefix [of _ d "[]"] by simp
  have "\<forall>c \<in> set (d @ cs). \<not> temp_name c"
    using assms(4) real_dir_visible [OF assms(3)] by (auto simp: hidden_def list_ex_set)
  moreover have "\<forall>e \<in> set (d @ cs). plain e" using canonical_elems [OF assms(1)] assms(2) by simp
  ultimately have "wp (mkdir_steps m [] [] (d @ cs)) (\<lambda>_ w'. vis (fs w') = with_dirs m [] (d @ cs) (vis (fs w))) (\<lambda>_ _. True) w"
    using can_make_real [OF r, of cs] assms(5) root by (intro wp_mkdir_steps_visible) auto
  then show ?thesis
    using with_dirs_real [OF r, of m cs] abs assms(2) by (simp add: wp_def os_mkdir_all_def)
qed

section \<open>Files\<close>

text \<open>The files of a generation as a map of locations, and the conditions under which they install.\<close>

definition file_nodes :: "path \<Rightarrow> (string \<times> string) list \<Rightarrow> (path \<times> node) list" where
  "file_nodes d files = map (\<lambda>(rel, c). (d @ split_on SLASH rel, Reg (pane_file_mode rel) c)) files"

definition installs :: "string \<Rightarrow> view \<Rightarrow> string \<Rightarrow> bool" where
  "installs d v rel \<longleftrightarrow> file_ready (path_join [d, rel]) v \<and> elems (path_join [d, rel]) = elems d @ split_on SLASH rel"

lemma wp_install_files:
  assumes "\<forall>(rel, c) \<in> set files. installs d (vis (fs w)) rel"
    and "\<forall>(rel, c) \<in> set files. \<forall>(rel', c') \<in> set files. \<not> prefix (elems d @ split_on SLASH rel) (butlast (elems d @ split_on SLASH rel'))"
    and "distinct (map fst (file_nodes (elems d) files))"
  shows "wp (install_files d files)
    (\<lambda>_ w'. \<forall>q. vis (fs w') q = (case map_of (file_nodes (elems d) files) q of Some n \<Rightarrow> Some n | None \<Rightarrow> vis (fs w) q)) (\<lambda>_ _. True) w"
  using assms
proof (induction files arbitrary: w)
  case (Cons f files)
  obtain rel c where f: "f = (rel, c)" by (cases f)
  let ?p = "elems d @ split_on SLASH rel" and ?n = "Reg (pane_file_mode rel) c"
  have i: "file_ready (path_join [d, rel]) (vis (fs w))" "elems (path_join [d, rel]) = ?p"
    using Cons.prems(1) f by (auto simp: installs_def)
  have step: "wp (atomic_write (path_join [d, rel]) c (pane_file_mode rel)) (\<lambda>_ w'. vis (fs w') = (vis (fs w))(?p \<mapsto> ?n)) (\<lambda>_ _. True) w"
    by (rule wp_mono [OF wp_atomic_write [OF i(1)]]) (use i(2) in \<open>simp_all add: commits_def\<close>)
  have rest: "wp (install_files d files)
      (\<lambda>_ w'. \<forall>q. vis (fs w') q = (case map_of (file_nodes (elems d) (f # files)) q of Some n \<Rightarrow> Some n | None \<Rightarrow> vis (fs w) q)) (\<lambda>_ _. True) w1"
    if w1: "vis (fs w1) = (vis (fs w))(?p \<mapsto> ?n)" for w1
  proof -
    have "\<forall>(rel, c) \<in> set files. installs d (vis (fs w1)) rel"
      using Cons.prems(1,2) f by (fastforce simp: w1 installs_def file_ready_def real_dir_upd)
    then have "wp (install_files d files)
      (\<lambda>_ w'. \<forall>q. vis (fs w') q = (case map_of (file_nodes (elems d) files) q of Some n \<Rightarrow> Some n | None \<Rightarrow> vis (fs w1) q)) (\<lambda>_ _. True) w1"
    proof (rule Cons.IH)
      show "\<forall>(rel, c) \<in> set files. \<forall>(rel', c') \<in> set files. \<not> prefix (elems d @ split_on SLASH rel) (butlast (elems d @ split_on SLASH rel'))"
        using Cons.prems(2) by auto
      show "distinct (map fst (file_nodes (elems d) files))" using Cons.prems(3) by (simp add: file_nodes_def)
    qed
    moreover have "map_of (file_nodes (elems d) files) ?p = None"
      using Cons.prems(3) f by (auto simp: file_nodes_def map_of_eq_None_iff image_image case_prod_beta)
    ultimately show ?thesis
      by (elim wp_mono) (auto simp: w1 f file_nodes_def split: option.splits)
  qed
  show ?case
    unfolding f install_files.simps wp_seq wp_wrap by (rule wp_mono [OF step]) (use rest f in simp_all)
qed (simp add: file_nodes_def)

section \<open>The generated files\<close>

definition pane_names :: "string list list" where
  "pane_names = [[''pane-shell''], [''shell'', ''bashrc''], [''shell'', ''posix-env''], [''shell'', ''zdotdir'', ''.zshenv''],
     [''shell'', ''zdotdir'', ''.zprofile''], [''shell'', ''zdotdir'', ''.zshrc''], [''shell'', ''zdotdir'', ''.zlogin'']]"

lemma pane_names_ok:
  "list_all (\<lambda>cs. cs \<noteq> [] \<and> list_all plain cs \<and> \<not> temp_name (last cs)
     \<and> butlast cs \<in> set [[], [''shell''], [''shell'', ''zdotdir'']]
     \<and> list_all (\<lambda>cs'. \<not> prefix cs (butlast cs')) pane_names) pane_names"
  by code_simp

lemma generate_names:
  assumes "generate_pane_shell ps spec = Inr files"
  shows "(\<forall>(rel, c) \<in> set files. \<exists>cs \<in> set pane_names. rel = join [SLASH] cs) \<and> distinct (map fst files)"
proof -
  have j: "join [SLASH] [''shell'', ''bashrc''] = ''shell/bashrc''" "join [SLASH] [''shell'', ''posix-env''] = ''shell/posix-env''"
    "join [SLASH] [''shell'', ''zdotdir'', ''.zshenv''] = ''shell/zdotdir/.zshenv''"
    "join [SLASH] [''shell'', ''zdotdir'', ''.zprofile''] = ''shell/zdotdir/.zprofile''"
    "join [SLASH] [''shell'', ''zdotdir'', ''.zshrc''] = ''shell/zdotdir/.zshrc''"
    "join [SLASH] [''shell'', ''zdotdir'', ''.zlogin''] = ''shell/zdotdir/.zlogin''" "join [SLASH] [''pane-shell''] = ''pane-shell''"
    by simp_all
  obtain fam shell_dir bin launch where "files = family_files fam shell_dir bin @ [(''pane-shell'', launch)]"
    using assms by (auto simp: generate_pane_shell_def Let_def split: if_splits)
  then show ?thesis
    by (cases fam) (simp_all add: family_files_def pane_names_def j)
qed

lemma installs_rel:
  assumes "canonical d" "cs \<noteq> []" "list_all plain cs" "\<not> temp_name (last cs)" "real_dir v (elems d @ butlast cs)"
  shows "installs d v (join [SLASH] cs)" "split_on SLASH (join [SLASH] cs) = cs"
proof -
  have d: "d \<noteq> []" using assms(1) by (auto simp: canonical_def)
  have pl: "\<forall>c \<in> set cs. plain c" using assms(3) by (simp add: list_all_iff)
  have "path_join [d, join [SLASH] cs] = path_join (d # cs)"
    using assms(2) d by (cases cs) (simp_all add: path_join.simps)
  then have e: "canonical (path_join [d, join [SLASH] cs])" "elems (path_join [d, join [SLASH] cs]) = elems d @ cs"
    using path_join_canonical [OF assms(1) pl] by simp_all
  show sp: "split_on SLASH (join [SLASH] cs) = cs"
    using assms(2) pl by (intro split_on_join) (auto simp: plain_def)
  show "installs d v (join [SLASH] cs)"
    using e assms(2,4,5) by (simp add: installs_def sp file_ready_def butlast_append)
qed

definition pane_tree :: "path \<Rightarrow> (string \<times> string) list \<Rightarrow> view \<Rightarrow> view" where
  "pane_tree d files v q =
     (case map_of (file_nodes d files) q of
        Some n \<Rightarrow> Some n
      | None \<Rightarrow>
          if q = d @ [''shell''] \<or> q = d @ [''shell'', ''zdotdir''] then Some (Dir o700)
          else if prefix (d @ [''shell'']) q then None else v q)"

lemma file_nodes_distinct:
  assumes "\<forall>(rel, c) \<in> set files. \<exists>cs \<in> set pane_names. rel = join [SLASH] cs" "distinct (map fst files)"
  shows "distinct (map fst (file_nodes d files))"
proof -
  have inj: "split_on SLASH r = split_on SLASH r' \<Longrightarrow> r = r'" for r r' by (metis join_split_on)
  have "map fst (file_nodes d files) = map (\<lambda>r. d @ split_on SLASH r) (map fst files)"
    by (simp add: file_nodes_def comp_def case_prod_beta)
  moreover have "distinct (map (\<lambda>r. d @ split_on SLASH r) (map fst files))"
    using assms(2) inj by (subst distinct_map) (auto simp: inj_on_def)
  ultimately show ?thesis by simp
qed

lemma wp_install_pane:
  assumes gen: "generate_pane_shell ps spec = Inr files" and ord: "mset files' = mset files"
    and d: "canonical d" and dirs: "\<forall>e \<in> set [[], [''shell''], [''shell'', ''zdotdir'']]. real_dir (vis (fs w)) (elems d @ e)"
  shows "wp (install_files d files')
    (\<lambda>_ w'. \<forall>q. vis (fs w') q = (case map_of (file_nodes (elems d) files) q of Some n \<Rightarrow> Some n | None \<Rightarrow> vis (fs w) q)) (\<lambda>_ _. True) w"
proof -
  note names = generate_names [OF gen]
  have set: "set files' = set files" using ord by (rule mset_eq_setD)
  have rel: "\<exists>cs \<in> set pane_names. rel = join [SLASH] cs \<and> installs d (vis (fs w)) rel \<and> split_on SLASH rel = cs"
    if "(rel, c) \<in> set files'" for rel c
  proof -
    have "(rel, c) \<in> set files" using that set by simp
    with names obtain cs where cs: "cs \<in> set pane_names" "rel = join [SLASH] cs" by blast
    then have ok: "cs \<noteq> []" "list_all plain cs" "\<not> temp_name (last cs)" "butlast cs \<in> set [[], [''shell''], [''shell'', ''zdotdir'']]"
      using pane_names_ok by (auto simp: list_all_iff)
    then have "real_dir (vis (fs w)) (elems d @ butlast cs)" using dirs by blast
    from installs_rel [OF d ok(1-3) this] cs show ?thesis by blast
  qed
  have m: "mset (file_nodes (elems d) files') = mset (file_nodes (elems d) files)" using ord by (simp add: file_nodes_def)
  have dist: "distinct (map fst (file_nodes (elems d) files))" using names by (intro file_nodes_distinct) auto
  then have dist': "distinct (map fst (file_nodes (elems d) files'))"
    using m by (metis mset_eq_imp_distinct_iff mset_map)
  have "map_of (file_nodes (elems d) files') = map_of (file_nodes (elems d) files)"
    using dist dist' mset_eq_setD [OF m] by (simp add: map_of_inject_set)
  moreover have "wp (install_files d files')
    (\<lambda>_ w'. \<forall>q. vis (fs w') q = (case map_of (file_nodes (elems d) files') q of Some n \<Rightarrow> Some n | None \<Rightarrow> vis (fs w) q)) (\<lambda>_ _. True) w"
  proof (rule wp_install_files [OF _ _ dist'])
    show "\<forall>(rel, c) \<in> set files'. installs d (vis (fs w)) rel" using rel by blast
    show "\<forall>(rel, c) \<in> set files'. \<forall>(rel', c') \<in> set files'. \<not> prefix (elems d @ split_on SLASH rel) (butlast (elems d @ split_on SLASH rel'))"
    proof (clarify)
      fix r c r' c'
      assume a: "(r, c) \<in> set files'" "(r', c') \<in> set files'" "prefix (elems d @ split_on SLASH r) (butlast (elems d @ split_on SLASH r'))"
      obtain x y where "x \<in> set pane_names" "y \<in> set pane_names" "split_on SLASH r = x" "split_on SLASH r' = y"
        using rel [OF a(1)] rel [OF a(2)] by blast
      with a(3) pane_names_ok show False by (auto simp: list_all_iff butlast_append split: if_splits)
    qed
  qed
  ultimately show ?thesis by simp
qed

text \<open>
  C30. A successful \<open>WritePaneShell\<close> has generated exactly its files: whatever was below the \<open>shell\<close>
  directory is gone, the files of the user's shell family are there with their modes and contents, and
  nothing else visible has changed.  It does not matter in which order Go ranges over the map.
\<close>

theorem pane_shell_exact:
  assumes "state_ready d (vis (fs w))" "generate_pane_shell (paths_in d) spec = Inr files"
    and "mset (order files) = mset files" "write_pane_shell order (paths_in d) spec w = (Inr u, w')"
  shows "vis (fs w') = pane_tree (elems d) files (vis (fs w))"
proof -
  let ?D = "elems d" and ?v = "vis (fs w)" and ?s = "path_join [d, ''shell'']"
  define v1 where "v1 = (\<lambda>q. if prefix (?D @ [''shell'']) q then None else ?v q)"
  define v2 where "v2 = v1(?D @ [''shell''] \<mapsto> Dir o700, ?D @ [''shell'', ''zdotdir''] \<mapsto> Dir o700)"
  have d: "canonical d" "real_dir ?v ?D" using assms(1) by (simp_all add: state_ready_def state_dir_ok_def)
  have pl: "plain ''shell''" "plain ''zdotdir''" "\<not> temp_name ''shell''" "\<not> temp_name ''zdotdir''"
    by (simp_all add: plain_def temp_name_def)
  have s: "canonical ?s" "elems ?s = ?D @ [''shell'']" using state_path [OF d(1) pl(1)] by auto
  have z: "canonical (path_join [?s, ''zdotdir''])" "elems (path_join [?s, ''zdotdir'']) = ?D @ [''shell'', ''zdotdir'']"
    using state_path [OF s(1) pl(2)] s(2) by auto
  have r1: "real_dir v1 ?D" using d(2) by (auto simp: real_dir_def v1_def prefix_def)
  have w2: "with_dirs o700 ?D [''shell'', ''zdotdir''] v1 = v2"
    by (simp add: v2_def with_dir_def v1_def)
  have "real_dir v2 ?D" using r1 by (simp add: v2_def real_dir_upd)
  then have dirs: "\<forall>e \<in> set [[], [''shell''], [''shell'', ''zdotdir'']]. real_dir v2 (?D @ e)"
    using real_dir_snoc [of v2 "?D @ [''shell'']" "''zdotdir''"] by (simp add: real_dir_snoc v2_def)
  have inst: "wp (install_files d (order files)) (\<lambda>_ w'. vis (fs w') = pane_tree ?D files ?v) (\<lambda>_ _. True) w2"
    if "vis (fs w2) = v2" for w2
  proof (rule wp_mono [OF wp_install_pane [OF assms(2,3) d(1)]])
    show "\<forall>e \<in> set [[], [''shell''], [''shell'', ''zdotdir'']]. real_dir (vis (fs w2)) (?D @ e)"
      unfolding that by (rule dirs)
    fix u w'
    assume a: "\<forall>q. vis (fs w') q = (case map_of (file_nodes ?D files) q of Some n \<Rightarrow> Some n | None \<Rightarrow> vis (fs w2) q)"
    have b: "vis (fs w2) q = (if q = ?D @ [''shell''] \<or> q = ?D @ [''shell'', ''zdotdir''] then Some (Dir o700)
        else if prefix (?D @ [''shell'']) q then None else ?v q)" for q
      unfolding that v2_def v1_def by simp
    show "vis (fs w') = pane_tree ?D files ?v"
      unfolding pane_tree_def fun_eq_iff a [rule_format] b by (rule allI) (rule refl)
  qed simp
  have mk: "wp (os_mkdir_all (path_join [?s, ''zdotdir'']) o700) (\<lambda>_. wp (install_files d (order files))
      (\<lambda>_ w'. vis (fs w') = pane_tree ?D files ?v) (\<lambda>_ _. True)) (\<lambda>_ _. True) w1" if v: "vis (fs w1) = v1" for w1
  proof -
    have "wp (os_mkdir_all (path_join [?s, ''zdotdir'']) o700) (\<lambda>_ w'. vis (fs w') = v2) (\<lambda>_ _. True) w1"
      using wp_mkdir_all_visible [of _ ?D "[''shell'', ''zdotdir'']" w1 o700, OF z] r1 pl by (simp add: v w2 [symmetric] v1_def)
    then show ?thesis by (rule wp_mono) (use inst in auto)
  qed
  have "entry w ?s ?D ''shell''" using s d(2) by (intro entryI)
  from wp_remove_all_visible [OF this]
  have "wp (os_remove_all ?s) (\<lambda>_ w'. vis (fs w') = v1) (\<lambda>_ _. True) w" by (simp add: v1_def fun_eq_iff)
  then have "wp (write_pane_shell order (paths_in d) spec) (\<lambda>_ w'. vis (fs w') = pane_tree ?D files ?v) (\<lambda>_ _. True) w"
    unfolding write_pane_shell_def wp_seq assms(2) wp_lift sum.case p_dir_paths_in
    by (rule wp_mono) (use mk in auto)
  from wp_run [OF this assms(4)] show ?thesis by simp
qed

text \<open>
  The shell that \<open>ResolveUserShell\<close> takes from the environment is an absolute path to an executable
  regular file, is not the launcher, lies not in the state directory, and can be quoted: the
  generation of the launcher accepts it.
\<close>

theorem user_shell_accepted:
  assumes "resolve_user_shell s ps w = (Inr (sh, note), w')" "trim_space s \<noteq> []"
  shows "same w w' \<and> sh = trim_space s \<and> note = [] \<and> is_abs sh \<and> sh \<noteq> p_pane_shell ps \<and> path_dir sh \<noteq> p_dir ps
    \<and> (\<exists>m b. node_at True sh w = Inr (Reg m b) \<and> m AND o111 \<noteq> 0)
    \<and> (is_abs bin \<longrightarrow> \<not> contains_any bin [CHR '':'', CR, LF, SQUOTE] \<longrightarrow>
        is_ok (generate_pane_shell ps \<lparr>user_shell = sh, runtime_bin = bin, login_shell = b\<rparr>))"
proof -
  let ?sh = "trim_space s"
  have "wp (resolve_user_shell s ps) (\<lambda>(sh, note) w'. same w w' \<and> sh = ?sh \<and> note = [] \<and> is_abs sh
      \<and> \<not> contains_any sh [CR, LF, SQUOTE] \<and> sh \<noteq> p_pane_shell ps \<and> path_dir sh \<noteq> p_dir ps
      \<and> (\<exists>m b. node_at True sh w = Inr (Reg m b) \<and> m AND o111 \<noteq> 0)) (\<lambda>_ _. True) w"
    using assms(2) unfolding resolve_user_shell_def Let_def
    by (auto intro!: wp_stat simp: info_kind_reg)
  from wp_run [OF this assms(1)] show ?thesis
    by (auto simp: generate_pane_shell_def Let_def)
qed

section \<open>The merged configuration\<close>

text \<open>
  How a configuration is read, line by line: which table a line is in, the lines that set the shell, and
  the lines that the merge keeps.
\<close>

definition step_table :: "bool \<Rightarrow> string \<Rightarrow> bool" where
  "step_table t l = (case toml_table_header (trim_space l) of Some name \<Rightarrow> name = ''terminal'' | None \<Rightarrow> t)"

definition sets_shell :: "bool \<Rightarrow> string \<Rightarrow> bool" where
  "sets_shell t l \<longleftrightarrow> toml_table_header (trim_space l) = None \<and> overridden t (toml_key (trim_space l))"

fun shell_settings :: "bool \<Rightarrow> string list \<Rightarrow> string list" where
  "shell_settings t [] = []"
| "shell_settings t (l # ls) = (if sets_shell t l then [l] else []) @ shell_settings (step_table t l) ls"

fun other_lines :: "bool \<Rightarrow> string list \<Rightarrow> string list" where
  "other_lines t [] = []"
| "other_lines t (l # ls) = (if sets_shell t l then [] else [l]) @ other_lines (step_table t l) ls"

fun end_table :: "bool \<Rightarrow> string list \<Rightarrow> bool" where
  "end_table t [] = t"
| "end_table t (l # ls) = end_table (step_table t l) ls"

lemma shell_settings_append: "shell_settings t (xs @ ys) = shell_settings t xs @ shell_settings (end_table t xs) ys"
  by (induction xs arbitrary: t) simp_all

text \<open>The managed lines, seen as lines.\<close>

abbreviation shell_line :: "string \<Rightarrow> string" where
  "shell_line pane \<equiv> ''default_shell = '' @ toml_string pane"

abbreviation mode_line :: string where
  \<open>mode_line \<equiv> ''shell_mode = "non_login"''\<close>

lemma trim_space_ends:
  assumes "is_ascii a" "\<not> ascii_space a" "is_ascii z" "\<not> ascii_space z"
  shows "trim_space (a # s @ [z]) = a # s @ [z]"
proof -
  have "space_width (a # s @ [z]) = 0" "space_width_end ((a # s) @ [z]) = 0"
    using space_width_ascii [of a "s @ [z]"] space_width_end_ascii [of z "a # s"] assms by simp_all
  then show ?thesis by (simp add: trim_space_def trim_left_space_id trim_right_space_id)
qed

lemma trim_shell_line: "trim_space (shell_line pane) = shell_line pane"
proof -
  have "is_ascii (CHR ''d'')" "\<not> ascii_space (CHR ''d'')" "is_ascii DQUOTE" "\<not> ascii_space DQUOTE" by code_simp+
  from trim_space_ends [OF this, of "''efault_shell = '' @ butlast (toml_string pane)"] show ?thesis
    by (simp add: toml_string_def)
qed

lemma shell_line_key: "toml_key (shell_line pane) = ''default_shell''" "toml_table_header (shell_line pane) = None"
proof -
  have "trim_space ''default_shell '' = ''default_shell''" by code_simp
  then show "toml_key (shell_line pane) = ''default_shell''" by (simp add: toml_key_def index_byte_def)
  show "toml_table_header (shell_line pane) = None" by (simp add: toml_table_header_def)
qed

lemma managed_settings:
  "shell_settings True (managed_lines pane @ ys) = [shell_line pane, mode_line] @ shell_settings True ys"
proof -
  let ?c = "''# Managed by familiar-fleet: environment adapter around the user's shell.''"
  have c: "\<not> sets_shell True ?c" "step_table True ?c" "sets_shell True mode_line" "step_table True mode_line" by code_simp+
  have l: "sets_shell True (shell_line pane)" "step_table True (shell_line pane)"
    by (simp_all only: sets_shell_def step_table_def trim_shell_line shell_line_key overridden_def) simp_all
  show ?thesis unfolding managed_lines_def append_Cons append_Nil shell_settings.simps using c l by (simp only: if_True if_False append_Nil append_Cons simp_thms)
qed

lemma merge_lines_reads:
  assumes "merge_lines (managed_lines pane) t ls = (out, found)"
  shows "set (shell_settings t out) = (if found then {shell_line pane, mode_line} else {})
    \<and> subseq (other_lines t ls) out \<and> set out \<subseteq> set ls \<union> set (managed_lines pane)"
  using assms
proof (induction ls arbitrary: t out found)
  case (Cons l ls)
  show ?case
  proof (cases "toml_table_header (trim_space l)")
    case None
    obtain out1 f1 where r: "merge_lines (managed_lines pane) t ls = (out1, f1)" by (rule prod.exhaust)
    have st: "step_table t l = t" using None by (simp add: step_table_def)
    have s: "sets_shell t l \<longleftrightarrow> overridden t (toml_key (trim_space l))" using None by (simp add: sets_shell_def)
    from Cons.prems have "out = (if sets_shell t l then out1 else l # out1)" "found = f1"
      by (simp_all add: None r s)
    with Cons.IH [OF r] show ?thesis by (auto simp: st)
  next
    case (Some name)
    let ?t = "name = ''terminal''"
    obtain out1 f1 where r: "merge_lines (managed_lines pane) ?t ls = (out1, f1)" by (rule prod.exhaust)
    have st: "step_table t l = ?t" using Some by (simp add: step_table_def)
    have s: "\<not> sets_shell t l" using Some by (simp add: sets_shell_def)
    from Cons.prems have o: "out = l # (if ?t then managed_lines pane else []) @ out1" "found = (?t \<or> f1)"
      by (simp_all add: Some r Let_def)
    show ?thesis
    proof (cases ?t)
      case True
      then have "shell_settings t out = [shell_line pane, mode_line] @ shell_settings True out1"
        using o(1) s st managed_settings by simp
      moreover have "subseq (other_lines t (l # ls)) out"
        using Cons.IH [OF r] True o(1) s st by (auto intro: list_emb_append2)
      ultimately show ?thesis using Cons.IH [OF r] True o by auto
    next
      case False
      then show ?thesis using Cons.IH [OF r] o s st by auto
    qed
  qed
qed simp

lemma managed_no_break: "LF \<notin> set pane \<Longrightarrow> \<forall>l \<in> set (managed_lines pane). LF \<notin> set l"
  by (auto simp: managed_lines_def toml_string_def replace_bytes_def split: if_splits)

lemma config_lines_no_break: "\<forall>l \<in> set (config_lines cfg). LF \<notin> set l"
  by (auto simp: config_lines_def dest: split_on_parts_no_sep)

lemma merge_total: "NUL \<notin> set cfg \<Longrightarrow> \<exists>out. merge_herdr_config cfg pane = Inr out"
  by (simp add: merge_herdr_config_def split: prod.split)


section \<open>Findings\<close>

text \<open>
  The line editing knows no array of tables: after \<open>[terminal]\<close>, the lines under \<open>[[panes]]\<close> count as
  lines of the terminal table, and a \<open>default_shell\<close> there is dropped.
\<close>

lemma merge_drops_array_key:
  \<open>other_lines False [''[terminal]'', ''[[panes]]'', ''default_shell = "zsh"''] = [''[terminal]'', ''[[panes]]'']\<close>
  by code_simp

text \<open>A dotted key is dropped in every table but the terminal one, not at the document root only.\<close>

lemma merge_drops_dotted_key:
  \<open>other_lines False [''[ui]'', ''terminal.default_shell = "zsh"''] = [''[ui]'']\<close>
  by code_simp

text \<open>
  A merge of a merged configuration adds the managed comment once more; a server started from one of
  its own panes does this, because the panes inherit \<open>HERDR_CONFIG_PATH\<close>.
\<close>

lemma merge_accumulates:
  \<open>fst (merge_lines (managed_lines ''/p'') False (''[terminal]'' # managed_lines ''/p''))
     = ''[terminal]'' # managed_lines ''/p'' @ [hd (managed_lines ''/p'')]\<close>
  by code_simp

text \<open>
  \<open>ResolveUserShell\<close> compares paths: a symbolic link to the launcher that lies elsewhere is accepted
  as the user's shell, and the launcher then runs itself.
\<close>

definition demo_panes :: world where
  "demo_panes = \<lparr>fs = [([''d''], Dir o700), ([''d'', ''pane-shell''], Reg o700 []), ([''bin''], Dir o755),
     ([''bin'', ''zsh''], Reg o755 []), ([''bin'', ''mysh''], Lnk ''/d/pane-shell'')],
     cwd = [], environ = [], faults = [], names = [0, 1, 2, 3, 4], hist = []\<rparr>"

lemma launcher_link_accepted: "fst (resolve_user_shell ''/bin/mysh'' (paths_in ''/d'') demo_panes) = Inr (''/bin/mysh'', [])"
  by code_simp

section \<open>One generation\<close>

theorem user_shell_accepted_witness:
  "fst (resolve_user_shell '' /bin/zsh '' (paths_in ''/d'') demo_panes) = Inr (''/bin/zsh'', [])
    \<and> is_ok (generate_pane_shell (paths_in ''/d'') \<lparr>user_shell = ''/bin/zsh'', runtime_bin = ''/d/runtime/current/bin'', login_shell = False\<rparr>)"
proof -
  have f: "fst (resolve_user_shell '' /bin/zsh '' (paths_in ''/d'') demo_panes) = Inr (''/bin/zsh'', [])" by code_simp
  then obtain w' where run: "resolve_user_shell '' /bin/zsh '' (paths_in ''/d'') demo_panes = (Inr (''/bin/zsh'', []), w')"
    by (metis prod.collapse)
  have "trim_space '' /bin/zsh '' \<noteq> []" "is_abs ''/d/runtime/current/bin''"
    "\<not> contains_any ''/d/runtime/current/bin'' [CHR '':'', CR, LF, SQUOTE]" by code_simp+
  with user_shell_accepted [OF run this(1), of "''/d/runtime/current/bin''" False] f show ?thesis by blast
qed


definition demo_stale :: world where
  "demo_stale = demo_panes\<lparr>fs := [([''d''], Dir o700), ([''d'', ''shell''], Dir o700), ([''d'', ''shell'', ''posix-env''], Reg o600 ''old'')]\<rparr>"

lemma lift_seq: "seq (lift (Inr x)) g = g x"
  by (simp add: seq_def lift_def fun_eq_iff)

lemma demo_installs:
  "is_ok (fst (seq (os_remove_all ''/d/shell'') (\<lambda>_. seq (os_mkdir_all ''/d/shell/zdotdir'' o700) (\<lambda>_.
     install_files ''/d'' [(''pane-shell'', t2), (''shell/bashrc'', t1)])) demo_stale))"
  by code_simp

theorem pane_shell_exact_witness:
  "\<exists>u w'. write_pane_shell rev (paths_in ''/d'') \<lparr>user_shell = ''/bin/bash'', runtime_bin = ''/r/bin'', login_shell = True\<rparr> demo_stale
       = (Inr u, w') \<and> vis (fs w') [''d'', ''shell'', ''posix-env''] = None"
proof -
  let ?spec = "\<lparr>user_shell = ''/bin/bash'', runtime_bin = ''/r/bin'', login_shell = True\<rparr>"
  have c: "classify_shell ''/bin/bash'' = ShellBash" "is_abs ''/bin/bash''" "is_abs ''/r/bin''"
    "\<not> contains_any ''/bin/bash'' [CR, LF, SQUOTE]" "\<not> contains_any ''/r/bin'' [CHR '':'', CR, LF, SQUOTE]" by code_simp+
  obtain t1 t2 where g: "generate_pane_shell (paths_in ''/d'') ?spec = Inr [(''shell/bashrc'', t1), (''pane-shell'', t2)]"
    using c by (simp add: generate_pane_shell_def Let_def family_files_def)
  have p: "path_join [''/d'', ''shell''] = ''/d/shell''" "path_join [''/d/shell'', ''zdotdir''] = ''/d/shell/zdotdir''" by code_simp+
  have r: "rev [(''shell/bashrc'', t1), (''pane-shell'', t2)] = [(''pane-shell'', t2), (''shell/bashrc'', t1)]" by simp
  have "is_ok (fst (write_pane_shell rev (paths_in ''/d'') ?spec demo_stale))"
    unfolding write_pane_shell_def g p p_dir_paths_in lift_seq r by (rule demo_installs)
  then obtain u w' where run: "write_pane_shell rev (paths_in ''/d'') ?spec demo_stale = (Inr u, w')"
    by (cases "write_pane_shell rev (paths_in ''/d'') ?spec demo_stale") (auto simp: is_ok_iff)
  have d: "state_ready ''/d'' (vis (fs demo_stale))" by code_simp
  have "vis (fs w') = pane_tree (elems ''/d'') [(''shell/bashrc'', t1), (''pane-shell'', t2)] (vis (fs demo_stale))"
    by (rule pane_shell_exact [OF d g _ run]) simp
  moreover have "pane_tree (elems ''/d'') [(''shell/bashrc'', t1), (''pane-shell'', t2)] (vis (fs demo_stale)) [''d'', ''shell'', ''posix-env''] = None"
    by code_simp
  ultimately show ?thesis using run by simp
qed

end
