(* ===== verification/Programs.thy ===== *)
theory Programs
  imports StatePaths
begin

text \<open>
  The two helpers at the end of \<open>internal/client/supervise.go\<close>: \<open>FindBinary\<close>, with \<open>exec.LookPath\<close> and
  \<open>filepath.EvalSymlinks\<close> as it uses them, and \<open>OpenLog\<close>.  As in the theory \<open>OS\<close>, ownership is not
  modelled: a file is executable when any of its three execute bits is set.
\<close>

section \<open>Finding a program\<close>

definition find_executable :: "string \<Rightarrow> unit io" where
  "find_executable p =
     seq (os_stat p) (\<lambda>info.
     if fkind info = KDir then fail (Errno EISDIR)
     else if fperm info AND o111 = 0 then fail (Errno EACCES)
     else ret ())"

text \<open>The directories of \<open>PATH\<close> in turn; a hit below a relative one is an error.\<close>

fun search_path :: "string \<Rightarrow> string list \<Rightarrow> string io" where
  "search_path file [] = fail (errorf ''exec: %s: executable file not found in $PATH'' [file])"
| "search_path file (d # ds) =
     (let p = path_join [if d = [] then ''.'' else d, file] in
      seq (attempt (find_executable p)) (\<lambda>r.
      if \<not> is_ok r then search_path file ds
      else if \<not> is_abs p
        then fail (errorf ''exec: %s: cannot run executable found relative to current directory'' [file])
      else ret p))"

definition split_list :: "string \<Rightarrow> string list" where
  "split_list s = (if s = [] then [] else split_on (CHR '':'') s)"

definition look_path :: "string \<Rightarrow> string io" where
  "look_path file =
     (if SLASH \<in> set file then
        seq (wrap (wrapf ''exec: %s: %w'' [file]) (find_executable file)) (\<lambda>_. ret file)
      else (\<lambda>w. search_path file (split_list (getenv (environ w) ''PATH'')) w))"

text \<open>The path of the node that is reached when every link is followed.\<close>

definition os_eval_symlinks :: "string \<Rightarrow> string io" where
  "os_eval_symlinks p = query (\<lambda>w.
     bind_ok (locate (fs w) (cwd w) True p) (\<lambda>q.
     case nd (fs w) q of None \<Rightarrow> Inl ENOENT | Some _ \<Rightarrow> Inr (render True q)))"

definition resolve_binary :: "string \<Rightarrow> string \<Rightarrow> string io" where
  "resolve_binary name p =
     seq (wrap (wrapf ''resolve executable %q: %w'' [name]) (os_eval_symlinks p)) (\<lambda>q.
     if contains_any q [CR, LF] then fail (errorf ''executable path contains a newline'' []) else ret q)"

definition find_binary :: "string \<Rightarrow> string io" where
  "find_binary name =
     seq (wrap (wrapf ''required executable %q not found: %w'' [name]) (look_path name)) (\<lambda>p w.
     resolve_binary name (file_abs (cwd w) p) w)"

section \<open>The log\<close>

text \<open>\<open>O_CREATE|O_APPEND|O_WRONLY\<close>: an existing regular file is left as it is.\<close>

definition os_open_append :: "string \<Rightarrow> nat \<Rightarrow> unit io" where
  "os_open_append p m = mutate (\<lambda>w. at_path True p (\<lambda>q n. case n of
       None \<Rightarrow> (case nd (fs w) (butlast q) of Some (Dir _) \<Rightarrow> Inr ((), fs_upd q (Reg m []) (fs w)) | _ \<Rightarrow> Inl ENOENT)
     | Some (Dir _) \<Rightarrow> Inl EISDIR
     | Some _ \<Rightarrow> Inr ((), fs w)) w)"

definition open_log :: "string \<Rightarrow> unit io" where
  "open_log p = seq (os_open_append p o600) (\<lambda>_. os_chmod p o600)"

section \<open>What they guarantee\<close>

definition runnable :: "node \<Rightarrow> bool" where
  "runnable n \<longleftrightarrow> fkind (info_of n) \<noteq> KDir \<and> fperm (info_of n) AND o111 \<noteq> 0"

lemma wp_find_executable:
  assumes "\<And>w' n. same w w' \<Longrightarrow> node_at True p w = Inr n \<Longrightarrow> runnable n \<Longrightarrow> Q () w'" "\<And>e w'. same w w' \<Longrightarrow> E e w'"
  shows "wp (find_executable p) Q E w"
  unfolding find_executable_def using assms by (auto intro!: wp_stat simp: runnable_def)

definition in_path :: "string \<Rightarrow> string \<Rightarrow> string" where
  "in_path d file = path_join [if d = [] then ''.'' else d, file]"

lemma in_path_canonical: "is_abs (in_path d file) \<Longrightarrow> canonical (in_path d file)"
  by (cases d) (simp_all add: in_path_def path_join.simps clean_canonical)

definition found :: "string \<Rightarrow> string list \<Rightarrow> world \<Rightarrow> string \<Rightarrow> bool" where
  "found file ds w p \<longleftrightarrow> canonical p \<and> (\<exists>d \<in> set ds. p = in_path d file) \<and> (\<exists>n. node_at True p w = Inr n \<and> runnable n)"

lemma wp_search_path:
  assumes "same w0 w"
  shows "wp (search_path file ds) (\<lambda>p w'. same w0 w' \<and> found file ds w0 p) (\<lambda>_. same w0) w"
  using assms
proof (induction ds arbitrary: w)
  case (Cons d ds)
  let ?p = "in_path d file"
  have rest: "wp (search_path file ds) (\<lambda>p w'. same w0 w' \<and> found file (d # ds) w0 p) (\<lambda>_. same w0) w'" if "same w w'" for w'
    by (rule wp_mono [OF Cons.IH [OF same_trans [OF Cons.prems that]]]) (auto simp: found_def)
  have hit: "found file (d # ds) w0 ?p" if "is_abs ?p" "node_at True ?p w = Inr n" "runnable n" for n
    using that in_path_canonical same_node_at [OF Cons.prems] by (auto simp: found_def)
  show ?case
    unfolding search_path.simps in_path_def [symmetric] Let_def wp_seq wp_attempt
    by (rule wp_find_executable) (use rest hit same_trans [OF Cons.prems] in auto)
qed simp

lemma wp_resolve_binary:
  assumes "\<And>r w'. same w w' \<Longrightarrow> locate (fs w) (cwd w) True p = Inr r \<Longrightarrow> nd (fs w) r \<noteq> None
      \<Longrightarrow> \<not> contains_any (render True r) [CR, LF] \<Longrightarrow> Q (render True r) w'"
    and "\<And>e w'. same w w' \<Longrightarrow> E e w'"
  shows "wp (resolve_binary name p) Q E w"
  unfolding resolve_binary_def os_eval_symlinks_def wp_seq wp_wrap
  by (rule wp_query) (use assms in \<open>auto simp: same_def split: option.split_asm\<close>)

text \<open>
  A name without a slash is looked for in \<open>PATH\<close> only, and \<open>FindBinary\<close> then changes nothing; it gives
  the absolute path, free of line breaks, of the executable node that an absolute entry of \<open>PATH\<close> leads to.
\<close>

theorem binary_found:
  assumes run: "find_binary name w = (Inr q, w')" and name: "SLASH \<notin> set name"
  shows "same w w' \<and> is_abs q \<and> LF \<notin> set q \<and> CR \<notin> set q
    \<and> (\<exists>d r n. d \<in> set (split_list (getenv (environ w) ''PATH'')) \<and> is_abs (in_path d name)
         \<and> locate (fs w) (cwd w) True (in_path d name) = Inr r \<and> nd (fs w) r = Some n \<and> runnable n \<and> q = render True r)"
proof -
  let ?ds = "split_list (getenv (environ w) ''PATH'')"
  let ?good = "\<lambda>q. \<not> contains_any q [CR, LF]
    \<and> (\<exists>p r. found name ?ds w p \<and> locate (fs w) (cwd w) True p = Inr r \<and> nd (fs w) r \<noteq> None \<and> q = render True r)"
  have abs: "file_abs wd p = p" if "found name ?ds w p" for wd p
    using that by (simp add: found_def file_abs_def canonical_def)
  have look: "wp (look_path name) (\<lambda>p w'. same w w' \<and> found name ?ds w p) (\<lambda>_. same w) w"
    using name wp_search_path [of w w name ?ds] by (simp add: look_path_def wp_def)
  have "wp (\<lambda>w. resolve_binary name (file_abs (cwd w) p) w) (\<lambda>q w'. same w w' \<and> ?good q) (\<lambda>_. same w) w1"
    if p: "same w w1 \<and> found name ?ds w p" for p w1
  proof -
    have "wp (resolve_binary name p) (\<lambda>q w'. same w w' \<and> ?good q) (\<lambda>_. same w) w1"
      by (rule wp_resolve_binary) (use p in \<open>auto simp: same_def\<close>)
    then show ?thesis using abs p by (simp add: wp_def)
  qed
  then have "wp (find_binary name) (\<lambda>q w'. same w w' \<and> ?good q) (\<lambda>_. same w) w"
    unfolding find_binary_def wp_seq wp_wrap by (intro wp_mono [OF look]) auto
  from wp_run [OF this run] obtain p r where q: "same w w'" "\<not> contains_any q [CR, LF]" "q = render True r"
    and p: "found name ?ds w p" "locate (fs w) (cwd w) True p = Inr r" by auto
  from p(1) obtain d n where d: "d \<in> set ?ds" "p = in_path d name" "is_abs p" "node_at True p w = Inr n" "runnable n"
    by (auto simp: found_def canonical_def)
  have "is_abs q" "LF \<notin> set q" "CR \<notin> set q" using q(2,3) by (auto simp: render_def contains_any_iff)
  moreover have "nd (fs w) r = Some n" using d(4) p(2) by (simp add: node_at_def split: option.split_asm)
  ultimately show ?thesis using q d p by blast
qed

lemma wp_find_binary: "wp (find_binary name) (\<lambda>_. same w) (\<lambda>_. same w) w"
proof -
  have "wp (\<lambda>w'. resolve_binary name (file_abs (cwd w') p) w') (\<lambda>_. same w) (\<lambda>_. same w) w1" if "same w w1" for p w1
  proof -
    have "wp (resolve_binary name q) (\<lambda>_. same w) (\<lambda>_. same w) w1" for q
      by (rule wp_resolve_binary) (use same_trans [OF that] in blast)+
    then show ?thesis by (simp add: wp_def)
  qed
  then have res: "wp (\<lambda>w'. resolve_binary name (file_abs (cwd w') p) w') (\<lambda>_. same w) (\<lambda>_. same w) w1" if "same w w1" for p w1
    using that by blast
  have look: "wp (look_path name) (\<lambda>_. same w) (\<lambda>_. same w) w"
  proof (cases "SLASH \<in> set name")
    case True
    then show ?thesis by (simp add: look_path_def) (rule wp_find_executable, simp_all)
  next
    case False
    have "wp (search_path name ds) (\<lambda>_. same w) (\<lambda>_. same w) w" for ds
      by (rule wp_mono [OF wp_search_path [OF same_refl]]) auto
    with False show ?thesis by (simp add: look_path_def wp_def)
  qed
  show ?thesis
    unfolding find_binary_def wp_seq wp_wrap
    by (rule wp_mono [OF look]) (erule res, assumption)
qed

end
