(* ===== verification/Encoding.thy ===== *)
theory Encoding
  imports Url "HOL-Library.Word" "HOL-Library.List_Lexorder" "HOL-Library.Char_ord"
begin

unbundle bit_operations_syntax

text \<open>
  The encodings the browser login uses: query strings (\<open>url.Values\<close>, \<open>url.ParseQuery\<close>,
  \<open>Values.Encode\<close>), the unpadded URL alphabet of base64 (\<open>base64.RawURLEncoding\<close>), SHA-256
  (\<open>crypto/sha256\<close>) and the escaping that \<open>html/template\<close> applies to text and to quoted attributes.
  What a pair of encoder and decoder promises is the locale \<open>codec\<close>.
\<close>

section \<open>What a pair of encoder and decoder promises\<close>

locale codec =
  fixes enc :: "'a \<Rightarrow> string" and dec :: "string \<Rightarrow> 'a option"
  assumes decodes: "dec (enc x) = Some x"
begin

lemma enc_inject: "enc x = enc y \<longleftrightarrow> x = y"
  by (metis decodes option.inject)

lemma decodes_all: "map (dec \<circ> enc) xs = map Some xs"
  by (simp add: decodes)

end

section \<open>Query strings\<close>

text \<open>
  \<open>url.Values\<close> as the list of its pairs.  A Go map has no order among different keys, so what counts
  is the list up to the order of pairs with different keys.
\<close>

type_synonym query_values = "(string \<times> string) list"

definition query_get :: "query_values \<Rightarrow> string \<Rightarrow> string" where
  "query_get q k = (case map_of q k of None \<Rightarrow> [] | Some v \<Rightarrow> v)"

definition query_set :: "string \<Rightarrow> string \<Rightarrow> query_values \<Rightarrow> query_values" where
  "query_set k v q = filter (\<lambda>(k', _). k' \<noteq> k) q @ [(k, v)]"

definition encode_pair :: "string \<times> string \<Rightarrow> string" where
  "encode_pair kv = escape EncQuery (fst kv) @ ''='' @ escape EncQuery (snd kv)"

definition encode_query :: "query_values \<Rightarrow> string" where
  "encode_query q = join ''&'' (map encode_pair (sort_key fst q))"

definition decode_pair :: "string \<Rightarrow> (string \<times> string) option" where
  "decode_pair s =
     (case cut (CHR ''='') s of (k, v, _) \<Rightarrow>
        if CHR '';'' \<in> set s then None
        else (case (unescape EncQuery k, unescape EncQuery v) of (Some x, Some y) \<Rightarrow> Some (x, y) | _ \<Rightarrow> None))"

definition pieces :: "string \<Rightarrow> string list" where
  "pieces s = filter (\<lambda>p. p \<noteq> []) (split_on (CHR ''&'') s)"

text \<open>\<open>ParseQuery\<close>: the pairs that are well formed, and whether all of them are.\<close>

definition parse_query :: "string \<Rightarrow> query_values \<times> bool" where
  "parse_query s = (List.map_filter decode_pair (pieces s), list_all (\<lambda>p. decode_pair p \<noteq> None) (pieces s))"

lemma unescape_plain: "\<not> should_escape EncQuery c \<Longrightarrow> unescape EncQuery (c # s) = map_option ((#) c) (unescape EncQuery s)"
  by (auto simp: should_escape_def char_class_defs)

lemma hex_value_upper: "n < 16 \<Longrightarrow> hex_value (upper_hex n) = Some n"
  by (induction n rule: nat_less_induct) (auto simp: upper_hex_def less_Suc_eq numeral_eq_Suc hex_value_def byte_def)

lemma unescape_percent: "unescape EncQuery (percent c @ s) = map_option ((#) c) (unescape EncQuery s)"
proof -
  have "16 * (byte c div 16) + byte c mod 16 = byte c" by simp
  moreover have "byte c div 16 < 16" using byte_less [of c] by (simp add: less_mult_imp_div_less)
  ultimately show ?thesis by (simp add: percent_def hex_value_upper)
qed

lemma unescape_escape_append: "unescape EncQuery (escape EncQuery s @ t) = map_option ((@) s) (unescape EncQuery t)"
proof (induction s)
  case Nil
  then show ?case by (simp add: escape_def option.map_id0 [unfolded id_def])
next
  case (Cons c s)
  have split: "escape EncQuery (c # s) = (if should_escape EncQuery c then (if c = CHR '' '' then ''+'' else percent c) else [c]) @ escape EncQuery s"
    by (simp add: escape_def)
  from Cons show ?case
    by (simp add: split unescape_plain unescape_percent option.map_comp o_def del: unescape.simps)
      (simp add: option.map_comp o_def)
qed

interpretation query_text: codec "escape EncQuery" "unescape EncQuery"
  by unfold_locales (use unescape_escape_append [of _ "[]"] in simp)

lemma escape_query_chars: "c \<in> set (escape EncQuery s) \<Longrightarrow> c \<noteq> CHR ''&'' \<and> c \<noteq> CHR '';'' \<and> c \<noteq> CHR ''=''"
proof -
  have d: "\<not> is_alnum (CHR ''&'')" "\<not> is_alnum (CHR '';'')" "\<not> is_alnum (CHR ''='')" by (simp_all add: char_class_defs)
  assume "c \<in> set (escape EncQuery s)"
  then obtain e where "c = CHR ''+'' \<or> c \<in> set (percent e) \<or> \<not> should_escape EncQuery c"
    by (fastforce simp: escape_def split: if_splits)
  then show ?thesis using percent_plain [of c e] d by (auto simp: should_escape_def)
qed

lemma decode_encode_pair: "decode_pair (encode_pair kv) = Some kv"
proof -
  have "CHR ''='' \<notin> set (escape EncQuery (fst kv))" "CHR '';'' \<notin> set (encode_pair kv)"
    using escape_query_chars by (fastforce simp: encode_pair_def)+
  moreover from this have "cut (CHR ''='') (encode_pair kv) = (escape EncQuery (fst kv), escape EncQuery (snd kv), True)"
    unfolding encode_pair_def by (simp add: cut_first)
  ultimately show ?thesis by (simp add: decode_pair_def query_text.decodes)
qed

interpretation query_pair: codec encode_pair decode_pair
  by unfold_locales (rule decode_encode_pair)

lemma pieces_join:
  "\<forall>p \<in> set ps. p \<noteq> [] \<and> CHR ''&'' \<notin> set p \<Longrightarrow> pieces (join ''&'' ps) = ps"
  by (cases ps) (auto simp: pieces_def split_on_join filter_id_conv)

lemma parse_encode_query: "parse_query (encode_query q) = (sort_key fst q, True)"
proof -
  let ?ps = "map encode_pair (sort_key fst q)"
  have "pieces (encode_query q) = ?ps"
    unfolding encode_query_def
    by (rule pieces_join) (use escape_query_chars in \<open>fastforce simp: encode_pair_def\<close>)
  then show ?thesis
    by (simp add: parse_query_def list_all_iff List.map_filter_def filter_map o_def query_pair.decodes)
qed

lemma sorted_one_key: "sorted (map fst (filter (\<lambda>x. fst x = k) q))"
  by (induction q) auto

lemma map_of_sort_key: "map_of (sort_key fst q) = map_of (q :: query_values)"
proof
  fix k :: string
  have "map_of q k = map_of (filter (\<lambda>x. fst x = k) q) k" for q :: query_values
    by (induction q) auto
  moreover have "filter (\<lambda>x. fst x = k) (sort_key fst q) = filter (\<lambda>x. fst x = k) q"
    by (simp add: filter_sort sort_key_id_if_sorted sorted_one_key)
  ultimately show "map_of (sort_key fst q) k = map_of q k" by metis
qed

lemma query_get_set: "query_get (query_set k v q) k' = (if k' = k then v else query_get q k')"
  by (induction q) (auto simp: query_get_def query_set_def)

section \<open>Base64 for URLs\<close>

definition url64_char :: "nat \<Rightarrow> char" where
  "url64_char n =
     (if n < 26 then chr (n + 65) else if n < 52 then chr (n + 71) else if n < 62 then chr (48 + (n - 52))
      else if n = 62 then CHR ''-'' else CHR ''_'')"

definition url64_val :: "char \<Rightarrow> nat option" where
  "url64_val c =
     (let n = byte c in
      if 65 \<le> n \<and> n \<le> 90 then Some (n - 65)
      else if 97 \<le> n \<and> n \<le> 122 then Some (n - 71)
      else if 48 \<le> n \<and> n \<le> 57 then Some (n + 4)
      else if n = 45 then Some 62
      else if n = 95 then Some 63
      else None)"

fun url64_encode :: "string \<Rightarrow> string" where
  "url64_encode [] = []"
| "url64_encode [a] = [url64_char (byte a div 4), url64_char (byte a mod 4 * 16)]"
| "url64_encode [a, b] =
     [url64_char (byte a div 4), url64_char (byte a mod 4 * 16 + byte b div 16), url64_char (byte b mod 16 * 4)]"
| "url64_encode (a # b # c # s) =
     [url64_char (byte a div 4), url64_char (byte a mod 4 * 16 + byte b div 16),
      url64_char (byte b mod 16 * 4 + byte c div 64), url64_char (byte c mod 64)] @ url64_encode s"

text \<open>The bits of the last character that belong to no byte are not looked at; line breaks are skipped.\<close>

fun url64_quanta :: "string \<Rightarrow> string option" where
  "url64_quanta [] = Some []"
| "url64_quanta [a] = None"
| "url64_quanta [a, b] =
     (case (url64_val a, url64_val b) of
        (Some x, Some y) \<Rightarrow> Some [chr (x * 4 + y div 16)]
      | _ \<Rightarrow> None)"
| "url64_quanta [a, b, c] =
     (case (url64_val a, url64_val b, url64_val c) of
        (Some x, Some y, Some z) \<Rightarrow> Some [chr (x * 4 + y div 16), chr (y mod 16 * 16 + z div 4)]
      | _ \<Rightarrow> None)"
| "url64_quanta (a # b # c # d # s) =
     (case (url64_val a, url64_val b, url64_val c, url64_val d) of
        (Some x, Some y, Some z, Some u) \<Rightarrow>
          map_option (\<lambda>t. [chr (x * 4 + y div 16), chr (y mod 16 * 16 + z div 4), chr (z mod 4 * 64 + u)] @ t)
            (url64_quanta s)
      | _ \<Rightarrow> None)"

definition url64_decode :: "string \<Rightarrow> string option" where
  "url64_decode s = url64_quanta (filter (\<lambda>c. c \<noteq> CR \<and> c \<noteq> LF) s)"

lemma url64_cases:
  fixes n :: nat
  assumes "n < 64"
  obtains "n < 26" | m where "n = 26 + m" "m < 26" | m where "n = 52 + m" "m < 10" | "n = 62" | "n = 63"
proof -
  have "n < 26 \<or> n = 26 + (n - 26) \<and> n - 26 < 26 \<or> n = 52 + (n - 52) \<and> n - 52 < 10 \<or> n = 62 \<or> n = 63"
    using assms by arith
  then show thesis using that by blast
qed

lemma url64_val_char [simp]: "n < 64 \<Longrightarrow> url64_val (url64_char n) = Some n"
  by (erule url64_cases; simp add: url64_char_def url64_val_def Let_def; simp add: byte_def)

definition url64_ok :: "char \<Rightarrow> bool" where
  "url64_ok c \<longleftrightarrow> is_alnum c \<or> c \<in> set ''-_''"

lemma url64_char_ok: "n < 64 \<Longrightarrow> url64_ok (url64_char n)"
  by (erule url64_cases; simp add: url64_char_def url64_ok_def is_alnum_def is_alpha_def is_upper_def is_lower_def is_digit_def;
      simp add: byte_def)

lemma byte_parts:
  "byte a div 4 < 64" "byte a mod 4 * 16 < 64" "byte a mod 4 * 16 + byte b div 16 < 64" "byte b mod 16 * 4 < 64"
  "byte b mod 16 * 4 + byte c div 64 < 64" "byte c mod 64 < 64"
proof -
  have "byte a div 4 < 64" "byte a mod 4 < 4" "byte b div 16 < 16" "byte b mod 16 < 16" "byte c div 64 < 4"
    by (simp_all add: less_mult_imp_div_less)
  then show "byte a div 4 < 64" "byte a mod 4 * 16 < 64" "byte a mod 4 * 16 + byte b div 16 < 64" "byte b mod 16 * 4 < 64"
    "byte b mod 16 * 4 + byte c div 64 < 64" "byte c mod 64 < 64" by linarith+
qed

lemma url64_encode_ok: "c \<in> set (url64_encode s) \<Longrightarrow> url64_ok c"
  by (induction s rule: url64_encode.induct) (auto simp: url64_char_ok byte_parts)

lemma url64_quanta_encode: "url64_quanta (url64_encode s) = Some s"
proof (induction s rule: url64_encode.induct)
  case (2 a)
  then show ?case by (simp add: byte_parts)
next
  case (3 a b)
  have "(byte a mod 4 * 16 + byte b div 16) div 16 = byte a mod 4" "(byte a mod 4 * 16 + byte b div 16) mod 16 = byte b div 16"
    using byte_less [of b] by (simp_all add: less_mult_imp_div_less)
  then show ?case by (simp add: byte_parts)
next
  case (4 a b c s)
  have "(byte a mod 4 * 16 + byte b div 16) div 16 = byte a mod 4" "(byte a mod 4 * 16 + byte b div 16) mod 16 = byte b div 16"
    "(byte b mod 16 * 4 + byte c div 64) div 4 = byte b mod 16" "(byte b mod 16 * 4 + byte c div 64) mod 4 = byte c div 64"
    using byte_less [of b] byte_less [of c] by (simp_all add: less_mult_imp_div_less)
  with 4 show ?case by (simp add: byte_parts)
qed simp

interpretation url64: codec url64_encode url64_decode
proof
  fix s
  have "\<not> url64_ok CR" "\<not> url64_ok LF" by code_simp+
  then have "filter (\<lambda>c. c \<noteq> CR \<and> c \<noteq> LF) (url64_encode s) = url64_encode s"
    by (auto simp: filter_id_conv dest: url64_encode_ok)
  then show "url64_decode (url64_encode s) = Some s" by (simp add: url64_decode_def url64_quanta_encode)
qed

lemma url64_length: "length (url64_encode s) = (length s * 4 + 2) div 3"
  by (induction s rule: url64_encode.induct) auto

section \<open>SHA-256\<close>

text \<open>
  The constants of the standard: the first 32 bits of the fractional parts of the square roots of the
  first eight primes, and of the cube roots of the first 64.
\<close>

definition root_bits :: "nat \<Rightarrow> nat \<Rightarrow> 32 word" where
  "root_bits e p = word_of_nat (fold (\<lambda>i r. if (r + 2 ^ i) ^ e \<le> p * 2 ^ (32 * e) then r + 2 ^ i else r) (rev [0..<37]) 0)"

definition small_primes :: "nat list" where
  "small_primes = filter (\<lambda>n. list_all (\<lambda>d. n mod d \<noteq> 0) [2..<n]) [2..<312]"

definition sha_h :: "32 word list" where
  "sha_h = map (root_bits 2) [2, 3, 5, 7, 11, 13, 17, 19]"

definition sha_k :: "32 word list" where
  "sha_k = map (root_bits 3) small_primes"

definition rotr :: "nat \<Rightarrow> 32 word \<Rightarrow> 32 word" where
  "rotr n x = drop_bit n x OR push_bit (32 - n) x"

definition be_bytes :: "nat \<Rightarrow> nat \<Rightarrow> string" where
  "be_bytes k n = map (\<lambda>i. chr (n div 256 ^ i mod 256)) (rev [0..<k])"

definition word_be :: "string \<Rightarrow> 32 word" where
  "word_be s = foldl (\<lambda>x c. x * 256 + word_of_nat (byte c)) 0 s"

text \<open>The message, a one bit, zeros up to 56 modulo 64, and the length in bits.\<close>

definition sha_pad :: "string \<Rightarrow> string" where
  "sha_pad s = s @ [chr 128] @ replicate ((119 - length s mod 64) mod 64) NUL @ be_bytes 8 (8 * length s)"

text \<open>The 64 words a block of 16 is extended to, each from those before it.\<close>

definition sha_next :: "32 word list \<Rightarrow> nat \<Rightarrow> 32 word list" where
  "sha_next w t =
     (let a = w ! (t - 15); b = w ! (t - 2);
          s0 = rotr 7 a XOR rotr 18 a XOR drop_bit 3 a;
          s1 = rotr 17 b XOR rotr 19 b XOR drop_bit 10 b in
      w @ [w ! (t - 16) + s0 + w ! (t - 7) + s1])"

definition sha_schedule :: "32 word list \<Rightarrow> 32 word list" where
  "sha_schedule blk = foldl sha_next blk [16..<64]"

fun sha_round :: "32 word list \<Rightarrow> 32 word \<times> 32 word \<Rightarrow> 32 word list" where
  "sha_round [a, b, c, d, e, f, g, h] (k, w) =
     (let s1 = rotr 6 e XOR rotr 11 e XOR rotr 25 e;
          ch = (e AND f) XOR (NOT e AND g);
          t1 = h + s1 + ch + k + w;
          s0 = rotr 2 a XOR rotr 13 a XOR rotr 22 a;
          maj = (a AND b) XOR (a AND c) XOR (b AND c) in
      [t1 + (s0 + maj), a, b, c, d + t1, e, f, g])"
| "sha_round hs _ = hs"

definition sha_block :: "32 word list \<Rightarrow> string \<Rightarrow> 32 word list" where
  "sha_block hs blk =
     (let w = sha_schedule (map (\<lambda>i. word_be (take 4 (drop (4 * i) blk))) [0..<16]) in
      map2 (+) hs (foldl sha_round hs (zip sha_k w)))"

definition sha256 :: "string \<Rightarrow> string" where
  "sha256 s =
     (let m = sha_pad s in
      concat (map (be_bytes 4 \<circ> unat)
        (foldl sha_block sha_h (map (\<lambda>i. take 64 (drop (64 * i) m)) [0..<length m div 64]))))"

lemma length_be_bytes [simp]: "length (be_bytes k n) = k"
  by (simp add: be_bytes_def)

lemma length_sha_round [simp]: "length (sha_round hs kw) = length hs"
  by (induction hs kw rule: sha_round.induct) (simp_all add: Let_def)

lemma length_sha_rounds: "length (foldl sha_round hs kws) = length hs"
  by (induction kws arbitrary: hs) simp_all

lemma length_sha_blocks: "length (foldl sha_block hs bs) = length hs"
  by (induction bs arbitrary: hs) (simp_all add: sha_block_def length_sha_rounds)

lemma length_sha256: "length (sha256 s) = 32"
  by (simp add: sha256_def Let_def length_concat o_def sum_list_const_mult sum_list_triv length_sha_blocks sha_h_def)

section \<open>Text in a page\<close>

text \<open>\<open>html/template\<close> in text and in a quoted attribute.\<close>

definition html_repl :: "char \<Rightarrow> string option" where
  "html_repl c =
     map_of [(NUL, replacement), (DQUOTE, ''&#34;''), (CHR ''&'', ''&amp;''), (SQUOTE, ''&#39;''), (CHR ''+'', ''&#43;''),
             (CHR ''<'', ''&lt;''), (CHR ''>'', ''&gt;'')] c"

definition html_escape :: "string \<Rightarrow> string" where
  "html_escape s = concat (map (\<lambda>c. case html_repl c of None \<Rightarrow> [c] | Some r \<Rightarrow> r) s)"

lemma html_escape_plain: "c \<in> set (html_escape s) \<Longrightarrow> c \<noteq> CHR ''<'' \<and> c \<noteq> CHR ''>'' \<and> c \<noteq> DQUOTE \<and> c \<noteq> SQUOTE"
  by (auto simp: html_escape_def html_repl_def replacement_def split: if_splits)

end
