(* ===== verification/OAuth.thy ===== *)
theory OAuth
  imports Encoding Enroll
begin

text \<open>
  The parts of the browser login of \<open>internal/client/oauth.go\<close> that each run to an end by themselves:
  discovery of the authorization server, the random parameters with their PKCE challenge, the address
  the browser is sent to, the code exchange, the check of the ID token and the pages.  \<open>Connect\<close>, which
  puts them together, is the theory \<open>Connect\<close>.  Parameters: the HTTP client, the source of random
  bytes, the order in which Go visits a map, and \<open>lu\<close> as in the theory \<open>Url\<close>.  The texts of the errors
  of \<open>net/url\<close> and \<open>encoding/json\<close> are one constant each.
\<close>

section \<open>Constants and data\<close>

definition oidc_client_id :: string where
  "oidc_client_id = ''familiar-desktop''"

definition oidc_redirect_port :: int where
  "oidc_redirect_port = 17421"

definition oidc_scope :: string where
  "oidc_scope = ''openid profile email''"

record resource_metadata =
  rm_resource :: string
  rm_servers :: "string list"

record oidc_discovery =
  od_issuer :: string
  od_authorization :: string
  od_token :: string
  od_methods :: "string list"

record token_response =
  tk_access :: string
  tk_refresh :: string
  tk_id :: string
  tk_type :: string
  tk_expires :: int

text \<open>\<open>Unmarshal\<close> into a slice of strings: an element that is \<open>null\<close> keeps what was there.\<close>

fun into_items :: "string list \<Rightarrow> json list \<Rightarrow> string list option" where
  "into_items old [] = Some []"
| "into_items old (j # js) =
     (case (into_string (case old of [] \<Rightarrow> [] | x # _ \<Rightarrow> x) j, into_items (drop 1 old) js) of
        (Some x, Some xs) \<Rightarrow> Some (x # xs) | _ \<Rightarrow> None)"

definition into_strings :: "string list \<Rightarrow> json \<Rightarrow> string list option" where
  "into_strings old j = (case j of JNull \<Rightarrow> Some [] | JArr js \<Rightarrow> into_items old js | _ \<Rightarrow> None)"

definition put_resource :: "string \<Rightarrow> json \<Rightarrow> resource_metadata \<Rightarrow> resource_metadata option" where
  "put_resource f j r =
     (if f = ''resource'' then map_option (\<lambda>x. r\<lparr>rm_resource := x\<rparr>) (into_string (rm_resource r) j)
      else map_option (\<lambda>x. r\<lparr>rm_servers := x\<rparr>) (into_strings (rm_servers r) j))"

definition put_discovery :: "string \<Rightarrow> json \<Rightarrow> oidc_discovery \<Rightarrow> oidc_discovery option" where
  "put_discovery f j d =
     (if f = ''issuer'' then map_option (\<lambda>x. d\<lparr>od_issuer := x\<rparr>) (into_string (od_issuer d) j)
      else if f = ''authorization_endpoint''
        then map_option (\<lambda>x. d\<lparr>od_authorization := x\<rparr>) (into_string (od_authorization d) j)
      else if f = ''token_endpoint'' then map_option (\<lambda>x. d\<lparr>od_token := x\<rparr>) (into_string (od_token d) j)
      else map_option (\<lambda>x. d\<lparr>od_methods := x\<rparr>) (into_strings (od_methods d) j))"

definition put_token :: "string \<Rightarrow> json \<Rightarrow> token_response \<Rightarrow> token_response option" where
  "put_token f j t =
     (if f = ''access_token'' then map_option (\<lambda>x. t\<lparr>tk_access := x\<rparr>) (into_string (tk_access t) j)
      else if f = ''refresh_token'' then map_option (\<lambda>x. t\<lparr>tk_refresh := x\<rparr>) (into_string (tk_refresh t) j)
      else if f = ''id_token'' then map_option (\<lambda>x. t\<lparr>tk_id := x\<rparr>) (into_string (tk_id t) j)
      else if f = ''token_type'' then map_option (\<lambda>x. t\<lparr>tk_type := x\<rparr>) (into_string (tk_type t) j)
      else map_option (\<lambda>x. t\<lparr>tk_expires := x\<rparr>) (into_int (tk_expires t) j))"

text \<open>\<open>json.Unmarshal\<close> into a struct: unknown members are skipped.\<close>

definition unmarshal :: "string list \<Rightarrow> (string \<Rightarrow> json \<Rightarrow> 'r \<Rightarrow> 'r option) \<Rightarrow> 'r \<Rightarrow> string \<Rightarrow> 'r option" where
  "unmarshal ks put zero b = (case json_parse b of None \<Rightarrow> None | Some j \<Rightarrow> into_struct False ks put zero j)"

definition read_resource :: "string \<Rightarrow> resource_metadata option" where
  "read_resource =
     unmarshal [''resource'', ''authorization_servers''] put_resource \<lparr>rm_resource = [], rm_servers = []\<rparr>"

definition read_discovery :: "string \<Rightarrow> oidc_discovery option" where
  "read_discovery =
     unmarshal [''issuer'', ''authorization_endpoint'', ''token_endpoint'', ''code_challenge_methods_supported'']
       put_discovery \<lparr>od_issuer = [], od_authorization = [], od_token = [], od_methods = []\<rparr>"

definition read_token_response :: "string \<Rightarrow> token_response option" where
  "read_token_response =
     unmarshal [''access_token'', ''refresh_token'', ''id_token'', ''token_type'', ''expires_in''] put_token
       \<lparr>tk_access = [], tk_refresh = [], tk_id = [], tk_type = [], tk_expires = 0\<rparr>"

section \<open>Discovery\<close>

definition get_request :: "string \<Rightarrow> http_request" where
  "get_request u = \<lparr>rq_method = ''GET'', rq_url = u, rq_headers = [(''Accept'', ''application/json'')], rq_body = []\<rparr>"

definition success :: "http_response \<Rightarrow> bool" where
  "success r \<longleftrightarrow> 200 \<le> rs_code r \<and> rs_code r < 300"

text \<open>Reading a body of at most one megabyte.\<close>

definition read_body :: "string \<Rightarrow> http_response \<Rightarrow> goerr + string" where
  "read_body too_long resp =
     (case read_limited (1048576 + 1) resp of
        (b, Some e) \<Rightarrow> Inl e
      | (b, None) \<Rightarrow> if length b > 1048576 then Inl (errorf too_long []) else Inr b)"

definition fetch_json :: "(string \<Rightarrow> string) \<Rightarrow> http_client \<Rightarrow> (string \<Rightarrow> 'r option) \<Rightarrow> string \<Rightarrow> goerr + 'r" where
  "fetch_json lu client decode u =
     bind_ok (guard (parse_url lu u \<noteq> None) (errorf ''url'' [])) (\<lambda>_.
     bind_ok (client (get_request u)) (\<lambda>resp.
     bind_ok (guard (success resp) (errorf ''GET %s returned %s'' [u, rs_status resp])) (\<lambda>_.
     bind_ok (read_body ''discovery response exceeds 1 MiB'' resp) (\<lambda>b.
     case decode b of
       None \<Rightarrow> Inl (wrapf ''decode %s: %w'' [u] json_error)
     | Some r \<Rightarrow> Inr r))))"

fun check_endpoints :: "(string \<Rightarrow> string) \<Rightarrow> (string \<times> string) list \<Rightarrow> goerr + unit" where
  "check_endpoints lu [] = Inr ()"
| "check_endpoints lu ((label, v) # es) =
     (case canonical_endpoint lu v of
        Inl e \<Rightarrow> Inl (wrapf ''issuer discovery has invalid %s: %w'' [label] e)
      | Inr _ \<Rightarrow> check_endpoints lu es)"

definition discover_oidc ::
  "(string \<Rightarrow> string) \<Rightarrow> ((string \<times> string) list \<Rightarrow> (string \<times> string) list) \<Rightarrow> http_client \<Rightarrow> string \<Rightarrow> goerr + oidc_discovery" where
  "discover_oidc lu order client endpoint =
     bind_ok (canonical_endpoint lu endpoint) (\<lambda>base.
     bind_ok (map_err (wrapf ''protected-resource metadata: %w'' [])
       (fetch_json lu client read_resource (base @ ''/.well-known/oauth-protected-resource''))) (\<lambda>resource.
     bind_ok (guard (rm_servers resource \<noteq> [] \<and> hd (rm_servers resource) \<noteq> [])
       (errorf ''protected-resource metadata advertises no authorization server'' [])) (\<lambda>_.
     bind_ok (map_err (wrapf ''invalid advertised issuer: %w'' []) (canonical_endpoint lu (hd (rm_servers resource)))) (\<lambda>issuer.
     bind_ok (map_err (wrapf ''issuer discovery: %w'' [])
       (fetch_json lu client read_discovery (issuer @ ''/.well-known/openid-configuration''))) (\<lambda>doc.
     bind_ok (guard (canonical_endpoint lu (od_issuer doc) = Inr issuer)
       (errorf ''issuer discovery does not match the advertised issuer'' [])) (\<lambda>_.
     bind_ok (check_endpoints lu (order [(''authorization_endpoint'', od_authorization doc), (''token_endpoint'', od_token doc)])) (\<lambda>_.
     bind_ok (guard (od_methods doc = [] \<or> ''S256'' \<in> set (od_methods doc))
       (errorf ''authorization server does not advertise S256 PKCE'' [])) (\<lambda>_.
     Inr doc))))))))"

section \<open>Parameters of one login\<close>

text \<open>\<open>rand i n\<close> is what the \<open>i\<close>-th read from \<open>crypto/rand\<close> gives, asked for \<open>n\<close> bytes.\<close>

type_synonym randomness = "nat \<Rightarrow> nat \<Rightarrow> goerr + string"

record oauth_parameters =
  op_state :: string
  op_nonce :: string
  op_verifier :: string
  op_challenge :: string

definition random_url_string :: "randomness \<Rightarrow> nat \<Rightarrow> nat \<Rightarrow> goerr + string" where
  "random_url_string rand i n = bind_ok (rand i n) (\<lambda>b. Inr (url64_encode b))"

definition new_oauth_parameters :: "randomness \<Rightarrow> goerr + oauth_parameters" where
  "new_oauth_parameters rand =
     bind_ok (random_url_string rand 0 24) (\<lambda>st.
     bind_ok (random_url_string rand 1 24) (\<lambda>nonce.
     bind_ok (random_url_string rand 2 32) (\<lambda>verifier.
     Inr \<lparr>op_state = st, op_nonce = nonce, op_verifier = verifier, op_challenge = url64_encode (sha256 verifier)\<rparr>)))"

section \<open>The address for the browser\<close>

definition authorize_query :: "string \<Rightarrow> string \<Rightarrow> string \<Rightarrow> string \<Rightarrow> query_values \<Rightarrow> query_values" where
  "authorize_query redirect st nonce challenge q =
     query_set ''code_challenge_method'' ''S256'' (query_set ''code_challenge'' challenge (query_set ''nonce'' nonce
       (query_set ''state'' st (query_set ''scope'' oidc_scope (query_set ''redirect_uri'' redirect
       (query_set ''client_id'' oidc_client_id (query_set ''response_type'' ''code'' q)))))))"

definition build_authorize_url :: "(string \<Rightarrow> string) \<Rightarrow> string \<Rightarrow> string \<Rightarrow> string \<Rightarrow> string \<Rightarrow> string \<Rightarrow> goerr + string" where
  "build_authorize_url lu endpoint redirect st nonce challenge =
     (case parse_url lu endpoint of
        None \<Rightarrow> Inl (errorf ''url'' [])
      | Some u \<Rightarrow>
          Inr (url_string (u\<lparr>u_raw_query :=
            encode_query (authorize_query redirect st nonce challenge (fst (parse_query (u_raw_query u))))\<rparr>)))"

section \<open>The exchange\<close>

definition exchange_request :: "string \<Rightarrow> string \<Rightarrow> string \<Rightarrow> string \<Rightarrow> http_request" where
  "exchange_request u code verifier redirect =
     \<lparr>rq_method = ''POST'', rq_url = u,
      rq_headers = [(''Content-Type'', ''application/x-www-form-urlencoded''), (''Accept'', ''application/json'')],
      rq_body = encode_query [(''grant_type'', ''authorization_code''), (''code'', code), (''code_verifier'', verifier),
        (''redirect_uri'', redirect), (''client_id'', oidc_client_id)]\<rparr>"

definition read_token_answer :: "http_response \<Rightarrow> goerr + token_response" where
  "read_token_answer resp =
     bind_ok (read_body ''token response exceeds 1 MiB'' resp) (\<lambda>b.
     case read_token_response b of
       None \<Rightarrow> Inl (errorf ''token endpoint returned invalid JSON'' [])
     | Some t \<Rightarrow>
         bind_ok (guard (success resp) (errorf ''token endpoint returned %s'' [rs_status resp])) (\<lambda>_.
         bind_ok (guard (tk_access t \<noteq> []) (errorf ''token response missing access_token'' [])) (\<lambda>_.
         Inr t)))"

definition exchange_code :: "(string \<Rightarrow> string) \<Rightarrow> http_client \<Rightarrow> string \<Rightarrow> string \<Rightarrow> string \<Rightarrow> string \<Rightarrow> goerr + token_response" where
  "exchange_code lu client u code verifier redirect =
     bind_ok (guard (parse_url lu u \<noteq> None) (errorf ''url'' [])) (\<lambda>_.
     bind_ok (map_err (wrapf ''token exchange: %w'' []) (client (exchange_request u code verifier redirect)))
       read_token_answer)"

definition nonce_claim :: "string \<Rightarrow> string option" where
  "nonce_claim payload = unmarshal [''nonce''] (\<lambda>f j n. into_string n j) [] payload"

definition validate_id_token_nonce :: "string \<Rightarrow> string \<Rightarrow> goerr + unit" where
  "validate_id_token_nonce id_token expected =
     (if id_token = [] then Inr ()
      else
        (case split_on (CHR ''.'') id_token of
           [a, b, c] \<Rightarrow>
             (case url64_decode b of
                None \<Rightarrow> Inl (errorf ''invalid id_token payload'' [])
              | Some payload \<Rightarrow>
                  (case nonce_claim payload of
                     None \<Rightarrow> Inl (errorf ''id_token missing nonce'' [])
                   | Some n \<Rightarrow>
                       if n = [] then Inl (errorf ''id_token missing nonce'' [])
                       else guard (n = expected) (errorf ''id_token nonce mismatch'' [])))
         | _ \<Rightarrow> Inl (errorf ''invalid id_token'' [])))"

section \<open>Pages\<close>

definition page_head :: string where
  \<open>page_head =
     ''<!doctype html>''
     @ [LF]
     @ ''<html><head><meta charset="utf-8"><title>Familiar Fleet</title><style>''
     @ [LF]
     @ ''body{font:16px system-ui,sans-serif;max-width:34rem;margin:12vh auto;padding:0 1.5rem;color:#222}lab''
     @ ''el,input,button{display:block}input{box-sizing:border-box;width:100%;padding:.65rem;margin:.5rem 0 1''
     @ ''rem}button{padding:.6rem 1rem}small{color:#555}.error{color:#a00}</style></head>''
     @ [LF]
     @ ''<body>''\<close>

definition form_open :: string where
  \<open>form_open =
     ''<h1>Connect this machine</h1><form method="post" action="/enroll"><input type="hidden" name="state" ''
     @ ''value="''\<close>

definition form_name :: string where
  \<open>form_name =
     ''"><label for="name">Machine name</label><input id="name" name="name" required maxlength="63" pattern''
     @ ''="[A-Za-z0-9](?:[A-Za-z0-9-]{0,61}[A-Za-z0-9])?" value="''\<close>

definition form_close :: string where
  \<open>form_close =
     ''" autofocus><button type="submit">Connect</button></form><small>One DNS label: letters, digits, and ''
     @ ''interior hyphens.</small>''\<close>

definition success_body :: string where
  \<open>success_body =
     ''<h1>Connected</h1><p>This machine is connected; you can close this tab.</p>''\<close>

definition error_open :: string where
  \<open>error_open =
     ''<h1>Could not connect</h1><p class="error">''\<close>

definition error_close :: string where
  \<open>error_close =
     ''</p>''\<close>

definition page_tail :: string where
  \<open>page_tail =
     ''</body></html>''\<close>


datatype page_kind = FormPage | SuccessPage | ErrorPage

record page_data =
  pg_kind :: page_kind
  pg_name :: string
  pg_message :: string
  pg_state :: string

definition form_page :: "string \<Rightarrow> string \<Rightarrow> page_data" where
  "form_page name st = \<lparr>pg_kind = FormPage, pg_name = name, pg_message = [], pg_state = st\<rparr>"

definition success_page :: page_data where
  "success_page = \<lparr>pg_kind = SuccessPage, pg_name = [], pg_message = [], pg_state = []\<rparr>"

definition error_page :: "string \<Rightarrow> page_data" where
  "error_page msg = \<lparr>pg_kind = ErrorPage, pg_name = [], pg_message = msg, pg_state = []\<rparr>"

text \<open>What \<open>pageTemplate\<close> makes of its data.\<close>

definition page_html :: "page_data \<Rightarrow> string" where
  "page_html d =
     page_head
     @ (case pg_kind d of
          FormPage \<Rightarrow> form_open @ html_escape (pg_state d) @ form_name @ html_escape (pg_name d) @ form_close
        | SuccessPage \<Rightarrow> success_body
        | ErrorPage \<Rightarrow> error_open @ html_escape (pg_message d) @ error_close)
     @ page_tail"

record served =
  sv_code :: int
  sv_headers :: "(string \<times> string) list"
  sv_body :: string

definition render_page :: "int \<Rightarrow> page_data \<Rightarrow> served" where
  "render_page code d =
     \<lparr>sv_code = code,
      sv_headers = [(''Content-Type'', ''text/html; charset=utf-8''), (''Cache-Control'', ''no-store''),
                    (''X-Content-Type-Options'', ''nosniff'')],
      sv_body = page_html d\<rparr>"

text \<open>\<open>http.Error\<close>.\<close>

definition plain_error :: "int \<Rightarrow> string \<Rightarrow> served" where
  "plain_error code msg =
     \<lparr>sv_code = code,
      sv_headers = [(''Content-Type'', ''text/plain; charset=utf-8''), (''X-Content-Type-Options'', ''nosniff'')],
      sv_body = msg @ [LF]\<rparr>"

section \<open>Opening the browser\<close>

text \<open>\<open>look\<close> is \<open>exec.LookPath\<close>, \<open>launch\<close> whether a command starts; nobody waits for it.\<close>

definition open_browser :: "string \<Rightarrow> (string \<Rightarrow> goerr + string) \<Rightarrow> (string \<Rightarrow> string list \<Rightarrow> goerr + unit) \<Rightarrow> string \<Rightarrow> goerr + unit" where
  "open_browser goos look launch u =
     bind_ok (if goos = ''darwin'' then Inr ''open''
              else if goos = ''linux'' then Inr ''xdg-open''
              else Inl (errorf ''cannot open a browser on %s; open this URL manually: %s'' [goos, u])) (\<lambda>command.
     bind_ok (map_err (\<lambda>_. errorf ''cannot find %s to open a browser; open this URL manually: %s'' [command, u]) (look command)) (\<lambda>path.
     map_err (wrapf ''start %s: %w; open this URL manually: %s'' [command, u]) (launch path [u])))"

end
