(* ===== verification/Connect.thy ===== *)
theory Connect
  imports OAuth
begin

text \<open>
  \<open>Connector.Connect\<close> of \<open>internal/client/oauth.go\<close>: one browser login and one enrollment, as a state
  machine.  Three kinds of goroutine take part: the main one (\<open>f_main\<close>), the handler of \<open>/callback\<close> that
  won the race for it (\<open>f_cb\<close>) and the handler of \<open>/enroll\<close> that won (\<open>f_form\<close>); a handler that did not
  win only shows a page.  They share atomic flags, the access token and buffered channels of capacity
  one, which are options here.  Each rule is a step between two points where another goroutine can be
  noticed, in any order.

  The server, the provider and the user are outside: a request of any content arrives at any time, and
  every HTTP exchange of the program may be answered in any way (\<open>client\<close> is chosen anew by each step).
  \<open>finalize\<close> is an operation on the world, and \<open>err_text\<close> prints an error.  \<open>f_log\<close> records, newest first,
  what has been observable.
\<close>

section \<open>Before the server starts\<close>

record login =
  l_endpoint :: string
  l_name :: string
  l_request :: enrollment_request
  l_doc :: oidc_discovery
  l_redirect :: string
  l_params :: oauth_parameters
  l_url :: string

definition callback_address :: "int \<Rightarrow> string" where
  "callback_address n = ''http://127.0.0.1:'' @ itoa n @ ''/callback''"

text \<open>\<open>listen p\<close> binds the loopback port \<open>p\<close> and gives the port that is bound.\<close>

definition prepare_login ::
  "(string \<Rightarrow> string) \<Rightarrow> ((string \<times> string) list \<Rightarrow> (string \<times> string) list) \<Rightarrow> http_client \<Rightarrow> (int \<Rightarrow> goerr + int) \<Rightarrow> randomness
     \<Rightarrow> string \<Rightarrow> string \<Rightarrow> enrollment_request \<Rightarrow> goerr + login" where
  "prepare_login lu order client listen rand raw name r =
     bind_ok (canonical_endpoint lu raw) (\<lambda>endpoint.
     bind_ok (discover_oidc lu order client endpoint) (\<lambda>doc.
     bind_ok (map_err (wrapf ''bind OAuth callback http://127.0.0.1:%d/callback: %w'' [itoa oidc_redirect_port])
       (listen oidc_redirect_port)) (\<lambda>bound.
     bind_ok (map_err (wrapf ''generate OAuth parameters: %w'' []) (new_oauth_parameters rand)) (\<lambda>p.
     bind_ok (build_authorize_url lu (od_authorization doc) (callback_address bound) (op_state p) (op_nonce p) (op_challenge p)) (\<lambda>u.
     Inr \<lparr>l_endpoint = endpoint, l_name = name, l_request = r, l_doc = doc, l_redirect = callback_address bound,
          l_params = p, l_url = u\<rparr>)))))"

section \<open>Requests that arrive\<close>

text \<open>\<open>in_media\<close> is the media type as \<open>mime.ParseMediaType\<close> reads it; \<open>None\<close> when it fails.\<close>

record incoming =
  in_method :: string
  in_query :: string
  in_media :: "string option"
  in_body :: string

text \<open>\<open>ParseForm\<close> behind a \<open>MaxBytesReader\<close>: the pairs of the body come before those of the address.\<close>

definition parse_form :: "incoming \<Rightarrow> query_values option" where
  "parse_form rq =
     (case in_media rq of
        None \<Rightarrow> None
      | Some m \<Rightarrow>
          (let form = (m = ''application/x-www-form-urlencoded'');
               (post, post_ok) = (if form then parse_query (in_body rq) else ([], True));
               (url, url_ok) = parse_query (in_query rq) in
           if form \<and> length (in_body rq) > 4096 \<or> \<not> post_ok \<or> \<not> url_ok then None else Some (post @ url)))"

definition callback_result :: "login \<Rightarrow> incoming \<Rightarrow> goerr + string" where
  "callback_result l rq =
     (let q = fst (parse_query (in_query rq)) in
      if query_get q ''state'' \<noteq> op_state (l_params l) then Inl (errorf ''authorization state mismatch'' [])
      else if query_get q ''error'' \<noteq> [] then Inl (errorf ''authorization was denied: %s'' [query_get q ''error''])
      else if query_get q ''code'' = [] then Inl (errorf ''authorization callback omitted the code'' [])
      else Inr (query_get q ''code''))"

text \<open>What the handler of the form checks before it claims it: a page, or the machine's name.\<close>

definition form_check :: "(goerr \<Rightarrow> string) \<Rightarrow> login \<Rightarrow> bool \<Rightarrow> incoming \<Rightarrow> served + string" where
  "form_check err_text l auth rq =
     (if in_method rq \<noteq> ''POST'' then Inl (plain_error 405 ''method not allowed'')
      else
        (case parse_form rq of
           None \<Rightarrow> Inl (render_page 400 (error_page ''Invalid form submission.''))
         | Some q \<Rightarrow>
             if \<not> auth \<or> query_get q ''state'' \<noteq> op_state (l_params l)
             then Inl (render_page 403 (error_page ''Invalid or expired enrollment form.''))
             else
               (let name = trim_space (query_get q ''name'') in
                case validate_machine_name name of
                  Inl e \<Rightarrow> Inl (render_page 400 (error_page (''Invalid machine name: '' @ err_text e)))
                | Inr _ \<Rightarrow> Inr name)))"

text \<open>The exchange of the code, and the check of the ID token.\<close>

definition login_token :: "(string \<Rightarrow> string) \<Rightarrow> http_client \<Rightarrow> login \<Rightarrow> string \<Rightarrow> goerr + string" where
  "login_token lu client l code =
     bind_ok (exchange_code lu client (od_token (l_doc l)) code (op_verifier (l_params l)) (l_redirect l)) (\<lambda>t.
     bind_ok (validate_id_token_nonce (tk_id t) (op_nonce (l_params l))) (\<lambda>_.
     Inr (tk_access t)))"

section \<open>State\<close>

datatype login_pc =
    Opening
  | AwaitCallback
  | CallbackFailed goerr
  | Exchanging string
  | LoginFailed goerr
  | AwaitForm
  | Finishing "goerr + enrollment"
  | Ended "goerr + enrollment"

datatype callback_pc = NoCallback | CallbackRejected goerr | CallbackWaits | CallbackShown

datatype form_pc =
    NoForm
  | Enrolling enrollment_request
  | Saving enrollment
  | Reporting "goerr + enrollment"
  | Rendering "goerr + enrollment"
  | FormShown

datatype login_event =
    Opened string
  | CallbackTaken incoming
  | Exchanged string "goerr + string"
  | FormTaken incoming string
  | Asked enrollment_request string "(goerr + enrollment) option"
  | Finalized enrollment "goerr + unit"
  | Shown served

record flow =
  f_main :: login_pc
  f_cb :: callback_pc
  f_form :: form_pc
  f_cb_used :: bool
  f_form_used :: bool
  f_auth :: bool
  f_token :: string
  f_callback :: "(goerr + string) option"
  f_ready :: "goerr option option"
  f_result :: "(goerr + enrollment) option"
  f_page_sent :: bool
  f_response_sent :: bool
  f_over :: bool
  f_world :: world
  f_log :: "login_event list"

definition start_flow :: "world \<Rightarrow> flow" where
  "start_flow w =
     \<lparr>f_main = Opening, f_cb = NoCallback, f_form = NoForm, f_cb_used = False, f_form_used = False, f_auth = False,
      f_token = [], f_callback = None, f_ready = None, f_result = None, f_page_sent = False, f_response_sent = False,
      f_over = False, f_world = w, f_log = []\<rparr>"

definition logged :: "login_event \<Rightarrow> flow \<Rightarrow> flow" where
  "logged e s = s\<lparr>f_log := e # f_log s\<rparr>"

section \<open>The main goroutine\<close>

inductive login_step :: "(string \<Rightarrow> string) \<Rightarrow> login \<Rightarrow> flow \<Rightarrow> flow \<Rightarrow> bool" for lu l where
  browser_failed:
    "f_main s = Opening \<Longrightarrow> login_step lu l s (logged (Opened (l_url l)) (s\<lparr>f_main := Ended (Inl e)\<rparr>))"
| browser_opened:
    "f_main s = Opening \<Longrightarrow> login_step lu l s (logged (Opened (l_url l)) (s\<lparr>f_main := AwaitCallback\<rparr>))"
| got_code:
    "f_main s = AwaitCallback \<Longrightarrow> f_callback s = Some (Inr code) \<Longrightarrow>
     login_step lu l s (s\<lparr>f_main := Exchanging code, f_callback := None\<rparr>)"
| got_refusal:
    "f_main s = AwaitCallback \<Longrightarrow> f_callback s = Some (Inl e) \<Longrightarrow>
     login_step lu l s (s\<lparr>f_main := CallbackFailed e, f_callback := None\<rparr>)"
| callback_timed_out:
    "f_main s = AwaitCallback \<Longrightarrow> f_over s \<Longrightarrow>
     login_step lu l s (s\<lparr>f_main := Ended (Inl (errorf ''authorization timed out'' []))\<rparr>)"
| server_failed:
    "f_main s = AwaitCallback \<Longrightarrow>
     login_step lu l s (s\<lparr>f_main := Ended (Inl (wrapf ''OAuth callback server: %w'' [] e))\<rparr>)"
| refusal_shown:
    "f_main s = CallbackFailed e \<Longrightarrow> f_page_sent s \<Longrightarrow>
     login_step lu l s (s\<lparr>f_main := Ended (Inl e), f_page_sent := False\<rparr>)"
| exchange_failed:
    "f_main s = Exchanging code \<Longrightarrow> login_token lu client l code = Inl e \<Longrightarrow>
     login_step lu l s (logged (Exchanged code (Inl e)) (s\<lparr>f_main := LoginFailed e, f_ready := Some (Some e)\<rparr>))"
| exchange_done:
    "f_main s = Exchanging code \<Longrightarrow> login_token lu client l code = Inr token \<Longrightarrow>
     login_step lu l s
       (logged (Exchanged code (Inr token))
          (s\<lparr>f_main := AwaitForm, f_token := token, f_auth := True, f_ready := Some None\<rparr>))"
| failure_shown:
    "f_main s = LoginFailed e \<Longrightarrow> f_page_sent s \<Longrightarrow>
     login_step lu l s (s\<lparr>f_main := Ended (Inl e), f_page_sent := False\<rparr>)"
| got_result:
    "f_main s = AwaitForm \<Longrightarrow> f_result s = Some r \<Longrightarrow>
     login_step lu l s (s\<lparr>f_main := Finishing r, f_result := None, f_token := []\<rparr>)"
| finished:
    "f_main s = Finishing r \<Longrightarrow> login_step lu l s (s\<lparr>f_main := Ended r, f_response_sent := False\<rparr>)"
| form_timed_out:
    "f_main s = AwaitForm \<Longrightarrow> f_over s \<Longrightarrow>
     login_step lu l s (s\<lparr>f_main := Ended (Inl (errorf ''machine-name form timed out'' [])), f_token := []\<rparr>)"

section \<open>The handler of the callback\<close>

inductive callback_step :: "(goerr \<Rightarrow> string) \<Rightarrow> login \<Rightarrow> flow \<Rightarrow> flow \<Rightarrow> bool" for err_text l where
  callback_method:
    "in_method (rq :: incoming) \<noteq> ''GET'' \<Longrightarrow>
     callback_step err_text l s (logged (Shown (plain_error 405 ''method not allowed'')) s)"
| callback_again:
    "in_method (rq :: incoming) = ''GET'' \<Longrightarrow> f_cb_used s \<Longrightarrow>
     callback_step err_text l s (logged (Shown (render_page 409 (error_page ''This authorization callback was already used.''))) s)"
| callback_first:
    "in_method rq = ''GET'' \<Longrightarrow> \<not> f_cb_used s \<Longrightarrow>
     callback_step err_text l s
       (logged (CallbackTaken rq)
          (s\<lparr>f_cb_used := True, f_callback := Some (callback_result l rq),
             f_cb := (case callback_result l rq of Inl e \<Rightarrow> CallbackRejected e | Inr _ \<Rightarrow> CallbackWaits)\<rparr>))"
| callback_refused:
    "f_cb s = CallbackRejected e \<Longrightarrow>
     callback_step err_text l s (logged (Shown (render_page 400 (error_page (err_text e)))) (s\<lparr>f_cb := CallbackShown, f_page_sent := True\<rparr>))"
| callback_form:
    "f_cb s = CallbackWaits \<Longrightarrow> f_ready s = Some None \<Longrightarrow>
     callback_step err_text l s
       (logged (Shown (render_page 200 (form_page (l_name l) (op_state (l_params l)))))
          (s\<lparr>f_cb := CallbackShown, f_ready := None, f_page_sent := True\<rparr>))"
| callback_failed:
    "f_cb s = CallbackWaits \<Longrightarrow> f_ready s = Some (Some e) \<Longrightarrow>
     callback_step err_text l s
       (logged (Shown (render_page 502 (error_page (err_text e)))) (s\<lparr>f_cb := CallbackShown, f_ready := None, f_page_sent := True\<rparr>))"
| callback_gave_up:
    "f_cb s = CallbackWaits \<Longrightarrow> f_over s \<Longrightarrow>
     callback_step err_text l s
       (logged (Shown (render_page 504 (error_page ''Connection setup timed out.''))) (s\<lparr>f_cb := CallbackShown, f_page_sent := True\<rparr>))"

section \<open>The handler of the form\<close>

text \<open>A panic in \<open>Enroll\<close> ends the handler: \<open>net/http\<close> recovers it and closes the connection.\<close>

inductive form_step :: "(string \<Rightarrow> string) \<Rightarrow> (goerr \<Rightarrow> string) \<Rightarrow> (enrollment \<Rightarrow> unit io) \<Rightarrow> login \<Rightarrow> flow \<Rightarrow> flow \<Rightarrow> bool"
  for lu err_text finalize l where
  form_rejected:
    "form_check err_text l (f_auth s) rq = Inl page \<Longrightarrow> form_step lu err_text finalize l s (logged (Shown page) s)"
| form_again:
    "form_check err_text l (f_auth s) rq = Inr name \<Longrightarrow> f_form_used s \<Longrightarrow>
     form_step lu err_text finalize l s
       (logged (Shown (render_page 409 (error_page ''This enrollment form was already submitted.''))) s)"
| form_first:
    "form_check err_text l (f_auth s) rq = Inr name \<Longrightarrow> \<not> f_form_used s \<Longrightarrow>
     form_step lu err_text finalize l s
       (logged (FormTaken rq name) (s\<lparr>f_form_used := True, f_form := Enrolling ((l_request l)\<lparr>req_host := name\<rparr>)\<rparr>))"
| enroll_panicked:
    "f_form s = Enrolling r \<Longrightarrow> enroll lu client (l_endpoint l) (f_token s) r = None \<Longrightarrow>
     form_step lu err_text finalize l s (logged (Asked r (f_token s) None) (s\<lparr>f_form := FormShown\<rparr>))"
| enroll_failed:
    "f_form s = Enrolling r \<Longrightarrow> enroll lu client (l_endpoint l) (f_token s) r = Some (Inl e) \<Longrightarrow>
     form_step lu err_text finalize l s
       (logged (Asked r (f_token s) (Some (Inl e))) (s\<lparr>f_form := Reporting (Inl e), f_token := []\<rparr>))"
| enroll_done:
    "f_form s = Enrolling r \<Longrightarrow> enroll lu client (l_endpoint l) (f_token s) r = Some (Inr en) \<Longrightarrow>
     form_step lu err_text finalize l s
       (logged (Asked r (f_token s) (Some (Inr en))) (s\<lparr>f_form := Saving en, f_token := []\<rparr>))"
| finalize_failed:
    "f_form s = Saving en \<Longrightarrow> finalize en (f_world s) = (Inl e, w') \<Longrightarrow>
     form_step lu err_text finalize l s
       (logged (Finalized en (Inl e)) (s\<lparr>f_form := Reporting (Inl e), f_world := w'\<rparr>))"
| finalize_done:
    "f_form s = Saving en \<Longrightarrow> finalize en (f_world s) = (Inr (), w') \<Longrightarrow>
     form_step lu err_text finalize l s
       (logged (Finalized en (Inr ())) (s\<lparr>f_form := Reporting (Inr en), f_world := w'\<rparr>))"
| result_sent:
    "f_form s = Reporting r \<Longrightarrow>
     form_step lu err_text finalize l s (s\<lparr>f_form := Rendering r, f_result := Some r\<rparr>)"
| result_shown:
    "f_form s = Rendering r \<Longrightarrow>
     form_step lu err_text finalize l s
       (logged (Shown (case r of Inl e \<Rightarrow> render_page 502 (error_page (err_text e)) | Inr _ \<Rightarrow> render_page 200 success_page))
          (s\<lparr>f_form := FormShown, f_response_sent := True\<rparr>))"

section \<open>The whole\<close>

definition connect_step :: "(string \<Rightarrow> string) \<Rightarrow> (goerr \<Rightarrow> string) \<Rightarrow> (enrollment \<Rightarrow> unit io) \<Rightarrow> login \<Rightarrow> flow \<Rightarrow> flow \<Rightarrow> bool" where
  "connect_step lu err_text finalize l s s' \<longleftrightarrow>
     login_step lu l s s' \<or> callback_step err_text l s s' \<or> form_step lu err_text finalize l s s'"

text \<open>Besides the steps of the program, its context may end: the deadline, an interrupt, or the return of \<open>Connect\<close>.\<close>

inductive connecting :: "(string \<Rightarrow> string) \<Rightarrow> (goerr \<Rightarrow> string) \<Rightarrow> (enrollment \<Rightarrow> unit io) \<Rightarrow> login \<Rightarrow> world \<Rightarrow> flow \<Rightarrow> bool"
  for lu err_text finalize l w where
  started: "connecting lu err_text finalize l w (start_flow w)"
| moved: "connecting lu err_text finalize l w s \<Longrightarrow> connect_step lu err_text finalize l s s' \<Longrightarrow> connecting lu err_text finalize l w s'"
| expired: "connecting lu err_text finalize l w s \<Longrightarrow> connecting lu err_text finalize l w (s\<lparr>f_over := True\<rparr>)"

end
