(* ===== verification/Cli.thy ===== *)
theory Cli
  imports Programs Connect Apply HerdrEnv Supervise
begin

text \<open>
  \<open>cmd/familiar-fleet/main.go\<close>: the command line, with the rules of Go's package \<open>flag\<close>, and \<open>run\<close>, which
  composes the components.  What \<open>run\<close> hands over to, the browser login or one of the supervised
  sessions, is its result (\<open>outcome\<close>); the theories \<open>Connect\<close> and \<open>Supervise\<close> take it from there.

  The rest of the machine is the record \<open>machine\<close>: the user and host names, external programs, the HTTP
  client and the parameters of the other theories.  What is only narrated on standard error is left
  out; what is printed on standard output is the list of lines in \<open>Finished\<close> and, where an error follows them,
  in \<open>Complained\<close>.
\<close>

section \<open>Options\<close>

record options =
  o_endpoint :: string
  o_name :: string
  o_token_file :: string
  o_host_key :: string
  o_state_dir :: string
  o_herdr :: string
  o_ssh :: string
  o_sshd :: string
  o_keygen :: string
  o_nix :: string
  o_nix_store :: string

record invocation =
  i_options :: options
  i_command :: string
  i_args :: "string list"

definition default_options :: "string list \<Rightarrow> options" where
  "default_options es =
     \<lparr>o_endpoint = getenv es ''FAMILIAR_FLEET_ENDPOINT'', o_name = [], o_token_file = [],
      o_host_key = getenv es ''FAMILIAR_FLEET_RENDEZVOUS_HOST_KEY'', o_state_dir = [],
      o_herdr = ''herdr'', o_ssh = ''ssh'', o_sshd = ''sshd'', o_keygen = ''ssh-keygen'', o_nix = ''nix'',
      o_nix_store = ''nix-store''\<rparr>"

definition set_option :: "string \<Rightarrow> string \<Rightarrow> options \<Rightarrow> options option" where
  "set_option f v o1 =
     (if f = ''endpoint'' then Some (o1\<lparr>o_endpoint := v\<rparr>)
      else if f = ''name'' then Some (o1\<lparr>o_name := v\<rparr>)
      else if f = ''token-file'' then Some (o1\<lparr>o_token_file := v\<rparr>)
      else if f = ''rendezvous-host-key'' then Some (o1\<lparr>o_host_key := v\<rparr>)
      else if f = ''state-dir'' then Some (o1\<lparr>o_state_dir := v\<rparr>)
      else if f = ''herdr'' then Some (o1\<lparr>o_herdr := v\<rparr>)
      else if f = ''ssh'' then Some (o1\<lparr>o_ssh := v\<rparr>)
      else if f = ''sshd'' then Some (o1\<lparr>o_sshd := v\<rparr>)
      else if f = ''ssh-keygen'' then Some (o1\<lparr>o_keygen := v\<rparr>)
      else if f = ''nix'' then Some (o1\<lparr>o_nix := v\<rparr>)
      else if f = ''nix-store'' then Some (o1\<lparr>o_nix_store := v\<rparr>)
      else None)"

definition err_help :: goerr where
  "err_help = errorf ''flag: help requested'' []"

text \<open>The name of a flag and the value after an equals sign, which is not its first character.\<close>

definition flag_parts :: "string \<Rightarrow> string \<times> string option" where
  "flag_parts s = (case s of [] \<Rightarrow> ([], None) | c # t \<Rightarrow> (case cut (CHR ''='') t of (n, v, f) \<Rightarrow> (c # n, if f then Some v else None)))"

text \<open>\<open>FlagSet.Parse\<close> where every flag takes a string: the options and the remaining arguments.\<close>

fun parse_flags :: "options \<Rightarrow> string list \<Rightarrow> goerr + options \<times> string list" where
  "parse_flags o1 [] = Inr (o1, [])"
| "parse_flags o1 (s # rest) =
     (if length s < 2 \<or> hd s \<noteq> CHR ''-'' then Inr (o1, s # rest)
      else if s = ''--'' then Inr (o1, rest)
      else
        (let body = (if s ! 1 = CHR ''-'' then drop 2 s else drop 1 s); (f, v) = flag_parts body in
         if body = [] \<or> hd body = CHR ''-'' \<or> hd body = CHR ''='' then Inl (errorf ''bad flag syntax: %s'' [s])
         else if set_option f [] o1 = None then
           Inl (if f = ''help'' \<or> f = ''h'' then err_help else errorf ''flag provided but not defined: -%s'' [f])
         else
           (case v of
              Some x \<Rightarrow> parse_flags (the (set_option f x o1)) rest
            | None \<Rightarrow>
                (case rest of
                   [] \<Rightarrow> Inl (errorf ''flag needs an argument: -%s'' [f])
                 | x # rest' \<Rightarrow> parse_flags (the (set_option f x o1)) rest'))))"

definition runtime_usage :: goerr where
  "runtime_usage = errorf ''usage: familiar-fleet [options] runtime apply <installable> | runtime rollback | runtime status'' []"

definition check_command :: "string \<Rightarrow> string list \<Rightarrow> goerr + unit" where
  "check_command command as =
     (if command = ''connect'' then
        guard (length as = 1) (errorf ''usage: familiar-fleet [options] connect <familiar-url>'' [])
      else if command = ''runtime'' then
        (case as of
           [] \<Rightarrow> Inl runtime_usage
         | a # _ \<Rightarrow>
             if a = ''apply'' then guard (length as = 2) runtime_usage
             else if a = ''rollback'' \<or> a = ''status'' then guard (length as = 1) runtime_usage
             else Inl runtime_usage)
      else if command \<in> {''interactive'', ''run'', ''herdr'', ''tunnel'', ''stop'', ''version'', ''enroll''} then
        guard (as = []) (errorf ''command %s takes no arguments'' [command])
      else Inl (errorf ''unknown command %q'' [command]))"

definition parse_invocation :: "string list \<Rightarrow> string list \<Rightarrow> goerr + invocation" where
  "parse_invocation es as =
     bind_ok (parse_flags (default_options es) as) (\<lambda>(o1, rest).
     let command = (case rest of [] \<Rightarrow> ''interactive'' | c # _ \<Rightarrow> c); tail_args = drop 1 rest in
     bind_ok (check_command command tail_args) (\<lambda>_.
     Inr \<lparr>i_options = o1, i_command = command, i_args = tail_args\<rparr>))"

section \<open>The machine and the outcome\<close>

record machine =
  m_euid :: nat
  m_user :: "goerr + string"
  m_hostname :: "goerr + string"
  m_goos :: string
  m_exec :: prog
  m_http :: http_client
  m_lower :: "string \<Rightarrow> string"
  m_renum :: "string \<Rightarrow> string option"
  m_order :: "(string \<times> string) list \<Rightarrow> (string \<times> string) list"
  m_polls :: "poll list"
  m_text :: "goerr \<Rightarrow> string"
  m_version :: string

record login_start =
  ls_paths :: paths
  ls_options :: options
  ls_endpoint :: string
  ls_name :: string
  ls_request :: enrollment_request
  ls_user :: string

datatype outcome =
    Finished "string list"
  | Complained "string list" goerr
  | Login login_start
  | Session mode runtime_cfg "string list"
  | Waiting
  | Panicked

section \<open>The runtime commands\<close>

text \<open>\<open>%-9s\<close>.\<close>

definition pad9 :: "string \<Rightarrow> string" where
  "pad9 s = s @ replicate (9 - length s) CHR '' ''"

definition print_pointer :: "(goerr \<Rightarrow> string) \<Rightarrow> string \<Rightarrow> goerr + string \<Rightarrow> goerr option \<Rightarrow> string" where
  "print_pointer err_text name t err =
     (let shown = (case t of Inl _ \<Rightarrow> [] | Inr x \<Rightarrow> x) in
      case err of
        Some e \<Rightarrow>
          if errors_is e ErrNoRuntime then pad9 (name @ '':'') @ '' (none)''
          else pad9 (name @ '':'') @ '' '' @ shown @ '' (INVALID: '' @ err_text e @ '')''
      | None \<Rightarrow> pad9 (name @ '':'') @ '' '' @ shown @ '' (ok)'')"

definition applier_of :: "paths \<Rightarrow> options \<Rightarrow> applier" where
  "applier_of ps o1 =
     \<lparr>runtime_dir = p_runtime_dir ps, nix_name = o_nix o1, nix_store_name = o_nix_store o1,
      lookup_fn = (\<lambda>n w. fst (find_binary n w))\<rparr>"

definition runtime_command :: "machine \<Rightarrow> paths \<Rightarrow> options \<Rightarrow> string list \<Rightarrow> outcome io" where
  "runtime_command m ps o1 as =
     (let s = \<lparr>sdir = p_runtime_dir ps\<rparr> in
      case as of
        [] \<Rightarrow> ret Panicked
      | a # tail_args \<Rightarrow>
          if a = ''status'' then
            seq (store_status s) (\<lambda>st.
            let told = [''runtime dir: '' @ st_dir st,
              print_pointer (m_text m) ''current'' (st_current st) (st_current_err st),
              print_pointer (m_text m) ''previous'' (st_previous st) (st_previous_err st)] in
            ret (if st_current_err st \<noteq> None then Complained told (errorf ''no usable runtime is activated'' [])
                 else Finished told))
          else if a = ''rollback'' then
            seq (rollback s) (\<lambda>t.
            seq (wrap (wrapf ''runtime rolled back, but pruning old GC roots failed: %w'' []) (prune_gc_roots s)) (\<lambda>_.
            ret (Finished [''runtime/current -> '' @ t])))
          else if a = ''apply'' then
            (case tail_args of
               [] \<Rightarrow> ret Panicked
             | inst # _ \<Rightarrow>
                 seq (apply_runtime (m_exec m) (applier_of ps o1) inst) (\<lambda>r.
                 ret (Finished
                   (if res_skipped r \<or> \<not> res_changed r then [''runtime/current already -> '' @ res_target r]
                    else [''activated runtime/current -> '' @ res_target r,
                          ''new Herdr panes use it immediately; no restart required'']))))
          else fail (errorf ''unknown runtime subcommand %q'' [a]))"

section \<open>Enrollment\<close>

definition prepare_enrollment :: "machine \<Rightarrow> paths \<Rightarrow> options \<Rightarrow> (enrollment_request \<times> string) io" where
  "prepare_enrollment m ps o1 =
     seq (find_binary (o_keygen o1)) (\<lambda>keygen.
     seq (wrap (wrapf ''prepare tunnel identity: %w'' [])
            (ensure_key (m_exec m) keygen (p_tunnel_key ps) ''familiar-fleet-tunnel'')) (\<lambda>tunnel_public.
     seq (wrap (wrapf ''prepare local SSH host identity: %w'' [])
            (ensure_key (m_exec m) keygen (p_host_key ps) ''familiar-fleet-local-sshd'')) (\<lambda>host_public.
     seq (lift (map_err (wrapf ''determine local user: %w'' []) (m_user m))) (\<lambda>user.
     ret (\<lparr>req_host = [], req_tunnel_public_key = tunnel_public, req_ssh_host_public_key = host_public,
           req_ssh_user = user\<rparr>, user)))))"

definition short_hostname :: "machine \<Rightarrow> goerr + string" where
  "short_hostname m =
     bind_ok (map_err (wrapf ''determine hostname: %w'' []) (m_hostname m)) (\<lambda>n. Inr (fst (cut (CHR ''.'') n)))"

definition apply_host_key :: "string \<Rightarrow> enrollment \<Rightarrow> goerr + enrollment" where
  "apply_host_key supplied en =
     (let server = tunnel_host_key en in
      if supplied = [] \<and> server = [] then
        Inl (errorf ''enrollment response omitted tunnel_host_key; supply the trusted key with --rendezvous-host-key'' [])
      else if supplied \<noteq> [] then
        bind_ok (map_err (wrapf ''rendezvous host key: %w'' []) (normalize_public_key supplied)) (\<lambda>key.
        bind_ok
          (if server \<noteq> [] then
             bind_ok (normalize_public_key server) (\<lambda>server_key.
             guard (key = server_key) (errorf ''server and explicitly supplied rendezvous host keys differ'' []))
           else Inr ()) (\<lambda>_.
        Inr (en\<lparr>tunnel_host_key := key\<rparr>)))
      else
        bind_ok (normalize_public_key server) (\<lambda>key.
        Inr (en\<lparr>tunnel_host_key := key\<rparr>)))"

text \<open>The \<open>finalize\<close> callback of \<open>connect\<close>; \<open>debugEnroll\<close> ends with the same two steps.\<close>

definition save_enrollment :: "paths \<Rightarrow> options \<Rightarrow> string \<Rightarrow> string \<Rightarrow> enrollment \<Rightarrow> unit io" where
  "save_enrollment ps o1 endpoint user en =
     seq (lift (apply_host_key (o_host_key o1) en)) (\<lambda>en'.
     wrap (wrapf ''save enrollment: %w'' [])
       (save_state (p_state ps) \<lparr>st_version = 0, st_endpoint = endpoint, st_ssh_user = user, st_enrollment = en'\<rparr>))"

definition connect_start :: "machine \<Rightarrow> paths \<Rightarrow> options \<Rightarrow> string \<Rightarrow> outcome io" where
  "connect_start m ps o1 raw =
     seq (lift (canonical_endpoint (m_lower m) raw)) (\<lambda>endpoint.
     seq (prepare_enrollment m ps o1) (\<lambda>(r, user).
     seq (lift (short_hostname m)) (\<lambda>name.
     ret (Login \<lparr>ls_paths = ps, ls_options = o1, ls_endpoint = endpoint, ls_name = name, ls_request = r, ls_user = user\<rparr>))))"

text \<open>What \<open>connect\<close> does with the result of \<open>Connector.Connect\<close>.\<close>

definition connect_end :: "machine \<Rightarrow> login_start \<Rightarrow> goerr + enrollment \<Rightarrow> apply_result io" where
  "connect_end m ls r =
     seq (lift r) (\<lambda>en.
     wrap (wrapf ''enrollment saved, but activating the enrolled runtime failed: %w'' [])
       (true_up (m_exec m) (applier_of (ls_paths ls) (ls_options ls)) (runtime en)))"

definition enrolled_line :: "enrollment \<Rightarrow> string" where
  "enrolled_line en =
     ''enrolled: host='' @ host en @ '' node_id='' @ node_id en @ '' reverse_port='' @ itoa (port en)
       @ '' rendezvous='' @ tunnel_host en @ '':'' @ itoa (tunnel_ssh_port en)"

definition debug_enroll :: "machine \<Rightarrow> paths \<Rightarrow> options \<Rightarrow> state option \<Rightarrow> outcome io" where
  "debug_enroll m ps o1 st =
     (case st of
        Some s \<Rightarrow> ret (Finished [enrolled_line (st_enrollment s)])
      | None \<Rightarrow>
          if o_endpoint o1 = [] then fail (errorf ''debug enrollment requires --endpoint and --token-file'' [])
          else
            seq (lift (canonical_endpoint (m_lower m) (o_endpoint o1))) (\<lambda>endpoint.
            seq (prepare_enrollment m ps o1) (\<lambda>(r, user).
            seq (if o_name o1 = [] then lift (short_hostname m) else ret (o_name o1)) (\<lambda>name.
            seq (wrap (wrapf ''read enrollment token: %w'' []) (read_token (o_token_file o1))) (\<lambda>token.
            case enroll (m_lower m) (m_http m) endpoint token (r\<lparr>req_host := name\<rparr>) of
              None \<Rightarrow> ret Panicked
            | Some res \<Rightarrow>
                seq (lift res) (\<lambda>en.
                seq (lift (apply_host_key (o_host_key o1) en)) (\<lambda>en'.
                seq (wrap (wrapf ''save enrollment: %w'' [])
                       (save_state (p_state ps)
                         \<lparr>st_version = 0, st_endpoint = endpoint, st_ssh_user = user, st_enrollment = en'\<rparr>)) (\<lambda>_.
                ret (Finished [enrolled_line en']))))))))) "

section \<open>Sessions\<close>

definition session_cfg :: "paths \<Rightarrow> state \<Rightarrow> string \<Rightarrow> string \<Rightarrow> string \<Rightarrow> string list \<Rightarrow> runtime_cfg" where
  "session_cfg ps st herdr ssh sshd env =
     \<lparr>r_paths = ps, r_enrollment = st_enrollment st, r_user = st_ssh_user st, r_herdr = herdr, r_ssh = ssh,
      r_sshd = sshd, r_env = env\<rparr>"

definition starting_line :: "state \<Rightarrow> string" where
  "starting_line st = ''starting node '' @ host (st_enrollment st) @ '' ('' @ node_id (st_enrollment st) @ '')''"

definition runtime_result_line :: "apply_result \<Rightarrow> string" where
  "runtime_result_line r =
     (if res_skipped r then ''runtime already true to the enrolled descriptor: ''
      else if res_changed r then ''runtime activated from the enrolled descriptor: ''
      else ''runtime re-verified against the enrolled descriptor: '') @ res_target r"

definition herdr_env_lines :: "herdr_environment \<Rightarrow> string list" where
  "herdr_env_lines he =
     [''Familiar runtime '' @ he_runtime he @ ''; pane shell adapts around '' @ he_user_shell he,
      ''Tiamat router '' @ t_url (he_tiamat he) @ ''; token file '' @ t_token_file (he_tiamat he)]
     @ map (\<lambda>n. ''note: '' @ n) (he_notes he)"

text \<open>The two \<open>ssh\<close> programs and the log, which the tunnel and the interactive session need.\<close>

definition ssh_tools :: "paths \<Rightarrow> options \<Rightarrow> (string \<times> string) io" where
  "ssh_tools ps o1 =
     seq (find_binary (o_ssh o1)) (\<lambda>ssh.
     seq (find_binary (o_sshd o1)) (\<lambda>sshd.
     seq (wrap (wrapf ''open operational log: %w'' []) (open_log (p_log ps))) (\<lambda>_.
     ret (ssh, sshd))))"

definition run_tunnel :: "paths \<Rightarrow> options \<Rightarrow> state \<Rightarrow> string \<Rightarrow> outcome io" where
  "run_tunnel ps o1 st herdr =
     seq (ssh_tools ps o1) (\<lambda>(ssh, sshd).
     ret (Session TunnelOnly (session_cfg ps st herdr ssh sshd []) [starting_line st]))"

definition run_session :: "machine \<Rightarrow> paths \<Rightarrow> options \<Rightarrow> string \<Rightarrow> state \<Rightarrow> outcome io" where
  "run_session m ps o1 command st =
     seq (lift (map_err (wrapf ''determine local user: %w'' []) (m_user m))) (\<lambda>user.
     if user \<noteq> st_ssh_user st
     then fail (errorf ''enrollment belongs to local user %q, but this process runs as %q'' [st_ssh_user st, user])
     else
       seq (find_binary (o_herdr o1)) (\<lambda>herdr.
       if command = ''tunnel'' then run_tunnel ps o1 st herdr
       else
         seq (true_up (m_exec m) (applier_of ps o1) (runtime (st_enrollment st))) (\<lambda>r.
         seq (\<lambda>w. prepare_herdr_environment (m_renum m) (m_order m) (m_goos m) (m_exec m) ps herdr (environ w) w) (\<lambda>prepared.
         case prepared of
           None \<Rightarrow> ret Panicked
         | Some he \<Rightarrow>
             let told = runtime_result_line r # herdr_env_lines he in
             if command = ''herdr'' then ret (Session Service (session_cfg ps st herdr [] [] (he_env he)) told)
             else
               seq (ssh_tools ps o1) (\<lambda>(ssh, sshd).
               ret (Session Interactive (session_cfg ps st herdr ssh sshd (he_env he)) (starting_line st # told)))))))"

section \<open>\<open>run\<close>\<close>

definition stop_command :: "machine \<Rightarrow> options \<Rightarrow> outcome io" where
  "stop_command m o1 =
     seq (find_binary (o_herdr o1)) (\<lambda>herdr.
     seq (\<lambda>w. stop_herdr_session (m_exec m) herdr (environ w) (m_polls m) w) (\<lambda>r.
     ret (case r of None \<Rightarrow> Waiting | Some _ \<Rightarrow> Finished [])))"

definition run_enrolled :: "machine \<Rightarrow> paths \<Rightarrow> invocation \<Rightarrow> outcome io" where
  "run_enrolled m ps iv =
     (let o1 = i_options iv; command = i_command iv in
      seq (load_state (m_lower m) (p_state ps)) (\<lambda>st.
      if st = None \<and> command \<noteq> ''connect'' \<and> command \<noteq> ''enroll''
      then fail (errorf ''not connected; run: familiar-fleet connect <familiar-url>'' [])
      else if command = ''connect'' then
        (case st of
           Some s \<Rightarrow> fail (errorf ''already connected to %s; use a separate --state-dir for another deployment'' [st_endpoint s])
         | None \<Rightarrow>
             if o_token_file o1 \<noteq> [] \<or> o_name o1 \<noteq> []
             then fail (errorf ''connect uses browser authentication and its name form; --token-file and --name are only for debug enroll'' [])
             else connect_start m ps o1 (hd (i_args iv)))
      else if command = ''enroll'' then debug_enroll m ps o1 st
      else run_session m ps o1 command (the st)))"

definition run :: "machine \<Rightarrow> string list \<Rightarrow> outcome io" where
  "run m as =
     seq (\<lambda>w. lift (parse_invocation (environ w) as) w) (\<lambda>iv.
     if i_command iv = ''version'' then ret (Finished [m_version m])
     else
       seq (state_paths (o_state_dir (i_options iv)) (m_euid m)) (\<lambda>ps.
       seq (wrap (wrapf ''prepare state: %w'' []) (ensure_state_dir (p_dir ps))) (\<lambda>_.
       if i_command iv = ''runtime'' then runtime_command m ps (i_options iv) (i_args iv)
       else if i_command iv = ''stop'' then stop_command m (i_options iv)
       else run_enrolled m ps iv)))"

text \<open>The exit status of the process.\<close>

definition exit_status :: "goerr + outcome \<Rightarrow> nat" where
  "exit_status r = (case r of Inl e \<Rightarrow> if errors_is e err_help then 0 else 1 | Inr Panicked \<Rightarrow> 2
     | Inr (Complained _ _) \<Rightarrow> 1 | Inr _ \<Rightarrow> 0)"

end
