(* ===== verification/OAuthProps.thy ===== *)
theory OAuthProps
  imports OAuth
begin

text \<open>
  What the pieces of the browser login guarantee: the shape of its random parameters, the query of the
  authorization address, what a successful discovery and exchange have established, which ID tokens
  pass, and that no data shown in a page can become markup.
\<close>

section \<open>Random parameters\<close>

lemma random_url_string_ok:
  "random_url_string rand i n = Inr s \<Longrightarrow> \<exists>b. rand i n = Inr b \<and> s = url64_encode b"
  by (auto simp: random_url_string_def)

text \<open>
  When the system's random source delivers as many bytes as it is asked for, the state and the nonce
  have 32 characters and the PKCE verifier and challenge 43, the least that PKCE allows for a verifier;
  all are made of letters, digits, hyphens and underscores, so that they need no escaping.  State, nonce
  and verifier decode to the bytes drawn, each from a draw of its own, and the challenge decodes to the
  SHA-256 of the verifier.
\<close>

theorem login_parameters:
  assumes run: "new_oauth_parameters rand = Inr p" and full: "\<forall>i n b. rand i n = Inr b \<longrightarrow> length b = n"
  shows "length (op_state p) = 32 \<and> length (op_nonce p) = 32 \<and> length (op_verifier p) = 43 \<and> length (op_challenge p) = 43
    \<and> list_all url64_ok (op_state p @ op_nonce p @ op_verifier p @ op_challenge p)
    \<and> map url64_decode [op_state p, op_nonce p, op_verifier p] = map Some [projr (rand 0 24), projr (rand 1 24), projr (rand 2 32)]
    \<and> url64_decode (op_challenge p) = Some (sha256 (op_verifier p))"
proof -
  from run obtain a b c where draws: "rand 0 24 = Inr a" "rand 1 24 = Inr b" "rand 2 32 = Inr c"
    and p: "p = \<lparr>op_state = url64_encode a, op_nonce = url64_encode b, op_verifier = url64_encode c,
      op_challenge = url64_encode (sha256 (url64_encode c))\<rparr>"
    by (auto simp: new_oauth_parameters_def dest!: random_url_string_ok)
  with full have "length a = 24" "length b = 24" "length c = 32" by blast+
  with draws p show ?thesis
    by (auto simp: url64_length length_sha256 url64.decodes list_all_iff dest: url64_encode_ok)
qed

section \<open>The authorization address\<close>

lemma map_of_query_set: "map_of (query_set k v q) = (map_of q)(k \<mapsto> v)"
  by (induction q) (auto simp: query_set_def fun_eq_iff)

text \<open>
  C38. The address the browser is sent to is the authorization endpoint with its query replaced, and that
  query, read as a server reads it, is well formed and has exactly the parameters of an authorization
  code request with PKCE (the given redirect address, state, nonce and challenge, whatever bytes they are
  made of) on top of those the endpoint had.
\<close>

theorem authorize_url_says:
  assumes "build_authorize_url lu endpoint redirect st nonce challenge = Inr t"
  shows "\<exists>u q. parse_url lu endpoint = Some u \<and> t = url_string (u\<lparr>u_raw_query := q\<rparr>) \<and> snd (parse_query q)
    \<and> map_of (fst (parse_query q)) =
        (map_of (fst (parse_query (u_raw_query u))))
          (''response_type'' \<mapsto> ''code'', ''client_id'' \<mapsto> ''familiar-desktop'', ''redirect_uri'' \<mapsto> redirect,
           ''scope'' \<mapsto> ''openid profile email'', ''state'' \<mapsto> st, ''nonce'' \<mapsto> nonce, ''code_challenge'' \<mapsto> challenge,
           ''code_challenge_method'' \<mapsto> ''S256'')"
proof -
  from assms obtain u where u: "parse_url lu endpoint = Some u"
    and t: "t = url_string (u\<lparr>u_raw_query := encode_query (authorize_query redirect st nonce challenge (fst (parse_query (u_raw_query u))))\<rparr>)"
    by (auto simp: build_authorize_url_def split: option.splits)
  show ?thesis
    by (rule exI [of _ u], rule exI, intro conjI, rule u, rule t)
      (simp_all add: parse_encode_query map_of_sort_key authorize_query_def map_of_query_set oidc_client_id_def oidc_scope_def)
qed

section \<open>Discovery and exchange\<close>

lemma read_body_ok: "read_body m r = Inr b \<Longrightarrow> b = rs_body r \<and> length b \<le> 1048576"
  by (auto simp: read_body_def read_limited_def split: if_splits option.split_asm)

lemma fetch_json_ok:
  assumes "fetch_json lu client decode u = Inr r"
  shows "\<exists>resp. client (get_request u) = Inr resp \<and> success resp \<and> length (rs_body resp) \<le> 1048576 \<and> decode (rs_body resp) = Some r"
proof -
  from assms obtain resp b where "client (get_request u) = Inr resp" "success resp"
    "read_body ''discovery response exceeds 1 MiB'' resp = Inr b" "decode b = Some r"
    by (auto simp: fetch_json_def split: option.split_asm)
  with read_body_ok [OF this(3)] show ?thesis by auto
qed

lemma check_endpoints_ok: "check_endpoints lu es = Inr u \<longleftrightarrow> (\<forall>(l, v) \<in> set es. is_ok (canonical_endpoint lu v))"
  by (induction es) (auto simp: is_ok_def split: sum.splits)

text \<open>
  C37. A successful discovery has asked the given endpoint for its authorization server, and the
  document it returns is the one that this server publishes under its own canonical name; the endpoints
  in it are acceptable addresses (HTTPS, or loopback), and if it says which PKCE methods there are, then
  S256 is one.
\<close>

theorem discovery_sound:
  assumes run: "discover_oidc lu order client endpoint = Inr doc" and order: "\<And>xs. set (order xs) = set xs"
  shows "\<exists>base r1 resource issuer r2. canonical_endpoint lu endpoint = Inr base
    \<and> client (get_request (base @ ''/.well-known/oauth-protected-resource'')) = Inr r1 \<and> success r1
    \<and> read_resource (rs_body r1) = Some resource \<and> rm_servers resource \<noteq> []
    \<and> canonical_endpoint lu (hd (rm_servers resource)) = Inr issuer
    \<and> client (get_request (issuer @ ''/.well-known/openid-configuration'')) = Inr r2 \<and> success r2
    \<and> read_discovery (rs_body r2) = Some doc \<and> canonical_endpoint lu (od_issuer doc) = Inr issuer
    \<and> is_ok (canonical_endpoint lu (od_authorization doc)) \<and> is_ok (canonical_endpoint lu (od_token doc))
    \<and> (od_methods doc = [] \<or> ''S256'' \<in> set (od_methods doc))"
proof -
  from run obtain base resource issuer where
    "canonical_endpoint lu endpoint = Inr base"
    "fetch_json lu client read_resource (base @ ''/.well-known/oauth-protected-resource'') = Inr resource"
    "rm_servers resource \<noteq> []" "canonical_endpoint lu (hd (rm_servers resource)) = Inr issuer"
    "fetch_json lu client read_discovery (issuer @ ''/.well-known/openid-configuration'') = Inr doc"
    "canonical_endpoint lu (od_issuer doc) = Inr issuer"
    "is_ok (canonical_endpoint lu (od_authorization doc))" "is_ok (canonical_endpoint lu (od_token doc))"
    "od_methods doc = [] \<or> ''S256'' \<in> set (od_methods doc)"
    by (auto simp: discover_oidc_def check_endpoints_ok order)
  with fetch_json_ok [OF this(2)] fetch_json_ok [OF this(5)] show ?thesis by blast
qed

text \<open>
  C39. A successful code exchange was one POST to the token endpoint whose form, read as a server reads
  it, has exactly the code, the verifier, the redirect address and the client's name; the answer had a
  success status and at most a megabyte, and the access token in it is not empty.
\<close>

theorem code_exchanged:
  assumes run: "exchange_code lu client u code verifier redirect = Inr t"
  shows "\<exists>resp. client (exchange_request u code verifier redirect) = Inr resp
    \<and> rq_url (exchange_request u code verifier redirect) = u
    \<and> parse_query (rq_body (exchange_request u code verifier redirect)) =
        ([(''client_id'', ''familiar-desktop''), (''code'', code), (''code_verifier'', verifier),
          (''grant_type'', ''authorization_code''), (''redirect_uri'', redirect)], True)
    \<and> success resp \<and> length (rs_body resp) \<le> 1048576
    \<and> read_token_response (rs_body resp) = Some t \<and> tk_access t \<noteq> []"
proof -
  from run obtain resp b where resp: "client (exchange_request u code verifier redirect) = Inr resp" "success resp" "tk_access t \<noteq> []"
    and b: "read_body ''token response exceeds 1 MiB'' resp = Inr b" "read_token_response b = Some t"
    by (auto simp: exchange_code_def read_token_answer_def split: option.split_asm)
  have "sort_key fst [(''grant_type'', ''authorization_code''), (''code'', code), (''code_verifier'', verifier),
        (''redirect_uri'', redirect), (''client_id'', oidc_client_id)] =
      [(''client_id'', oidc_client_id), (''code'', code), (''code_verifier'', verifier),
       (''grant_type'', ''authorization_code''), (''redirect_uri'', redirect)]"
    by code_simp
  then have "parse_query (rq_body (exchange_request u code verifier redirect)) =
      ([(''client_id'', ''familiar-desktop''), (''code'', code), (''code_verifier'', verifier),
        (''grant_type'', ''authorization_code''), (''redirect_uri'', redirect)], True)"
    by (simp add: exchange_request_def parse_encode_query oidc_client_id_def)
  with resp b read_body_ok [OF b(1)] show ?thesis by (auto simp: exchange_request_def)
qed

section \<open>ID tokens\<close>

lemma split_three:
  "split_on d s = [a, b, c] \<longleftrightarrow> s = a @ d # b @ d # c \<and> d \<notin> set a \<and> d \<notin> set b \<and> d \<notin> set c"
proof
  assume eq: "split_on d s = [a, b, c]"
  have "s = join [d] (split_on d s)" by (simp add: join_split_on)
  moreover have "\<forall>p \<in> set [a, b, c]. d \<notin> set p" using split_on_parts_no_sep [of _ d s] eq by simp
  ultimately show "s = a @ d # b @ d # c \<and> d \<notin> set a \<and> d \<notin> set b \<and> d \<notin> set c" by (simp add: eq)
qed (auto simp: split_on_append_sep split_on_no_sep)

text \<open>
  C36. An ID token passes exactly when there is none, or it has three parts of which the middle one
  decodes to a JSON object whose nonce is the one sent, which is not empty.
\<close>

theorem id_token_nonce_exact:
  "validate_id_token_nonce tok expected = Inr () \<longleftrightarrow>
     tok = []
     \<or> (\<exists>h b s payload. tok = h @ ''.'' @ b @ ''.'' @ s \<and> CHR ''.'' \<notin> set (h @ b @ s)
          \<and> url64_decode b = Some payload \<and> nonce_claim payload = Some expected \<and> expected \<noteq> [])"
proof -
  have "validate_id_token_nonce tok expected = Inr () \<longleftrightarrow>
     tok = [] \<or> (\<exists>h b s payload. split_on (CHR ''.'') tok = [h, b, s] \<and> url64_decode b = Some payload
        \<and> nonce_claim payload = Some expected \<and> expected \<noteq> [])"
    by (auto simp: validate_id_token_nonce_def split: list.splits option.splits if_splits)
  then show ?thesis by (auto simp: split_three)
qed

section \<open>Pages\<close>

definition markup :: "string \<Rightarrow> string" where
  "markup s = filter (\<lambda>c. c \<in> {CHR ''<'', CHR ''>'', DQUOTE, SQUOTE}) s"

lemma markup_escape [simp]: "markup (html_escape s) = []"
  by (auto simp: markup_def filter_empty_conv dest: html_escape_plain)

lemma markup_append [simp]: "markup (s @ t) = markup s @ markup t"
  by (simp add: markup_def)

text \<open>
  C40. The tags and quotes of a page are those of its template: a machine name, a state or an error
  message, which may repeat what a server or the browser's address said, cannot add any.
\<close>

theorem pages_inert:
  "markup (sv_body (render_page code d)) =
     markup (sv_body (render_page code \<lparr>pg_kind = pg_kind d, pg_name = [], pg_message = [], pg_state = []\<rparr>))"
  by (cases "pg_kind d") (simp_all add: render_page_def page_html_def)

section \<open>One login\<close>

definition demo_rand :: randomness where
  "demo_rand i n = Inr (replicate n (chr i))"

theorem login_parameters_witness:
  "\<exists>p. new_oauth_parameters demo_rand = Inr p \<and> length (op_verifier p) = 43 \<and> length (op_state p) = 32"
proof -
  obtain p where p: "new_oauth_parameters demo_rand = Inr p"
    by (simp add: new_oauth_parameters_def random_url_string_def demo_rand_def)
  have "\<forall>i n b. demo_rand i n = Inr b \<longrightarrow> length b = n" by (auto simp: demo_rand_def)
  from login_parameters [OF p this] p show ?thesis by blast
qed

theorem authorize_url_says_witness:
  "\<exists>t u q. build_authorize_url id ''https://id.example/auth'' ''http://127.0.0.1:17421/callback'' ''a b&c'' ''n'' ''c'' = Inr t
     \<and> t = url_string (u\<lparr>u_raw_query := q\<rparr>) \<and> map_of (fst (parse_query q)) ''state'' = Some ''a b&c''"
proof -
  let ?build = "build_authorize_url id ''https://id.example/auth'' ''http://127.0.0.1:17421/callback'' ''a b&c'' ''n'' ''c''"
  have "is_ok ?build" by code_simp
  then obtain t where t: "?build = Inr t" by (auto simp: is_ok_iff)
  from authorize_url_says [OF t] obtain u q where "t = url_string (u\<lparr>u_raw_query := q\<rparr>)"
    "map_of (fst (parse_query q)) ''state'' = Some ''a b&c''" by auto
  with t show ?thesis by blast
qed

definition demo_answer :: "string \<Rightarrow> http_response" where
  "demo_answer b = \<lparr>rs_code = 200, rs_status = ''200 OK'', rs_body = b, rs_read_err = None\<rparr>"

definition demo_metadata :: string where
  \<open>demo_metadata = ''{"authorization_servers":["https://id.example/"]}''\<close>

definition demo_document :: string where
  \<open>demo_document =
     ''{"issuer":"https://ID.example","authorization_endpoint":"https://id.example/auth",''
       @ ''"token_endpoint":"https://id.example/token","jwks_uri":"x"}''\<close>

definition demo_token :: string where
  \<open>demo_token = ''{"access_token":"secret"}''\<close>

definition demo_idp :: http_client where
  "demo_idp rq =
     (if rq_url rq = ''https://fleet.example/.well-known/oauth-protected-resource'' then Inr (demo_answer demo_metadata)
      else if rq_url rq = ''https://id.example/.well-known/openid-configuration'' then Inr (demo_answer demo_document)
      else if rq_url rq = ''https://id.example/token'' then Inr (demo_answer demo_token)
      else Inl (errorf ''refused'' []))"

definition demo_discovery :: oidc_discovery where
  "demo_discovery = \<lparr>od_issuer = ''https://ID.example'', od_authorization = ''https://id.example/auth'',
     od_token = ''https://id.example/token'', od_methods = []\<rparr>"

definition gives :: "goerr + 'a \<Rightarrow> 'a \<Rightarrow> bool" where
  "gives r x = (case r of Inl _ \<Rightarrow> False | Inr y \<Rightarrow> y = x)"

lemma givesD: "gives r x \<Longrightarrow> r = Inr x"
  by (simp add: gives_def split: sum.split_asm)

lemma read_body_answer: "length b \<le> 1048576 \<Longrightarrow> read_body m (demo_answer b) = Inr b"
  by (simp add: read_body_def read_limited_def demo_answer_def)

lemma fetch_answer:
  "parse_url lu u \<noteq> None \<Longrightarrow> client (get_request u) = Inr (demo_answer b) \<Longrightarrow> length b \<le> 1048576 \<Longrightarrow> decode b = Some r
     \<Longrightarrow> fetch_json lu client decode u = Inr r"
  by (simp add: fetch_json_def read_body_answer) (simp add: success_def demo_answer_def)

lemma demo_documents:
  "map_option rm_servers (read_resource demo_metadata) = Some [''https://id.example/'']"
  "map_option (\<lambda>d. (od_issuer d, od_authorization d, od_token d, od_methods d)) (read_discovery demo_document)
     = Some (''https://ID.example'', ''https://id.example/auth'', ''https://id.example/token'', [])"
  by code_simp+

lemma demo_addresses:
  "gives (canonical_endpoint id ''https://fleet.example/'') ''https://fleet.example''"
  "gives (canonical_endpoint id ''https://id.example/'') ''https://id.example''"
  "gives (canonical_endpoint id ''https://ID.example'') ''https://id.example''"
  "is_ok (canonical_endpoint id ''https://id.example/auth'')"
  "is_ok (canonical_endpoint id ''https://id.example/token'')"
  "parse_url id ''https://fleet.example/.well-known/oauth-protected-resource'' \<noteq> None"
  "parse_url id ''https://id.example/.well-known/openid-configuration'' \<noteq> None"
  "parse_url id ''https://id.example/token'' \<noteq> None"
  by code_simp+

lemma demo_discovers: "discover_oidc id id demo_idp ''https://fleet.example/'' = Inr demo_discovery"
proof -
  obtain r where r: "read_resource demo_metadata = Some r" "rm_servers r = [''https://id.example/'']"
    using demo_documents(1) by auto
  have d: "read_discovery demo_document = Some demo_discovery"
    using demo_documents(2) by (auto simp: demo_discovery_def)
  have "fetch_json id demo_idp read_resource ''https://fleet.example/.well-known/oauth-protected-resource'' = Inr r"
    by (rule fetch_answer [where decode = read_resource, OF demo_addresses(6) _ _ r(1)]) (simp_all add: demo_idp_def get_request_def demo_metadata_def)
  moreover have "fetch_json id demo_idp read_discovery ''https://id.example/.well-known/openid-configuration'' = Inr demo_discovery"
    by (rule fetch_answer [where decode = read_discovery, OF demo_addresses(7) _ _ d]) (simp_all add: demo_idp_def get_request_def demo_document_def)
  ultimately show ?thesis
    using r(2) demo_addresses(1-3) [THEN givesD] demo_addresses(4,5)
    by (auto simp: discover_oidc_def is_ok_iff demo_discovery_def)
qed

theorem discovery_sound_witness:
  "discover_oidc id id demo_idp ''https://fleet.example/'' = Inr demo_discovery
     \<and> (\<exists>issuer. canonical_endpoint id (od_issuer demo_discovery) = Inr issuer \<and> is_ok (canonical_endpoint id (od_token demo_discovery)))"
  using discovery_sound [OF demo_discovers] demo_discovers by auto

theorem code_exchanged_witness:
  "\<exists>t. exchange_code id demo_idp ''https://id.example/token'' ''c&d'' ''v'' ''r'' = Inr t \<and> tk_access t \<noteq> []
     \<and> fst (parse_query (rq_body (exchange_request ''https://id.example/token'' ''c&d'' ''v'' ''r''))) ! 1 = (''code'', ''c&d'')"
proof -
  have "map_option tk_access (read_token_response demo_token) = Some ''secret''" by code_simp
  then obtain t where t: "read_token_response demo_token = Some t" "tk_access t = ''secret''" by auto
  have "read_body m (demo_answer demo_token) = Inr demo_token" for m by (rule read_body_answer) (simp add: demo_token_def)
  with t have "read_token_answer (demo_answer demo_token) = Inr t"
    by (simp add: read_token_answer_def) (simp add: success_def demo_answer_def)
  with demo_addresses(8) have t': "exchange_code id demo_idp ''https://id.example/token'' ''c&d'' ''v'' ''r'' = Inr t"
    by (simp add: exchange_code_def demo_idp_def exchange_request_def)
  from code_exchanged [OF t'] t' show ?thesis by auto
qed

end
