(* ===== verification/ConnectProps.thy ===== *)
theory ConnectProps
  imports Connect OAuthProps Progress
begin

text \<open>
  What every run of the login machine of the theory \<open>Connect\<close> satisfies, whatever requests arrive and in
  whatever order its goroutines move: each thing that can be observed is justified by what was observed
  before it, nothing that must happen once happens twice, and the end of the context ends the login.
\<close>

section \<open>Justified logs\<close>

text \<open>A callback that brings a code, a form that brings a name, and an exchange that brings a token.\<close>

definition brought :: "login \<Rightarrow> incoming \<Rightarrow> string \<Rightarrow> bool" where
  "brought l rq code \<longleftrightarrow> query_get (fst (parse_query (in_query rq))) ''state'' = op_state (l_params l)
     \<and> query_get (fst (parse_query (in_query rq))) ''error'' = []
     \<and> query_get (fst (parse_query (in_query rq))) ''code'' = code \<and> code \<noteq> []"

definition named :: "login \<Rightarrow> incoming \<Rightarrow> string \<Rightarrow> bool" where
  "named l rq name \<longleftrightarrow> in_method rq = ''POST'' \<and> (\<exists>q. parse_form rq = Some q
     \<and> query_get q ''state'' = op_state (l_params l) \<and> trim_space (query_get q ''name'') = name)
     \<and> validate_machine_name name = Inr ()"

definition earned :: "(string \<Rightarrow> string) \<Rightarrow> login \<Rightarrow> string \<Rightarrow> string \<Rightarrow> bool" where
  "earned lu l code tok \<longleftrightarrow> (\<exists>client t.
     exchange_code lu client (od_token (l_doc l)) code (op_verifier (l_params l)) (l_redirect l) = Inr t
     \<and> validate_id_token_nonce (tk_id t) (op_nonce (l_params l)) = Inr () \<and> tok = tk_access t)"

lemma callback_result_iff: "callback_result l rq = Inr code \<longleftrightarrow> brought l rq code"
  by (auto simp: callback_result_def brought_def Let_def)

lemma form_check_iff: "form_check err_text l a rq = Inr name \<longleftrightarrow> a \<and> named l rq name"
  by (auto simp: form_check_def named_def Let_def split: option.split sum.split)

lemma login_token_earned: "login_token lu client l code = Inr tok \<Longrightarrow> earned lu l code tok"
  by (auto simp: login_token_def earned_def)

definition code_known :: "login \<Rightarrow> login_event list \<Rightarrow> string \<Rightarrow> bool" where
  "code_known l g code \<longleftrightarrow> (\<exists>rq. CallbackTaken rq \<in> set g \<and> brought l rq code)"

definition token_known :: "login_event list \<Rightarrow> string \<Rightarrow> bool" where
  "token_known g tok \<longleftrightarrow> (\<exists>code. Exchanged code (Inr tok) \<in> set g)"

definition name_known :: "login \<Rightarrow> login_event list \<Rightarrow> enrollment_request \<Rightarrow> bool" where
  "name_known l g r \<longleftrightarrow> (\<exists>rq name. FormTaken rq name \<in> set g \<and> r = (l_request l)\<lparr>req_host := name\<rparr>)"

definition node_known :: "login_event list \<Rightarrow> enrollment \<Rightarrow> bool" where
  "node_known g en \<longleftrightarrow> (\<exists>r tok. Asked r tok (Some (Inr en)) \<in> set g)"

definition saved_known :: "login_event list \<Rightarrow> enrollment \<Rightarrow> bool" where
  "saved_known g en \<longleftrightarrow> Finalized en (Inr ()) \<in> set g"

definition authorized :: "login_event list \<Rightarrow> bool" where
  "authorized g \<longleftrightarrow> (\<exists>tok. token_known g tok)"

lemmas known_defs = code_known_def token_known_def name_known_def node_known_def saved_known_def authorized_def

lemma known_simps [simp]:
  "code_known l (e # g) code \<longleftrightarrow> (\<exists>rq. e = CallbackTaken rq \<and> brought l rq code) \<or> code_known l g code"
  "token_known (e # g) tok \<longleftrightarrow> (\<exists>code. e = Exchanged code (Inr tok)) \<or> token_known g tok"
  "name_known l (e # g) r \<longleftrightarrow> (\<exists>rq name. e = FormTaken rq name \<and> r = (l_request l)\<lparr>req_host := name\<rparr>) \<or> name_known l g r"
  "node_known (e # g) en \<longleftrightarrow> (\<exists>r tok. e = Asked r tok (Some (Inr en))) \<or> node_known g en"
  "saved_known (e # g) en \<longleftrightarrow> e = Finalized en (Inr ()) \<or> saved_known g en"
  "authorized (e # g) \<longleftrightarrow> (\<exists>code tok. e = Exchanged code (Inr tok)) \<or> authorized g"
  "\<not> code_known l [] code" "\<not> token_known [] tok" "\<not> name_known l [] r" "\<not> node_known [] en" "\<not> saved_known [] en" "\<not> authorized []"
  by (auto simp: known_defs)

text \<open>What an event needs to have before it.\<close>

fun justified :: "(string \<Rightarrow> string) \<Rightarrow> (goerr \<Rightarrow> string) \<Rightarrow> login \<Rightarrow> login_event list \<Rightarrow> login_event \<Rightarrow> bool" where
  "justified lu err_text l g (Opened u) \<longleftrightarrow> u = l_url l"
| "justified lu err_text l g (CallbackTaken rq) \<longleftrightarrow> in_method rq = ''GET''"
| "justified lu err_text l g (Exchanged code r) \<longleftrightarrow>
     code_known l g code \<and> (\<forall>tok. r = Inr tok \<longrightarrow> earned lu l code tok)"
| "justified lu err_text l g (FormTaken rq name) \<longleftrightarrow>
     named l rq name \<and> authorized g"
| "justified lu err_text l g (Asked r tok x) \<longleftrightarrow>
     name_known l g r \<and> (tok = [] \<or> token_known g tok) \<and> (\<exists>client. enroll lu client (l_endpoint l) tok r = x)"
| "justified lu err_text l g (Finalized en x) \<longleftrightarrow> node_known g en"
| "justified lu err_text l g (Shown p) \<longleftrightarrow>
     (p = render_page 200 success_page \<longrightarrow> (\<exists>en. saved_known g en))
     \<and> (p = render_page 200 (form_page (l_name l) (op_state (l_params l))) \<longrightarrow> authorized g)"

fun log_ok :: "(string \<Rightarrow> string) \<Rightarrow> (goerr \<Rightarrow> string) \<Rightarrow> login \<Rightarrow> login_event list \<Rightarrow> bool" where
  "log_ok lu err_text l [] = True"
| "log_ok lu err_text l (e # g) \<longleftrightarrow> justified lu err_text l g e \<and> log_ok lu err_text l g"

lemma log_ok_split: "log_ok lu err_text l (h @ e # g) \<Longrightarrow> justified lu err_text l g e"
  by (induction h) auto

datatype event_kind = KOpened | KCallback | KExchanged | KForm | KAsked | KFinalized | KShown

fun kind_of :: "login_event \<Rightarrow> event_kind" where
  "kind_of (Opened u) = KOpened"
| "kind_of (CallbackTaken rq) = KCallback"
| "kind_of (Exchanged code r) = KExchanged"
| "kind_of (FormTaken rq name) = KForm"
| "kind_of (Asked r tok x) = KAsked"
| "kind_of (Finalized en x) = KFinalized"
| "kind_of (Shown p) = KShown"

definition occurs :: "event_kind \<Rightarrow> login_event list \<Rightarrow> nat" where
  "occurs k g = length (filter (\<lambda>e. kind_of e = k) g)"

lemma occurs_simps [simp]:
  "occurs k [] = 0"
  "occurs k (e # g) = (if kind_of e = k then Suc (occurs k g) else occurs k g)"
  by (simp_all add: occurs_def)

text \<open>The pages that are neither the form nor the success page.\<close>

definition plain_page :: "login \<Rightarrow> served \<Rightarrow> bool" where
  "plain_page l p \<longleftrightarrow> p \<noteq> render_page 200 success_page \<and> p \<noteq> render_page 200 (form_page (l_name l) (op_state (l_params l)))"

lemma plain_pages [simp]:
  "c \<noteq> 200 \<Longrightarrow> plain_page l (render_page c d)"
  "c \<noteq> 200 \<Longrightarrow> plain_page l (plain_error c m)"
  by (simp_all add: plain_page_def render_page_def plain_error_def)

lemma form_check_plain: "form_check err_text l a rq = Inl p \<Longrightarrow> plain_page l p"
  by (auto simp: form_check_def Let_def split: if_splits option.split_asm sum.split_asm)

lemma form_not_success: "render_page c (form_page n st) \<noteq> render_page c success_page"
  by (simp add: render_page_def page_html_def form_page_def success_page_def form_open_def success_body_def)

lemma justified_exchanged:
  "code_known l g code \<Longrightarrow> login_token lu client l code = r \<Longrightarrow> justified lu err_text l g (Exchanged code r)"
  by (auto simp: login_token_earned)

lemma justified_asked:
  "name_known l g r \<Longrightarrow> tok = [] \<or> token_known g tok \<Longrightarrow> enroll lu client (l_endpoint l) tok r = x
     \<Longrightarrow> justified lu err_text l g (Asked r tok x)"
  by auto

lemma justified_plain: "plain_page l p \<Longrightarrow> justified lu err_text l g (Shown p)"
  by (simp add: plain_page_def)

lemma justified_form: "authorized g \<Longrightarrow> justified lu err_text l g (Shown (render_page 200 (form_page (l_name l) (op_state (l_params l)))))"
  by (simp add: form_not_success)

lemma justified_result:
  "\<forall>en. r = Inr en \<longrightarrow> saved_known g en \<Longrightarrow>
   justified lu err_text l g (Shown (case r of Inl e \<Rightarrow> render_page 502 (error_page (err_text e)) | Inr _ \<Rightarrow> render_page 200 success_page))"
  using form_not_success [of 200 "l_name l" "op_state (l_params l)"]
  by (cases r) (auto simp: justified_plain simp del: justified.simps(7), auto)

section \<open>The invariant\<close>

definition flow_inv :: "(string \<Rightarrow> string) \<Rightarrow> (goerr \<Rightarrow> string) \<Rightarrow> login \<Rightarrow> flow \<Rightarrow> bool" where
  "flow_inv lu err_text l s \<longleftrightarrow>
     log_ok lu err_text l (f_log s)
     \<and> (\<forall>code. f_callback s = Some (Inr code) \<or> f_main s = Exchanging code \<longrightarrow> code_known l (f_log s) code)
     \<and> (f_auth s \<or> f_ready s = Some None \<longrightarrow> authorized (f_log s))
     \<and> (f_token s = [] \<or> token_known (f_log s) (f_token s))
     \<and> (\<forall>r. f_form s = Enrolling r \<longrightarrow> name_known l (f_log s) r)
     \<and> (\<forall>en. f_form s = Saving en \<longrightarrow> node_known (f_log s) en)
     \<and> (\<forall>en. f_form s \<in> {Reporting (Inr en), Rendering (Inr en)} \<or> f_result s = Some (Inr en)
          \<or> f_main s \<in> {Finishing (Inr en), Ended (Inr en)} \<longrightarrow> saved_known (f_log s) en)"

lemma start_flow_inv: "flow_inv lu err_text l (start_flow w)"
  by (simp add: flow_inv_def start_flow_def)

lemma login_inv: "login_step lu l s s' \<Longrightarrow> flow_inv lu err_text l s \<Longrightarrow> flow_inv lu err_text l s'"
  by (induction rule: login_step.induct)
    (auto simp: flow_inv_def logged_def simp del: justified.simps(3) intro: justified_exchanged)

lemma callback_inv: "callback_step err_text l s s' \<Longrightarrow> flow_inv lu err_text l s \<Longrightarrow> flow_inv lu err_text l s'"
  by (induction rule: callback_step.induct)
    (auto simp: flow_inv_def logged_def justified_plain callback_result_iff simp del: justified.simps(7) intro: justified_form)

lemma form_inv: "form_step lu err_text finalize l s s' \<Longrightarrow> flow_inv lu err_text l s \<Longrightarrow> flow_inv lu err_text l s'"
  by (induction rule: form_step.induct)
    (auto simp: flow_inv_def logged_def justified_plain form_check_iff simp del: justified.simps(5,7) intro: justified_asked
      intro!: justified_result dest: form_check_plain)

text \<open>What must happen once.\<close>

fun before_exchange :: "login_pc \<Rightarrow> bool" where
  "before_exchange Opening = True"
| "before_exchange AwaitCallback = True"
| "before_exchange (CallbackFailed e) = True"
| "before_exchange (Exchanging code) = True"
| "before_exchange _ = False"

fun form_stage :: "form_pc \<Rightarrow> nat" where
  "form_stage NoForm = 0"
| "form_stage (Enrolling r) = 1"
| "form_stage (Saving en) = 2"
| "form_stage (Reporting r) = 3"
| "form_stage (Rendering r) = 4"
| "form_stage FormShown = 5"

definition once_inv :: "flow \<Rightarrow> bool" where
  "once_inv s \<longleftrightarrow>
     occurs KOpened (f_log s) = of_bool (f_main s \<noteq> Opening)
     \<and> occurs KCallback (f_log s) = of_bool (f_cb_used s)
     \<and> occurs KExchanged (f_log s) \<le> of_bool (\<not> before_exchange (f_main s))
     \<and> occurs KForm (f_log s) = of_bool (f_form_used s) \<and> (f_form_used s \<longleftrightarrow> form_stage (f_form s) > 0)
     \<and> occurs KAsked (f_log s) \<le> of_bool (form_stage (f_form s) > 1)
     \<and> occurs KFinalized (f_log s) \<le> of_bool (form_stage (f_form s) > 2)"

lemma start_once: "once_inv (start_flow w)"
  by (simp add: once_inv_def start_flow_def)

lemma login_once: "login_step lu l s s' \<Longrightarrow> once_inv s \<Longrightarrow> once_inv s'"
  by (induction rule: login_step.induct) (simp_all add: once_inv_def logged_def)

lemma callback_once: "callback_step err_text l s s' \<Longrightarrow> once_inv s \<Longrightarrow> once_inv s'"
  by (induction rule: callback_step.induct) (simp_all add: once_inv_def logged_def)

lemma form_once: "form_step lu err_text finalize l s s' \<Longrightarrow> once_inv s \<Longrightarrow> once_inv s'"
  by (induction rule: form_step.induct) (auto simp: once_inv_def logged_def)

text \<open>The world is the one \<open>finalize\<close> left, once it has run.\<close>

definition world_inv :: "(enrollment \<Rightarrow> unit io) \<Rightarrow> world \<Rightarrow> flow \<Rightarrow> bool" where
  "world_inv finalize w s \<longleftrightarrow>
     (occurs KFinalized (f_log s) = 0 \<longrightarrow> f_world s = w)
     \<and> (\<forall>en r. Finalized en r \<in> set (f_log s) \<longrightarrow> finalize en w = (r, f_world s))"

lemma finalized_occurs: "Finalized en r \<in> set g \<Longrightarrow> occurs KFinalized g \<noteq> 0"
  by (induction g) auto

lemma login_world: "login_step lu l s s' \<Longrightarrow> world_inv finalize w s \<Longrightarrow> world_inv finalize w s'"
  by (induction rule: login_step.induct) (simp_all add: world_inv_def logged_def)

lemma callback_world: "callback_step err_text l s s' \<Longrightarrow> world_inv finalize w s \<Longrightarrow> world_inv finalize w s'"
  by (induction rule: callback_step.induct) (simp_all add: world_inv_def logged_def)

lemma form_world: "form_step lu err_text finalize l s s' \<Longrightarrow> once_inv s \<Longrightarrow> world_inv finalize w s \<Longrightarrow> world_inv finalize w s'"
  by (induction rule: form_step.induct) (auto simp: world_inv_def once_inv_def logged_def dest: finalized_occurs)

lemma connecting_inv:
  "connecting lu err_text finalize l w s \<Longrightarrow> flow_inv lu err_text l s \<and> once_inv s \<and> world_inv finalize w s"
proof (induction rule: connecting.induct)
  case started
  show ?case using start_flow_inv start_once by (simp add: world_inv_def start_flow_def)
next
  case (moved s s')
  then show ?case
    unfolding connect_step_def
    by (meson login_inv callback_inv form_inv login_once callback_once form_once login_world callback_world form_world)
next
  case (expired s)
  then show ?case by (simp add: flow_inv_def once_inv_def world_inv_def)
qed

section \<open>Safety\<close>

text \<open>
  C4. In every run of the login, whatever requests arrive: the browser is opened on the prepared address;
  a code is exchanged only if a callback that bore the login's state brought it, an access token is used
  only if that exchange gave it and its ID token bore the login's nonce; the node is enrolled only under
  a valid name from a form that bore the state and was sent after the exchange; only an enrollment the
  server granted is finalized, and the success page is shown only after \<open>finalize\<close> has succeeded.  None
  of these things happens twice.
\<close>

theorem login_justified:
  assumes "connecting lu err_text finalize l w s"
  shows "(\<forall>h e g. f_log s = h @ e # g \<longrightarrow> justified lu err_text l g e)
    \<and> (\<forall>k. k \<noteq> KShown \<longrightarrow> occurs k (f_log s) \<le> 1)"
proof -
  from connecting_inv [OF assms] have log: "log_ok lu err_text l (f_log s)" and once: "once_inv s"
    by (auto simp: flow_inv_def)
  have "occurs k (f_log s) \<le> 1" if "k \<noteq> KShown" for k
    using once that by (cases k) (auto simp: once_inv_def intro: order_trans)
  then show ?thesis using log by (auto dest: log_ok_split)
qed

lemma enroll_validates:
  "enroll lu client ep tok r = Some (Inr en) \<Longrightarrow> tok \<noteq> [] \<and> validate_enrollment en = Inr ()"
  by (auto simp: enroll_def check_request_def read_enrollment_def Let_def
      split: sum.split_asm option.split_asm if_splits prod.split_asm)

lemma ended_granted:
  assumes run: "connecting lu err_text finalize l w s" and ended: "f_main s = Ended (Inr en)"
  shows "finalize en w = (Inr (), f_world s) \<and>
    (\<exists>name tok code client. Asked ((l_request l)\<lparr>req_host := name\<rparr>) tok (Some (Inr en)) \<in> set (f_log s)
       \<and> Exchanged code (Inr tok) \<in> set (f_log s)
       \<and> enroll lu client (l_endpoint l) tok ((l_request l)\<lparr>req_host := name\<rparr>) = Some (Inr en))"
proof -
  from connecting_inv [OF run] have inv: "flow_inv lu err_text l s" "world_inv finalize w s" by auto
  from inv(1) ended have fin: "Finalized en (Inr ()) \<in> set (f_log s)" by (auto simp: flow_inv_def saved_known_def)
  have later: "justified lu err_text l g e \<and> set g \<subseteq> set (f_log s)" if "f_log s = h @ e # g" for h e g
    using that inv(1) by (auto simp: flow_inv_def dest: log_ok_split)
  from fin obtain h g where "f_log s = h @ Finalized en (Inr ()) # g" by (meson split_list)
  from later [OF this] obtain r tok where asked: "Asked r tok (Some (Inr en)) \<in> set (f_log s)"
    by (auto simp: node_known_def)
  then obtain h g where "f_log s = h @ Asked r tok (Some (Inr en)) # g" by (meson split_list)
  from later [OF this] obtain client name where granted: "enroll lu client (l_endpoint l) tok r = Some (Inr en)"
    and tok: "tok = [] \<or> token_known g tok" "set g \<subseteq> set (f_log s)" and r: "r = (l_request l)\<lparr>req_host := name\<rparr>"
    by (auto simp: name_known_def)
  from enroll_validates [OF granted] tok have "\<exists>code. Exchanged code (Inr tok) \<in> set (f_log s)"
    by (auto simp: token_known_def)
  with inv(2) fin asked granted r show ?thesis by (auto simp: world_inv_def)
qed

text \<open>
  C14. When \<open>Connect\<close> returns an enrollment, it is a valid one, it was granted under the token of this
  login, and \<open>finalize\<close> has run on it and succeeded: the world is the one it left.
\<close>

theorem login_success:
  assumes run: "connecting lu err_text finalize l w s" and ended: "f_main s = Ended (Inr en)"
  shows "finalize en w = (Inr (), f_world s) \<and> validate_enrollment en = Inr ()
    \<and> (\<exists>r tok code. Asked r tok (Some (Inr en)) \<in> set (f_log s) \<and> Exchanged code (Inr tok) \<in> set (f_log s))"
  using ended_granted [OF assms] enroll_validates by blast

section \<open>The login ends\<close>

definition wait_inv :: "flow \<Rightarrow> bool" where
  "wait_inv s \<longleftrightarrow>
     (\<forall>e. f_callback s = Some (Inl e) \<and> before_exchange (f_main s) \<or> f_main s = CallbackFailed e
        \<longrightarrow> f_page_sent s \<or> (\<exists>e. f_cb s = CallbackRejected e))
     \<and> (\<forall>code. f_callback s = Some (Inr code) \<and> before_exchange (f_main s) \<or> f_main s = Exchanging code
        \<longrightarrow> f_page_sent s \<or> f_cb s = CallbackWaits)
     \<and> (\<forall>e. f_main s = LoginFailed e \<longrightarrow> f_page_sent s \<or> f_cb s = CallbackWaits)
     \<and> (f_cb s = NoCallback \<longleftrightarrow> \<not> f_cb_used s)
     \<and> (\<not> f_cb_used s \<longrightarrow> f_callback s = None \<and> (f_main s = Opening \<or> f_main s = AwaitCallback \<or> (\<exists>r. f_main s = Ended r)))"

fun login_left :: "login_pc \<Rightarrow> nat" where
  "login_left Opening = 5"
| "login_left AwaitCallback = 4"
| "login_left (Exchanging code) = 3"
| "login_left AwaitForm = 2"
| "login_left (CallbackFailed e) = 1"
| "login_left (LoginFailed e) = 1"
| "login_left (Finishing r) = 1"
| "login_left (Ended r) = 0"

fun callback_left :: "callback_pc \<Rightarrow> nat" where
  "callback_left NoCallback = 2"
| "callback_left CallbackShown = 0"
| "callback_left _ = 1"

definition flow_left :: "flow \<Rightarrow> nat" where
  "flow_left s = login_left (f_main s) + callback_left (f_cb s) + (5 - form_stage (f_form s))"

definition same_place :: "flow \<Rightarrow> flow \<Rightarrow> bool" where
  "same_place s s' \<longleftrightarrow> f_main s' = f_main s \<and> f_cb s' = f_cb s \<and> f_form s' = f_form s"

lemma login_wait: "login_step lu l s s' \<Longrightarrow> wait_inv s \<Longrightarrow> wait_inv s'"
  by (induction rule: login_step.induct) (auto simp: wait_inv_def logged_def)

lemma callback_wait: "callback_step err_text l s s' \<Longrightarrow> wait_inv s \<Longrightarrow> wait_inv s'"
  by (induction rule: callback_step.induct) (auto simp: wait_inv_def logged_def split: sum.split)

lemma form_wait: "form_step lu err_text finalize l s s' \<Longrightarrow> wait_inv s \<Longrightarrow> wait_inv s'"
  by (induction rule: form_step.induct) (auto simp: wait_inv_def logged_def)

lemma connecting_wait: "connecting lu err_text finalize l w s \<Longrightarrow> wait_inv s"
proof (induction rule: connecting.induct)
  case (moved s s')
  then show ?case unfolding connect_step_def by (auto dest: login_wait callback_wait form_wait)
qed (auto simp: wait_inv_def start_flow_def)

definition nearer_end :: "flow \<Rightarrow> flow \<Rightarrow> bool" where
  "nearer_end s s' \<longleftrightarrow> (f_over s \<longrightarrow> f_over s') \<and> (same_place s s' \<or> flow_left s' < flow_left s)"

lemma login_nearer: "login_step lu l s s' \<Longrightarrow> nearer_end s s'"
  by (induction rule: login_step.induct) (auto simp: nearer_end_def flow_left_def logged_def)

lemma callback_nearer: "callback_step err_text l s s' \<Longrightarrow> wait_inv s \<Longrightarrow> nearer_end s s'"
  by (induction rule: callback_step.induct)
    (auto simp: nearer_end_def flow_left_def logged_def same_place_def wait_inv_def split: sum.split)

lemma form_nearer: "form_step lu err_text finalize l s s' \<Longrightarrow> once_inv s \<Longrightarrow> nearer_end s s'"
  by (induction rule: form_step.induct)
    (auto simp: nearer_end_def flow_left_def logged_def same_place_def once_inv_def)

definition live :: "(string \<Rightarrow> string) \<Rightarrow> (goerr \<Rightarrow> string) \<Rightarrow> (enrollment \<Rightarrow> unit io) \<Rightarrow> login \<Rightarrow> flow \<Rightarrow> flow \<Rightarrow> bool" where
  "live lu err_text finalize l s s' \<longleftrightarrow> connect_step lu err_text finalize l s s' \<and> \<not> same_place s s'"

definition has_ended :: "flow \<Rightarrow> bool" where
  "has_ended s \<longleftrightarrow> (\<exists>r. f_main s = Ended r)"

lemma live_nearer:
  "live lu err_text finalize l s s' \<Longrightarrow> wait_inv s \<Longrightarrow> once_inv s \<Longrightarrow>
   wait_inv s' \<and> once_inv s' \<and> flow_left s' < flow_left s \<and> (f_over s \<longrightarrow> f_over s')"
  unfolding live_def connect_step_def
  by (auto simp: nearer_end_def dest: login_nearer callback_nearer form_nearer login_wait callback_wait form_wait
      login_once callback_once form_once)

lemma liveI:
  "login_step lu l s s' \<Longrightarrow> f_main s' \<noteq> f_main s \<Longrightarrow> \<exists>s'. live lu err_text finalize l s s'"
  "callback_step err_text l s s' \<Longrightarrow> f_cb s' \<noteq> f_cb s \<Longrightarrow> \<exists>s'. live lu err_text finalize l s s'"
  unfolding live_def connect_step_def same_place_def by blast+

lemma login_can_move:
  assumes inv: "wait_inv s" and over: "f_over s" and going: "\<And>r. f_main s \<noteq> Ended r"
  shows "\<exists>s'. live lu err_text finalize l s s'"
proof -
  have page: "\<exists>s'. live lu err_text finalize l s s'" if "f_cb s = CallbackWaits \<or> (\<exists>e. f_cb s = CallbackRejected e)"
    using that over
    by (auto intro: liveI(2) [OF callback_gave_up] liveI(2) [OF callback_refused] simp: logged_def)
  show ?thesis
  proof (cases "f_main s")
    case Opening
    then show ?thesis by (auto intro: liveI(1) [OF browser_opened] simp: logged_def)
  next
    case AwaitCallback
    with over show ?thesis by (auto intro: liveI(1) [OF callback_timed_out])
  next
    case (CallbackFailed e)
    with inv page show ?thesis
      by (cases "f_page_sent s") (auto simp: wait_inv_def intro: liveI(1) [OF refusal_shown])
  next
    case (Exchanging code)
    then show ?thesis
      by (cases "login_token lu client l code")
        (auto intro: liveI(1) [OF exchange_failed] liveI(1) [OF exchange_done] simp: logged_def)
  next
    case (LoginFailed e)
    with inv page show ?thesis
      by (cases "f_page_sent s") (auto simp: wait_inv_def intro: liveI(1) [OF failure_shown])
  next
    case AwaitForm
    with over show ?thesis by (auto intro: liveI(1) [OF form_timed_out])
  next
    case (Finishing r)
    then show ?thesis by (auto intro: liveI(1) [OF finished])
  qed (use going in auto)
qed

text \<open>The end of its context winds a login down.\<close>

interpretation expiry: winding_down "live lu err_text finalize l" has_ended
    "\<lambda>s. wait_inv s \<and> once_inv s \<and> f_over s" flow_left
  for lu err_text finalize l
proof
  fix s
  assume "wait_inv s \<and> once_inv s \<and> f_over s" "\<not> has_ended s"
  then show "\<exists>s'. live lu err_text finalize l s s'" using login_can_move by (auto simp: has_ended_def)
next
  fix s s'
  assume "wait_inv s \<and> once_inv s \<and> f_over s" "live lu err_text finalize l s s'"
  then show "(wait_inv s' \<and> once_inv s' \<and> f_over s') \<and> flow_left s' < flow_left s" using live_nearer by blast
qed

text \<open>
  C13. Once its context is over, by the deadline or an interrupt, \<open>Connect\<close> returns: whatever has happened
  so far, a step that moves one of its goroutines is possible until it has returned, and every sequence
  of such steps is at most twelve long; requests that arrive meanwhile do not hold it up.
\<close>

theorem login_ends:
  assumes "connecting lu err_text finalize l w s" "f_over s"
  shows "inevitable (live lu err_text finalize l) has_ended s
    \<and> (\<forall>n s'. (live lu err_text finalize l ^^ n) s s' \<longrightarrow> n \<le> 12)"
proof (rule expiry.ends_within)
  show "wait_inv s \<and> once_inv s \<and> f_over s"
    using connecting_wait [OF assms(1)] connecting_inv [OF assms(1)] assms(2) by auto
  have "login_left (f_main s) \<le> 5" by (cases "f_main s") auto
  moreover have "callback_left (f_cb s) \<le> 2" by (cases "f_cb s") auto
  ultimately show "flow_left s \<le> 12" by (simp add: flow_left_def)
qed

section \<open>One login\<close>

definition demo_params :: oauth_parameters where
  "demo_params = \<lparr>op_state = ''st'', op_nonce = ''n'', op_verifier = ''v'', op_challenge = ''c''\<rparr>"

definition demo_login :: login where
  "demo_login = \<lparr>l_endpoint = ''https://fleet.example/'', l_name = ''box'', l_request = demo_request, l_doc = demo_discovery,
     l_redirect = ''http://127.0.0.1:17421/callback'', l_params = demo_params, l_url = ''https://id.example/auth?state=st''\<rparr>"

definition demo_callback :: incoming where
  "demo_callback = \<lparr>in_method = ''GET'', in_query = ''code=c%26d&state=st'', in_media = Some [], in_body = []\<rparr>"

definition demo_form :: incoming where
  "demo_form = \<lparr>in_method = ''POST'', in_query = [], in_media = Some ''application/x-www-form-urlencoded'',
     in_body = ''state=st&name=+box+''\<rparr>"

definition keep :: "enrollment \<Rightarrow> unit io" where
  "keep en = ret ()"

lemma demo_callback_code: "callback_result demo_login demo_callback = Inr ''c&d''"
proof -
  have "gives (callback_result demo_login demo_callback) ''c&d''" by code_simp
  then show ?thesis by (rule givesD)
qed

lemma demo_form_name: "form_check (\<lambda>_. []) demo_login True demo_form = Inr ''box''"
proof -
  have "parse_query ''state=st&name=+box+'' = ([(''state'', ''st''), (''name'', '' box '')], True)" "parse_query [] = ([], True)"
    by code_simp+
  then have "parse_form demo_form = Some [(''state'', ''st''), (''name'', '' box '')]" by (simp add: parse_form_def demo_form_def)
  moreover have "gives (validate_machine_name ''box'') ()" "trim_space '' box '' = ''box''" by code_simp+
  ultimately show ?thesis
    by (simp add: form_check_def demo_form_def query_get_def demo_login_def demo_params_def gives_def split: sum.split_asm)
qed

lemma demo_login_token: "login_token id demo_idp demo_login code = Inr ''secret''"
proof -
  obtain t where t: "read_token_response demo_token = Some t" "tk_access t = ''secret''" "tk_id t = []"
  proof -
    have "map_option (\<lambda>t. (tk_access t, tk_id t)) (read_token_response demo_token) = Some (''secret'', [])" by code_simp
    then show thesis using that by auto
  qed
  have "read_body m (demo_answer demo_token) = Inr demo_token" for m by (rule read_body_answer) (simp add: demo_token_def)
  with t have "read_token_answer (demo_answer demo_token) = Inr t"
    by (simp add: read_token_answer_def) (simp add: success_def demo_answer_def)
  with t demo_addresses(8) show ?thesis
    by (simp add: login_token_def exchange_code_def demo_idp_def exchange_request_def demo_login_def demo_discovery_def
        validate_id_token_nonce_def)
qed

lemma connecting_steps:
  "connecting lu err_text finalize l w s \<Longrightarrow> login_step lu l s s' \<Longrightarrow> connecting lu err_text finalize l w s'"
  "connecting lu err_text finalize l w s \<Longrightarrow> callback_step err_text l s s' \<Longrightarrow> connecting lu err_text finalize l w s'"
  "connecting lu err_text finalize l w s \<Longrightarrow> form_step lu err_text finalize l s s' \<Longrightarrow> connecting lu err_text finalize l w s'"
  by (erule connecting.moved, simp add: connect_step_def)+

text \<open>The browser comes back with a code, the provider gives a token, the user names the machine.\<close>

lemma demo_login_run:
  assumes "finalize demo_enrollment w = (Inr (), w')"
  shows "\<exists>s. connecting id (\<lambda>_. []) finalize demo_login w s \<and> f_main s = AwaitForm \<and> f_form s = Rendering (Inr demo_enrollment)
     \<and> f_result s = Some (Inr demo_enrollment) \<and> f_over s = False
     \<and> f_world s = w' \<and> Finalized demo_enrollment (Inr ()) \<in> set (f_log s)"
proof -
  let ?C = "connecting id (\<lambda>_. []) finalize demo_login w"
  have "?C (start_flow w)" by (rule started)
  from connecting_steps(1) [OF this browser_opened] obtain s1 where s1: "?C s1" "f_world s1 = w" "f_main s1 = AwaitCallback" "\<not> f_cb_used s1"
    "f_form s1 = NoForm" "\<not> f_form_used s1" "\<not> f_over s1" by (auto simp: start_flow_def logged_def)
  have "in_method demo_callback = ''GET''" by (simp add: demo_callback_def)
  from connecting_steps(2) [OF s1(1) callback_first [OF this s1(4)]] s1 demo_callback_code
  obtain s2 where s2: "?C s2" "f_world s2 = w" "f_main s2 = AwaitCallback" "f_callback s2 = Some (Inr ''c&d'')"
    "f_form s2 = NoForm" "\<not> f_form_used s2" "\<not> f_over s2" by (auto simp: logged_def)
  from connecting_steps(1) [OF s2(1) got_code [OF s2(3,4)]] s2
  obtain s3 where s3: "?C s3" "f_world s3 = w" "f_main s3 = Exchanging ''c&d''" "f_form s3 = NoForm" "\<not> f_form_used s3" "\<not> f_over s3" by auto
  from connecting_steps(1) [OF s3(1) exchange_done [OF s3(3) demo_login_token]] s3
  obtain s4 where s4: "?C s4" "f_world s4 = w" "f_main s4 = AwaitForm" "f_auth s4" "f_token s4 = ''secret''" "\<not> f_form_used s4" "\<not> f_over s4"
    by (auto simp: logged_def)
  have form: "form_check (\<lambda>_. []) demo_login (f_auth s4) demo_form = Inr ''box''" using s4 demo_form_name by simp
  have req: "(l_request demo_login)\<lparr>req_host := ''box''\<rparr> = demo_request" by (simp add: demo_login_def demo_request_def)
  from connecting_steps(3) [OF s4(1) form_first [OF form s4(6)]] s4 req
  obtain s5 where s5: "?C s5" "f_world s5 = w" "f_main s5 = AwaitForm" "f_form s5 = Enrolling demo_request" "f_token s5 = ''secret''" "\<not> f_over s5"
    by (auto simp: logged_def)
  obtain client where "enroll id client ''https://fleet.example/'' ''secret'' demo_request = Some (Inr demo_enrollment)"
    using demo_enrolls by blast
  then have en: "enroll id client (l_endpoint demo_login) (f_token s5) demo_request = Some (Inr demo_enrollment)"
    using s5 by (simp add: demo_login_def)
  from connecting_steps(3) [OF s5(1) enroll_done [OF s5(4) en]] s5
  obtain s6 where s6: "?C s6" "f_world s6 = w" "f_main s6 = AwaitForm" "f_form s6 = Saving demo_enrollment" "\<not> f_over s6" by (auto simp: logged_def)
  have "finalize demo_enrollment (f_world s6) = (Inr (), w')" using assms s6 by simp
  from connecting_steps(3) [OF s6(1) finalize_done [where finalize = finalize, OF s6(4) this]] s6
  obtain s7 where s7: "?C s7" "f_world s7 = w'" "f_main s7 = AwaitForm" "f_form s7 = Reporting (Inr demo_enrollment)" "\<not> f_over s7"
    "Finalized demo_enrollment (Inr ()) \<in> set (f_log s7)" by (auto simp: logged_def)
  from connecting_steps(3) [OF s7(1) result_sent [OF s7(4)]] s7 show ?thesis by auto
qed

lemma keep_keeps: "keep demo_enrollment w = (Inr (), w)"
  by (simp add: keep_def ret_def)

lemma demo_finished:
  assumes "finalize demo_enrollment w = (Inr (), w')"
  shows "\<exists>s. connecting id (\<lambda>_. []) finalize demo_login w s \<and> f_world s = w' \<and> f_main s = Ended (Inr demo_enrollment)"
proof -
  let ?C = "connecting id (\<lambda>_. []) finalize demo_login w"
  obtain s where s: "?C s" "f_main s = AwaitForm" "f_result s = Some (Inr demo_enrollment)" "f_world s = w'"
    using demo_login_run [where finalize = finalize, OF assms] by blast
  from connecting_steps(1) [OF s(1) got_result [OF s(2,3)]] s
  obtain s' where s': "?C s'" "f_main s' = Finishing (Inr demo_enrollment)" "f_world s' = w'" by auto
  from connecting_steps(1) [OF s'(1) finished [OF s'(2)]] s' show ?thesis by auto
qed

theorem login_justified_witness:
  "\<exists>s. connecting id (\<lambda>_. []) keep demo_login demo_machine s \<and> f_main s = AwaitForm \<and> occurs KFinalized (f_log s) = 1"
proof -
  obtain s where s: "connecting id (\<lambda>_. []) keep demo_login demo_machine s" "f_main s = AwaitForm"
    "Finalized demo_enrollment (Inr ()) \<in> set (f_log s)" using demo_login_run [where finalize = keep, OF keep_keeps] by blast
  from login_justified [OF s(1)] have "occurs KFinalized (f_log s) \<le> 1" by blast
  with finalized_occurs [OF s(3)] s show ?thesis by (metis le_neq_implies_less less_one)
qed

theorem login_success_witness:
  "\<exists>s. connecting id (\<lambda>_. []) keep demo_login demo_machine s \<and> f_main s = Ended (Inr demo_enrollment)
     \<and> keep demo_enrollment demo_machine = (Inr (), f_world s)"
proof -
  obtain s where s: "connecting id (\<lambda>_. []) keep demo_login demo_machine s" "f_main s = Ended (Inr demo_enrollment)"
    using demo_finished [where finalize = keep, OF keep_keeps] by blast
  from login_success [OF s] s show ?thesis by blast
qed

theorem login_ends_witness:
  "\<exists>s. connecting id (\<lambda>_. []) keep demo_login demo_machine s \<and> f_main s = AwaitForm
     \<and> inevitable (live id (\<lambda>_. []) keep demo_login) has_ended s"
proof -
  obtain s where s: "connecting id (\<lambda>_. []) keep demo_login demo_machine s" "f_main s = AwaitForm" using demo_login_run [where finalize = keep, OF keep_keeps] by blast
  have "connecting id (\<lambda>_. []) keep demo_login demo_machine (s\<lparr>f_over := True\<rparr>)" by (rule expired [OF s(1)])
  from login_ends [OF this] s this show ?thesis by auto
qed

text \<open>
  When the deadline passes while the form is being handled, \<open>Connect\<close> may report a timeout although the
  enrollment has been saved and the browser has been told so.
\<close>

lemma timeout_after_success:
  "\<exists>s. connecting id (\<lambda>_. []) keep demo_login w s
     \<and> f_main s = Ended (Inl (errorf ''machine-name form timed out'' []))
     \<and> Finalized demo_enrollment (Inr ()) \<in> set (f_log s)
     \<and> Shown (render_page 200 success_page) \<in> set (f_log s)"
proof -
  let ?C = "connecting id (\<lambda>_. []) keep demo_login w"
  obtain s where s: "?C s" "f_main s = AwaitForm" "f_form s = Rendering (Inr demo_enrollment)"
    "Finalized demo_enrollment (Inr ()) \<in> set (f_log s)" using demo_login_run [where finalize = keep, OF keep_keeps] by blast
  from connecting_steps(3) [OF s(1) result_shown [OF s(3)]] s
  obtain s1 where s1: "?C s1" "f_main s1 = AwaitForm" "Finalized demo_enrollment (Inr ()) \<in> set (f_log s1)"
    "Shown (render_page 200 success_page) \<in> set (f_log s1)" by (auto simp: logged_def)
  have "?C (s1\<lparr>f_over := True\<rparr>)" by (rule expired [OF s1(1)])
  from connecting_steps(1) [OF this form_timed_out] s1 show ?thesis by auto
qed

end
