(* ===== verification/DemoNode.thy ===== *)
theory DemoNode
  imports HerdrEnvProps Programs ApplyProps
begin

text \<open>
  A machine on which every check of a Herdr session passes: an active runtime with the record of how it was
  applied, the Tiamat settings, a shell, and \<open>herdr\<close>.  The witnesses of the command line run on it.
\<close>

definition demo_node :: "string \<Rightarrow> world" where
  "demo_node rec =
     \<lparr>fs = [([''d'', ''runtime'', ''applied.json''], Reg o600 rec), ([''d'', ''runtime'', ''gcroots''], Dir o700),
        ([''bin'', ''herdr''], Reg o755 [])] @ fs (demo_ready ''{}''),
      cwd = [], environ = demo_environ, faults = [], names = [0, 1, 2, 3], hist = []\<rparr>"

lemma demo_node_found:
  "(case find_binary ''herdr'' (demo_node rec) of (Inr p, _) \<Rightarrow> p = ''/bin/herdr'' | _ \<Rightarrow> False)"
  "snd (find_binary ''herdr'' (demo_node rec)) = demo_node rec"
  by code_simp+

lemma demo_node_store:
  "gc_ok \<lparr>sdir = ''/d/runtime''\<rparr> (vis (fs (demo_node rec)))"
  "vis (fs (demo_node rec)) (loc \<lparr>sdir = ''/d/runtime''\<rparr> ''applied.json'') = Some (Reg o600 rec)"
  "link_of (vis (fs (demo_node rec))) \<lparr>sdir = ''/d/runtime''\<rparr> ''current'' = Some ''/r''"
  "usable (demo_node rec) ''/r''" "faults (demo_node rec) = []"
  by code_simp+

lemma demo_node_prepared:
  "(case prepare_herdr_environment Some id ''linux'' demo_prog (paths_in ''/d'') ''/bin/herdr'' demo_environ (demo_node rec) of
      (Inr (Some h), _) \<Rightarrow> True | _ \<Rightarrow> False)"
  by code_simp

end
