(* ===== verification/CliProps.thy ===== *)
theory CliProps
  imports Cli ConnectProps DemoNode
begin

text \<open>
  What the command line guarantees: how its flags are read, which host key is trusted, what a session
  has behind it when it starts, and what a completed login leaves on disk.
\<close>

section \<open>Successful runs\<close>

lemma seq_Inr: "seq m f w = (Inr y, w') \<longleftrightarrow> (\<exists>x w1. m w = (Inr x, w1) \<and> f x w1 = (Inr y, w'))"
  by (auto simp: seq_def split: prod.splits sum.splits)

lemma wrap_Inr: "wrap g m w = (Inr y, w') \<longleftrightarrow> m w = (Inr y, w')"
  by (auto simp: wrap_def split: prod.splits)

lemma lift_Inr: "lift r w = (Inr y, w') \<longleftrightarrow> r = Inr y \<and> w' = w"
  by (auto simp: lift_def)

lemma ret_Inr: "ret x w = (Inr y, w') \<longleftrightarrow> y = x \<and> w' = w"
  by (auto simp: ret_def)

lemma not_fail: "fail e w \<noteq> (Inr y, w')"
  by (simp add: fail_def)

lemmas ran = seq_Inr wrap_Inr lift_Inr ret_Inr not_fail

section \<open>Flags\<close>

definition flag_names :: "string list" where
  "flag_names = [''endpoint'', ''name'', ''token-file'', ''rendezvous-host-key'', ''state-dir'', ''herdr'', ''ssh'',
     ''sshd'', ''ssh-keygen'', ''nix'', ''nix-store'']"

text \<open>An assignment as it may be written: with one or two dashes, the value in the same argument or the next.\<close>

definition spelled :: "bool \<Rightarrow> bool \<Rightarrow> string \<Rightarrow> string \<Rightarrow> string list" where
  "spelled twice joined f v =
     (let d = (if twice then ''--'' else ''-'') @ f in if joined then [d @ ''='' @ v] else [d, v])"

definition set_flag :: "string \<Rightarrow> string \<Rightarrow> options \<Rightarrow> options" where
  "set_flag f v o1 = the (set_option f v o1)"

lemma flag_name_cases:
  assumes "f \<in> set flag_names"
  shows "set_option f v o1 \<noteq> None \<and> f \<noteq> [] \<and> hd f \<noteq> CHR ''-'' \<and> hd f \<noteq> CHR ''='' \<and> CHR ''='' \<notin> set f"
  using assms unfolding flag_names_def by (auto simp: set_option_def)

lemma flag_parts_joined: "f \<noteq> [] \<Longrightarrow> CHR ''='' \<notin> set f \<Longrightarrow> flag_parts (f @ CHR ''='' # v) = (f, Some v)"
  by (cases f) (simp_all add: flag_parts_def cut_first)

lemma cut_no_sep: "c \<notin> set s \<Longrightarrow> cut c s = (s, [], False)"
  by (induction s) auto

lemma flag_parts_alone: "CHR ''='' \<notin> set f \<Longrightarrow> flag_parts f = (f, None)"
  by (cases f) (simp_all add: flag_parts_def cut_no_sep)

lemma parse_one_flag:
  assumes "f \<in> set flag_names"
  shows "parse_flags o1 (spelled twice joined f v @ rest) = parse_flags (set_flag f v o1) rest"
proof -
  obtain c g y z where f: "f = c # g" "c \<noteq> CHR ''-''" "c \<noteq> CHR ''=''" "CHR ''='' \<notin> set f"
    and o: "set_option f [] o1 = Some y" "set_option f v o1 = Some z"
    using flag_name_cases [OF assms, of "[]" o1] flag_name_cases [OF assms, of v o1] by (cases f) auto
  have body: "flag_parts (c # g) = (c # g, None)" "flag_parts (c # g @ CHR ''='' # x) = (c # g, Some x)" for x
    using f flag_parts_alone [of f] flag_parts_joined [of f x] by simp_all
  from f o body show ?thesis
    by (cases twice; cases joined) (simp_all add: spelled_def set_flag_def)
qed

definition is_command :: "string \<Rightarrow> bool" where
  "is_command s \<longleftrightarrow> length s < 2 \<or> hd s \<noteq> CHR ''-''"

type_synonym assignment = "bool \<times> bool \<times> string \<times> string"

definition written :: "assignment list \<Rightarrow> string list" where
  "written given = concat (map (\<lambda>(twice, joined, f, v). spelled twice joined f v) given)"

definition set_flags :: "assignment list \<Rightarrow> options \<Rightarrow> options" where
  "set_flags = fold (\<lambda>(twice, joined, f, v). set_flag f v)"

lemma parse_many_flags:
  "\<forall>(twice, joined, f, v) \<in> set given. f \<in> set flag_names \<Longrightarrow>
   parse_flags o1 (written given @ rest) = parse_flags (set_flags given o1) rest"
  by (induction given arbitrary: o1) (auto simp: parse_one_flag written_def set_flags_def)



section \<open>The grammar of the command line\<close>

definition grammatical :: "string \<Rightarrow> string list \<Rightarrow> bool" where
  "grammatical command args \<longleftrightarrow>
     command = ''connect'' \<and> length args = 1
     \<or> command = ''runtime'' \<and> (args = [''rollback''] \<or> args = [''status''] \<or> length args = 2 \<and> hd args = ''apply'')
     \<or> command \<in> {''interactive'', ''run'', ''herdr'', ''tunnel'', ''stop'', ''version'', ''enroll''} \<and> args = []"

lemma check_command_grammar: "check_command command args = Inr u \<longleftrightarrow> grammatical command args"
  by (cases args; cases "tl args") (auto simp: check_command_def grammatical_def split: if_splits)

text \<open>
  A command line is accepted exactly when the words after its flags are a sentence of the usage text,
  no words at all being \<open>interactive\<close>; and on accepted words \<open>runtimeCommand\<close> never indexes past their end.
\<close>

theorem command_accepted:
  assumes "parse_flags (default_options es) args = Inr (o1, rest)"
  shows "(is_ok (parse_invocation es args) \<longleftrightarrow> grammatical (case rest of [] \<Rightarrow> ''interactive'' | c # _ \<Rightarrow> c) (drop 1 rest))
    \<and> (grammatical ''runtime'' (drop 1 rest) \<longrightarrow> runtime_command m ps o1 (drop 1 rest) w \<noteq> (Inr Panicked, w'))"
proof
  show "is_ok (parse_invocation es args) \<longleftrightarrow> grammatical (case rest of [] \<Rightarrow> ''interactive'' | c # _ \<Rightarrow> c) (drop 1 rest)"
    using assms by (simp add: parse_invocation_def Let_def is_ok_iff check_command_grammar)
  have "runtime_command m ps o1 words w \<noteq> (Inr Panicked, w')" if "grammatical ''runtime'' words" for words
    using that by (cases words; cases "tl words") (auto simp: grammatical_def runtime_command_def ran Let_def)
  then show "grammatical ''runtime'' (drop 1 rest) \<longrightarrow> runtime_command m ps o1 (drop 1 rest) w \<noteq> (Inr Panicked, w')" by blast
qed

theorem command_accepted_witness:
  "\<not> is_ok (parse_invocation [] [''-nix'', ''n'', ''runtime'', ''apply''])"
proof -
  have "parse_flags (default_options []) [''-nix'', ''n'', ''runtime'', ''apply''] = Inr ((default_options [])\<lparr>o_nix := ''n''\<rparr>, [''runtime'', ''apply''])"
    by (simp add: flag_parts_def set_option_def Let_def)
  from command_accepted [OF this] show ?thesis by (simp add: grammatical_def)
qed

section \<open>The rendezvous host key\<close>

text \<open>
  C34. The host key that is trusted is pinned: it is the user's normalized key when one was supplied and
  the server's otherwise; with both, they must agree after normalization, and with neither the
  enrollment is refused.  Nothing else of the enrollment changes.
\<close>

theorem host_key_pinned:
  "apply_host_key supplied en = Inr en' \<longleftrightarrow>
     (\<exists>key. en' = en\<lparr>tunnel_host_key := key\<rparr> \<and> \<not> (supplied = [] \<and> tunnel_host_key en = [])
        \<and> (supplied = [] \<or> normalize_public_key supplied = Inr key)
        \<and> (tunnel_host_key en = [] \<or> normalize_public_key (tunnel_host_key en) = Inr key))"
  by (cases "supplied = []"; cases "tunnel_host_key en = []") (auto simp: apply_host_key_def Let_def)

section \<open>What a session rests on\<close>

definition mode_of :: "string \<Rightarrow> mode" where
  "mode_of command = (if command = ''tunnel'' then TunnelOnly else if command = ''herdr'' then Service else Interactive)"

lemma run_tunnel_session:
  "run_tunnel ps o1 st herdr w = (Inr (Session md cfg told), w') \<Longrightarrow>
     md = TunnelOnly \<and> r_paths cfg = ps \<and> r_enrollment cfg = st_enrollment st \<and> r_user cfg = st_ssh_user st \<and> r_env cfg = []"
  by (auto simp: run_tunnel_def ran session_cfg_def split: prod.splits)

lemma run_session_facts:
  assumes "run_session m ps o1 command st w = (Inr (Session md cfg told), w')"
  shows "md = mode_of command \<and> r_paths cfg = ps \<and> r_enrollment cfg = st_enrollment st \<and> r_user cfg = st_ssh_user st
    \<and> m_user m = Inr (st_ssh_user st)
    \<and> (if command = ''tunnel'' then r_env cfg = []
       else (\<exists>herdr w1 r w2 h w3. find_binary (o_herdr o1) w = (Inr herdr, w1)
          \<and> true_up (m_exec m) (applier_of ps o1) (runtime (st_enrollment st)) w1 = (Inr r, w2)
          \<and> prepare_herdr_environment (m_renum m) (m_order m) (m_goos m) (m_exec m) ps herdr (environ w2) w2 = (Inr (Some h), w3)
          \<and> r_env cfg = he_env h))"
proof (cases "command = ''tunnel''")
  case True
  then show ?thesis
    using assms by (auto simp: run_session_def ran mode_of_def dest!: run_tunnel_session split: if_splits)
next
  case False
  with assms obtain user herdr w1 r w2 p w3 where user: "m_user m = Inr user" "user = st_ssh_user st"
    and start: "find_binary (o_herdr o1) w = (Inr herdr, w1)"
      "true_up (m_exec m) (applier_of ps o1) (runtime (st_enrollment st)) w1 = (Inr r, w2)"
      "prepare_herdr_environment (m_renum m) (m_order m) (m_goos m) (m_exec m) ps herdr (environ w2) w2 = (Inr p, w3)"
    and rest: "(case p of
          None \<Rightarrow> ret Panicked
        | Some he \<Rightarrow>
             let told = runtime_result_line r # herdr_env_lines he in
             if command = ''herdr'' then ret (Session Service (session_cfg ps st herdr [] [] (he_env he)) told)
             else
               seq (ssh_tools ps o1) (\<lambda>(ssh, sshd).
               ret (Session Interactive (session_cfg ps st herdr ssh sshd (he_env he)) (starting_line st # told)))) w3
        = (Inr (Session md cfg told), w')"
    by (auto simp: run_session_def ran split: if_splits)
  from rest obtain h where h: "p = Some h" by (cases p) (auto simp: ran)
  with rest False have "md = mode_of command" "r_paths cfg = ps" "r_enrollment cfg = st_enrollment st"
    "r_user cfg = st_ssh_user st" "r_env cfg = he_env h"
    by (auto simp: mode_of_def ran session_cfg_def Let_def split: if_splits prod.splits)
  with user start h False show ?thesis by auto
qed

lemma other_commands:
  "runtime_command m ps o1 args w \<noteq> (Inr (Session md cfg told), w')"
  "stop_command m o1 w \<noteq> (Inr (Session md cfg told), w')"
  "connect_start m ps o1 raw w \<noteq> (Inr (Session md cfg told), w')"
  "debug_enroll m ps o1 st w \<noteq> (Inr (Session md cfg told), w')"
  by (auto simp: runtime_command_def stop_command_def connect_start_def debug_enroll_def ran Let_def
      split: list.split option.split prod.splits if_splits)

lemma parsed_command:
  "parse_invocation es args = Inr iv \<Longrightarrow>
     i_command iv \<in> {''connect'', ''runtime'', ''interactive'', ''run'', ''herdr'', ''tunnel'', ''stop'', ''version'', ''enroll''}"
  by (auto simp: parse_invocation_def check_command_def Let_def split: if_splits prod.splits)

lemma state_paths_still: "state_paths override euid w = (Inr ps, w1) \<Longrightarrow> w1 = w"
  by (auto simp: state_paths_def lift_def Let_def split: if_splits)

lemma run_enrolled_facts:
  assumes "run_enrolled m ps iv w = (Inr (Session md cfg told), w')"
  shows "\<exists>st w1. load_state (m_lower m) (p_state ps) w = (Inr (Some st), w1)
    \<and> run_session m ps (i_options iv) (i_command iv) st w1 = (Inr (Session md cfg told), w')
    \<and> i_command iv \<noteq> ''connect'' \<and> i_command iv \<noteq> ''enroll''"
  using assms by (auto simp: run_enrolled_def Let_def ran other_commands split: if_splits option.splits)


definition rests_on :: "prog \<Rightarrow> store \<Rightarrow> string \<Rightarrow> apply_result \<Rightarrow> world \<Rightarrow> string \<Rightarrow> bool" where
  "rests_on ex s inst r w t \<longleftrightarrow> link_of (vis (fs w)) s ''current'' = Some t \<and> usable w t
     \<and> (if res_skipped r then t = res_target r
        else realized ex inst (res_target r) \<and> t = clean (res_target r)
          \<and> vis (fs w) (loc s ''applied.json'') = Some (Reg o600 (encode_applied \<lparr>installable = inst, target = res_target r\<rparr>)))"

lemma rests_on_current: "rests_on ex s inst r w t \<Longrightarrow> link_of (vis (fs w)) s ''current'' \<noteq> None"
  by (simp add: rests_on_def)



text \<open>
  \<open>stop\<close> is meant to need nothing but the \<open>herdr\<close> program, but it is refused where no state directory can be
  found.
\<close>

lemma stop_needs_home:
  "m_euid m \<noteq> 0 \<Longrightarrow> getenv (environ w) ''XDG_STATE_HOME'' = [] \<Longrightarrow> getenv (environ w) ''HOME'' = [] \<Longrightarrow>
     run m [''stop''] w = (Inl (wrapf ''find home directory: %w'' [] (errorf ''$HOME is not defined'' [])), w)"
  by (simp add: run_def parse_invocation_def check_command_def Let_def seq_def lift_def state_paths_def default_options_def)

section \<open>What a login leaves behind\<close>

lemma ascii_utf8: "\<forall>c \<in> set s. is_ascii c \<Longrightarrow> valid_utf8 s"
  by (induction s) (auto simp: is_ascii_def)

lemma ascii_chars: "\<forall>c \<in> set s. is_alnum c \<or> c \<in> {CHR ''_'', CHR ''.'', CHR ''-''} \<Longrightarrow> valid_utf8 s"
  by (intro ascii_utf8) (auto simp: is_ascii_def char_class_defs)

lemma normalized_key:
  assumes "normalize_public_key s = Inr k"
  shows "validate_public_key k = Inr () \<and> k \<noteq> [] \<and> valid_utf8 k"
proof -
  from normalize_public_key_ok [OF assms] obtain b d where k: "k = key_type @ CHR '' '' # b"
    and b: "b \<noteq> []" "\<forall>x \<in> set b. b64_char x" "b64_decode b = Some d" "length d = 51" "key_blob_ok d" by blast
  have "\<forall>c \<in> set k. is_ascii c"
    using key_type_clean b(2) b64_char_clean by (auto simp: k is_ascii_def byte_def)
  with validate_plain_key(1) [OF b] show ?thesis by (simp add: k ascii_utf8)
qed

lemma host_key_kept:
  assumes "apply_host_key supplied en = Inr en'" "validate_enrollment en = Inr ()" "utf8_enrollment en"
  shows "validate_enrollment en' = Inr () \<and> utf8_enrollment en'"
proof -
  from assms(1) obtain s k where k: "normalize_public_key s = Inr k" and en': "en' = en\<lparr>tunnel_host_key := k\<rparr>"
    by (auto simp: apply_host_key_def Let_def split: if_splits)
  from normalized_key [OF k] assms(2,3) show ?thesis
    unfolding en' by (auto simp: validate_enrollment_def utf8_enrollment_def)
qed

text \<open>
  C9. What a completed login leaves behind is what the next run finds: when \<open>Connect\<close> returns an enrollment,
  its host key has been pinned and the state has been saved, so that loading it, on any machine with that tree
  where reading does not fail, gives exactly this endpoint, this user and this enrollment.
\<close>

theorem connect_persists:
  assumes run: "connecting lu err_text (save_enrollment ps o1 endpoint user) l w s" and ended: "f_main s = Ended (Inr en)"
    and prepared: "is_ok (canonical_endpoint lu endpoint)" "req_ssh_user (l_request l) = user"
    and ready: "file_ready (p_state ps) (vis (fs w))"
    and utf8: "valid_utf8 endpoint" "utf8_enrollment en"
    and short: "\<forall>en'. apply_host_key (o_host_key o1) en = Inr en' \<longrightarrow>
      length (encode_state \<lparr>st_version = 1, st_endpoint = endpoint, st_ssh_user = user, st_enrollment = en'\<rparr>) \<le> 1048576"
    and later: "fs w2 = fs (f_world s)" "faults w2 = []"
  shows "\<exists>en'. apply_host_key (o_host_key o1) en = Inr en'
    \<and> load_state lu (p_state ps) w2
        = (Inr (Some \<lparr>st_version = 1, st_endpoint = endpoint, st_ssh_user = user, st_enrollment = en'\<rparr>), w2)"
proof -
  from ended_granted [OF run ended] obtain r client tok where saved: "save_enrollment ps o1 endpoint user en w = (Inr (), f_world s)"
    and granted: "enroll lu client (l_endpoint l) tok r = Some (Inr en)" and r: "req_ssh_user r = user"
    using prepared(2) by auto
  from saved obtain en' where en': "apply_host_key (o_host_key o1) en = Inr en'"
    and save: "save_state (p_state ps) \<lparr>st_version = 0, st_endpoint = endpoint, st_ssh_user = user, st_enrollment = en'\<rparr> w
        = (Inr (), f_world s)" by (auto simp: save_enrollment_def ran)
  from granted have user: "full_match user_re user"
    using r by (auto simp: enroll_def check_request_def validate_enrollment_request_def split: sum.split_asm)
  from host_key_kept [OF en' _ utf8(2)] enroll_validates [OF granted]
  have valid: "validate_enrollment en' = Inr ()" "utf8_enrollment en'" by auto
  have "valid_utf8 user" using user_chars [OF user] by (intro ascii_chars) (simp add: list_all_iff)
  with saved_is_loaded [OF ready save _ _ _ _ _ later, of lu] utf8 valid prepared(1) user short en' show ?thesis
    by (auto simp: utf8_state_def)
qed


section \<open>An enrolled machine\<close>

definition demo_options :: options where
  "demo_options = (default_options [])\<lparr>o_state_dir := ''/d''\<rparr>"

lemma demo_pinned: "apply_host_key [] demo_enrollment = Inr demo_enrollment"
proof -
  have "gives (normalize_public_key demo_key) demo_key" "demo_key \<noteq> []" by code_simp+
  then show ?thesis by (auto simp: apply_host_key_def demo_enrollment_def dest: givesD)
qed

lemma demo_state_path: "p_state (paths_in ''/d'') = ''/d/state.json''"
  by code_simp

theorem connect_persists_witness:
  "\<exists>s. connecting id (\<lambda>_. []) (save_enrollment (paths_in ''/d'') demo_options ''https://fleet.example/api'' ''me'') demo_login demo_machine s
     \<and> f_main s = Ended (Inr demo_enrollment)
     \<and> load_state id ''/d/state.json'' (f_world s) = (Inr (Some (demo_saved\<lparr>st_version := 1\<rparr>)), f_world s)"
proof -
  let ?f = "save_enrollment (paths_in ''/d'') demo_options ''https://fleet.example/api'' ''me''"
  let ?w = "snd (save_state ''/d/state.json'' demo_saved demo_machine)"
  have key: "o_host_key demo_options = []" by (simp add: demo_options_def default_options_def getenv_def env_get_def)
  have f: "?f demo_enrollment = wrap (wrapf ''save enrollment: %w'' []) (save_state ''/d/state.json'' demo_saved)"
    by (simp add: save_enrollment_def key demo_pinned demo_state_path demo_saved_def seq_def lift_def fun_eq_iff)
  have "?f demo_enrollment demo_machine = (Inr (), ?w)" unfolding f wrap_Inr by (rule demo_save(1))
  from demo_finished [where finalize = ?f, OF this] obtain s where
    s: "connecting id (\<lambda>_. []) ?f demo_login demo_machine s" "f_world s = ?w" "f_main s = Ended (Inr demo_enrollment)" by blast
  have short: "\<forall>en'. apply_host_key (o_host_key demo_options) demo_enrollment = Inr en' \<longrightarrow>
      length (encode_state \<lparr>st_version = 1, st_endpoint = ''https://fleet.example/api'', st_ssh_user = ''me'', st_enrollment = en'\<rparr>) \<le> 1048576"
    using demo_saved_short by (simp add: key demo_pinned demo_saved_def)
  have ends: "is_ok (canonical_endpoint id ''https://fleet.example/api'')" "req_ssh_user (l_request demo_login) = ''me''"
    "file_ready (p_state (paths_in ''/d'')) (vis (fs demo_machine))" "valid_utf8 ''https://fleet.example/api''" 
    using demo_saved_ok(1,3) by (simp_all add: demo_state_path demo_saved_def demo_login_def demo_request_def) code_simp
  have calm: "faults (f_world s) = []" using demo_save(2) s(2) by simp
  from connect_persists [OF s(1,3) ends demo_enrollment_utf8 short refl calm] s show ?thesis
    by (auto simp: key demo_pinned demo_state_path demo_saved_def)
qed

definition demo_cli :: machine where
  "demo_cli = \<lparr>m_euid = 1000, m_user = Inr ''me'', m_hostname = Inr ''box.local'', m_goos = ''linux'', m_exec = demo_prog,
     m_http = (\<lambda>_. Inl (errorf ''unreachable'' [])), m_lower = id, m_renum = Some, m_order = id, m_polls = [], m_text = (\<lambda>_. []),
     m_version = ''dev''\<rparr>"

text \<open>A machine with a state file and the two \<open>ssh\<close> programs, before and after its state directory has been secured.\<close>

definition demo_gateway :: "string \<Rightarrow> world" where
  "demo_gateway t =
     \<lparr>fs = [([''d''], Dir o700), ([''d'', ''state.json''], Reg o600 t), ([''bin''], Dir o755), ([''bin'', ''herdr''], Reg o755 []),
        ([''bin'', ''ssh''], Reg o755 []), ([''bin'', ''sshd''], Reg o755 [])],
      cwd = [], environ = [''PATH=/bin''], faults = [], names = [0], hist = []\<rparr>"

definition demo_begun :: "string \<Rightarrow> world" where
  "demo_begun t = snd (ensure_state_dir ''/d'' (demo_gateway t))"

lemma demo_gateway_dir: "gives (fst (ensure_state_dir ''/d'' (demo_gateway t))) ()"
  by code_simp

lemma demo_begun_found:
  "gives (fst (find_binary ''herdr'' (demo_begun t))) ''/bin/herdr''"
  "gives (fst (find_binary ''ssh'' (demo_begun t))) ''/bin/ssh''"
  "gives (fst (find_binary ''sshd'' (demo_begun t))) ''/bin/sshd''"
  "snd (find_binary ''herdr'' (demo_begun t)) = demo_begun t"
  "snd (find_binary ''ssh'' (demo_begun t)) = demo_begun t"
  "snd (find_binary ''sshd'' (demo_begun t)) = demo_begun t"
  "gives (fst (open_log ''/d/familiar-fleet.log'' (demo_begun t))) ()"
  by code_simp+

lemma demo_begun_state:
  "node_at False ''/d/state.json'' (demo_begun t) = Inr (Reg o600 t)" "faults (demo_begun t) = []"
  by code_simp+

lemma gives_run: "gives (fst p) x \<Longrightarrow> p = (Inr x, snd p)"
  by (simp add: prod_eq_iff givesD)

definition demo_state :: state where
  "demo_state = demo_saved\<lparr>st_version := 1\<rparr>"

lemma demo_state_ok: "load_state id ''/d/state.json'' (demo_begun (encode_state demo_state)) = (Inr (Some demo_state), demo_begun (encode_state demo_state))"
proof (rule load_calm [OF demo_begun_state])
  show "length (encode_state demo_state) \<le> 1048576" using demo_saved_short by (simp add: demo_state_def)
  have "ints_ok demo_enrollment" by (simp add: ints_ok_def int64_def demo_enrollment_def)
  then show "decode_state (encode_state demo_state) = Inr demo_state"
    using demo_saved_ok(2) by (intro decode_encode_state) (simp_all add: utf8_state_def int64_def demo_state_def demo_saved_def)
  show "check_state id ''/d/state.json'' demo_state = Inr ()"
    using demo_saved_ok(3,4) demo_enrollment_ok by (simp add: check_state_ok demo_state_def) (simp add: demo_saved_def)
qed

lemma demo_tunnel:
  "\<exists>cfg told w'. run demo_cli [''-state-dir=/d'', ''tunnel''] (demo_gateway (encode_state demo_state)) = (Inr (Session TunnelOnly cfg told), w')"
proof -
  let ?t = "encode_state demo_state" and ?o = "(default_options [''PATH=/bin''])\<lparr>o_state_dir := ''/d''\<rparr>"
  let ?w = "demo_gateway ?t" and ?b = "demo_begun ?t"
  have es: "environ ?w = [''PATH=/bin'']" "cwd ?w = []" by (simp_all add: demo_gateway_def)
  have parse: "parse_invocation [''PATH=/bin''] [''-state-dir=/d'', ''tunnel''] = Inr \<lparr>i_options = ?o, i_command = ''tunnel'', i_args = []\<rparr>"
    by (simp add: parse_invocation_def flag_parts_def set_option_def check_command_def Let_def)
  have paths: "state_paths ''/d'' 1000 ?w = (Inr (paths_in ''/d''), ?w)"
  proof -
    have "file_abs [] ''/d'' = ''/d''" "\<not> contains_any ''/d'' [CHR '':'', SQUOTE]" "\<not> has_control ''/d''" by code_simp+
    then show ?thesis by (simp add: state_paths_def resolve_state_dir_def es lift_def)
  qed
  have dir: "ensure_state_dir ''/d'' ?w = (Inr (), ?b)"
    using gives_run [OF demo_gateway_dir] by (simp add: demo_begun_def)
  have found: "find_binary ''herdr'' ?b = (Inr ''/bin/herdr'', ?b)" "find_binary ''ssh'' ?b = (Inr ''/bin/ssh'', ?b)"
    "find_binary ''sshd'' ?b = (Inr ''/bin/sshd'', ?b)"
    using demo_begun_found(1-3) [THEN gives_run] demo_begun_found(4-6) by simp_all
  obtain w' where log: "open_log ''/d/familiar-fleet.log'' ?b = (Inr (), w')"
    using gives_run [OF demo_begun_found(7)] by blast
  have places: "p_dir (paths_in ''/d'') = ''/d''" "p_log (paths_in ''/d'') = ''/d/familiar-fleet.log''" by code_simp+
  have tools: "ssh_tools (paths_in ''/d'') ?o ?b = (Inr (''/bin/ssh'', ''/bin/sshd''), w')"
    using found log by (simp add: ssh_tools_def ran places default_options_def)
  have user: "m_user demo_cli = Inr ''me''" "st_ssh_user demo_state = ''me''" "m_lower demo_cli = id" "m_euid demo_cli = 1000"
    by (simp_all add: demo_cli_def demo_state_def demo_saved_def)
  have "\<exists>cfg told w'. run_session demo_cli (paths_in ''/d'') ?o ''tunnel'' demo_state ?b = (Inr (Session TunnelOnly cfg told), w')"
    using found tools by (auto simp: run_session_def run_tunnel_def ran user default_options_def)
  moreover have "run demo_cli [''-state-dir=/d'', ''tunnel''] ?w = run_session demo_cli (paths_in ''/d'') ?o ''tunnel'' demo_state ?b"
    using parse paths dir demo_state_ok
    by (simp add: run_def run_enrolled_def Let_def seq_def lift_def wrap_def es user places demo_state_path)
  ultimately show ?thesis by simp
qed


definition demo_applied_record :: string where
  "demo_applied_record = encode_applied \<lparr>installable = desc_installable (runtime demo_enrollment), target = ''/r''\<rparr>"

lemma demo_service:
  "\<exists>cfg told w'. run_session demo_cli (paths_in ''/d'') demo_options ''herdr'' demo_state (demo_node demo_applied_record)
     = (Inr (Session Service cfg told), w')"
proof -
  let ?w = "demo_node demo_applied_record" and ?a = "applier_of (paths_in ''/d'') demo_options"
  let ?d = "runtime demo_enrollment"
  have a: "applier_store ?a = \<lparr>sdir = ''/d/runtime''\<rparr>" "o_herdr demo_options = ''herdr''"
    by (simp_all add: applier_store_def applier_of_def demo_options_def default_options_def) code_simp
  have cli: "m_user demo_cli = Inr ''me''" "st_ssh_user demo_state = ''me''" "m_exec demo_cli = demo_prog" "m_renum demo_cli = Some"
    "m_order demo_cli = id" "m_goos demo_cli = ''linux''" "st_enrollment demo_state = demo_enrollment"
    by (simp_all add: demo_cli_def demo_state_def demo_saved_def)
  have herdr: "find_binary ''herdr'' ?w = (Inr ''/bin/herdr'', ?w)"
    using demo_node_found [of demo_applied_record] by (auto split: prod.splits sum.splits)
  have pin: "desc_validate ?d = Inr ()" "valid_utf8 (desc_installable ?d)" "valid_utf8 ''/r''" "desc_installable ?d \<noteq> []"
  proof -
    have "gives (desc_validate ?d) ()" by code_simp
    then show "desc_validate ?d = Inr ()" by (rule givesD)
  qed code_simp+
  have rec: "decode_applied demo_applied_record = Some \<lparr>installable = desc_installable ?d, target = ''/r''\<rparr>"
    unfolding demo_applied_record_def using pin by (intro decode_encode_applied) simp_all
  have store: "store_ok (applier_store ?a) (vis (fs ?w))" using demo_node_store(1) by (simp add: a gc_ok_def)
  have "apply_runtime demo_prog ?a (desc_installable ?d) ?w = (Inr \<lparr>res_target = ''/r'', res_changed = False, res_skipped = True\<rparr>, ?w)"
    using skips_when_satisfied [OF store demo_node_store(5) _ rec] demo_node_store(2-4) by (simp add: a)
  then have up: "true_up demo_prog ?a ?d ?w = (Inr \<lparr>res_target = ''/r'', res_changed = False, res_skipped = True\<rparr>, ?w)"
    using pin by (simp add: true_up_def seq_def lift_def wrap_def)
  obtain h w' where "prepare_herdr_environment Some id ''linux'' demo_prog (paths_in ''/d'') ''/bin/herdr'' (environ ?w) ?w = (Inr (Some h), w')"
    using demo_node_prepared [of demo_applied_record] by (auto simp: demo_node_def split: prod.splits sum.splits option.splits)
  with herdr up show ?thesis
    by (simp add: run_session_def cli a Let_def seq_def lift_def ret_def)
qed


end
