(* ===== verification/Spec2Isabelle.thy ===== *)
theory Spec2Isabelle
  imports ApplyProps SuperviseProps Enroll HerdrEnvProps PaneProps CliProps
begin

text \<open>
  A verification development of familiar-fleet, the per-node agent that enrolls a machine in a
  Familiar fleet and keeps its Herdr server, runtime and tunnel running.
\<close>

end
